theory Spec2Isabelle
  imports Complex_Main
begin

section \<open>Values shared by the games\<close>

text \<open>
  The games are TypeScript classes. A \<^verbatim>\<open>number\<close> that only ever holds a count, a score
  or a grid index is an \<^typ>\<open>int\<close> or a \<^typ>\<open>nat\<close>; a coordinate, a speed or a time is a
  \<^typ>\<open>real\<close> (the arithmetic of doubles is idealised, no claim below depends on rounding).
  A read past the end of an array gives \<^verbatim>\<open>undefined\<close>, and a property read on
  \<^verbatim>\<open>undefined\<close> throws a TypeError.
\<close>

text \<open>
  What can go wrong in a handler: a TypeError (a property read on \<^verbatim>\<open>undefined\<close>), the
  SyntaxError of \<^verbatim>\<open>JSON.parse(undefined)\<close>, an integer counter that would become
  \<^verbatim>\<open>NaN\<close>, and a loop that never ends.
\<close>

datatype error = TypeError | SyntaxError | NotANumber | Diverges

text \<open>
  \<^verbatim>\<open>Math.random()\<close> returns a double in \<open>[0, 1)\<close>. A game state carries the sequence of
  values the calls will return and the number of calls made so far.
\<close>

typedef rand01 = "{r :: real. 0 \<le> r \<and> r < 1}"
  by (rule exI[of _ 0]) simp

setup_lifting type_definition_rand01

lift_definition rval :: "rand01 \<Rightarrow> real" is "\<lambda>r. r" .

lift_definition rand_zero :: rand01 is "0" by simp

lift_definition rand_half :: rand01 is "1 / 2" by simp

text \<open>\<^verbatim>\<open>Math.floor(Math.random() * n)\<close>.\<close>

definition randomIndex :: "rand01 \<Rightarrow> nat \<Rightarrow> nat" where
  "randomIndex r n = nat \<lfloor>rval r * real n\<rfloor>"

datatype cell = Undefined | Num int

text \<open>JavaScript truthiness of a grid cell: \<^verbatim>\<open>undefined\<close> and \<^verbatim>\<open>0\<close> are falsy.\<close>

fun truthy :: "cell \<Rightarrow> bool" where
  "truthy Undefined = False"
| "truthy (Num n) = (n \<noteq> 0)"

text \<open>\<^verbatim>\<open>arr[i]\<close> on an array of cells.\<close>

definition cellAt :: "cell list \<Rightarrow> nat \<Rightarrow> cell" where
  "cellAt arr i = (if i < length arr then arr ! i else Undefined)"

section \<open>The falling-piece game (shape-drop.component.ts)\<close>

definition COLS :: nat where "COLS = 10"
definition ROWS :: nat where "ROWS = 20"

type_synonym pattern = "cell list list"
type_synonym board = "cell list list"

subsection \<open>rotatePattern\<close>

text \<open>
  \<^verbatim>\<open>rotated[col][size - 1 - row] = pattern[row][col]\<close> for \<open>row\<close> and \<open>col\<close> below
  \<open>size = pattern.length\<close>, on a \<open>size \<times> size\<close> array of zeros.
\<close>

definition rotatePattern_row :: "pattern \<Rightarrow> nat \<Rightarrow> nat \<Rightarrow> pattern \<Rightarrow> pattern" where
  "rotatePattern_row pattern sz row rotated =
     fold (\<lambda>col rot. rot[col := (rot ! col)[sz - 1 - row := cellAt (pattern ! row) col]])
       [0..<sz] rotated"

definition rotatePattern :: "pattern \<Rightarrow> pattern" where
  "rotatePattern pattern =
     (let sz = length pattern;
          rotated = replicate sz (replicate sz (Num 0))
      in fold (rotatePattern_row pattern sz) [0..<sz] rotated)"

subsection \<open>isValidMove\<close>

text \<open>
  The body of the two loops for one occupied pattern cell at board coordinates
  \<open>(newX, newY)\<close>: \<open>Inr False\<close> is \<^verbatim>\<open>return false\<close>, \<open>Inr True\<close> lets the loops go on.
  \<^verbatim>\<open>this.board[newY][newX]\<close> throws when the board has no row \<open>newY\<close>.
\<close>

definition cellFree :: "board \<Rightarrow> int \<Rightarrow> int \<Rightarrow> error + bool" where
  "cellFree board newX newY =
     (if newX < 0 \<or> newX \<ge> int COLS \<or> newY \<ge> int ROWS then Inr False
      else if newY \<ge> 0 then
        (if nat newY < length board
         then Inr (\<not> truthy (cellAt (board ! nat newY) (nat newX)))
         else Inl TypeError)
      else Inr True)"

text \<open>The inner loop over \<open>col\<close>; \<open>newX\<close> is \<open>x + col\<close> of the cell at the head.\<close>

fun isValidMove_cols :: "board \<Rightarrow> int \<Rightarrow> int \<Rightarrow> cell list \<Rightarrow> error + bool" where
  "isValidMove_cols board newX newY [] = Inr True"
| "isValidMove_cols board newX newY (c # cs) =
     (if truthy c then
        (case cellFree board newX newY of
           Inl e \<Rightarrow> Inl e
         | Inr ok \<Rightarrow> if ok then isValidMove_cols board (newX + 1) newY cs else Inr False)
      else isValidMove_cols board (newX + 1) newY cs)"

text \<open>The outer loop over \<open>row\<close>; \<open>newY\<close> is \<open>y + row\<close> of the row at the head.\<close>

fun isValidMove_rows :: "board \<Rightarrow> int \<Rightarrow> int \<Rightarrow> pattern \<Rightarrow> error + bool" where
  "isValidMove_rows board x newY [] = Inr True"
| "isValidMove_rows board x newY (r # rs) =
     (case isValidMove_cols board x newY r of
        Inl e \<Rightarrow> Inl e
      | Inr ok \<Rightarrow> if ok then isValidMove_rows board x (newY + 1) rs else Inr False)"

definition isValidMove :: "board \<Rightarrow> int \<Rightarrow> int \<Rightarrow> pattern \<Rightarrow> error + bool" where
  "isValidMove board x y pattern = isValidMove_rows board x y pattern"

subsection \<open>clearLines\<close>

text \<open>\<^verbatim>\<open>this.board[row].every(cell => cell !== 0)\<close>.\<close>

definition fullRow :: "cell list \<Rightarrow> bool" where
  "fullRow r = list_all (\<lambda>c. c \<noteq> Num 0) r"

definition emptyRow :: "cell list" where
  "emptyRow = replicate COLS (Num 0)"

text \<open>\<^verbatim>\<open>arr.splice(i, 1)\<close> for \<open>i\<close> inside the array.\<close>

definition splice1 :: "nat \<Rightarrow> 'a list \<Rightarrow> 'a list" where
  "splice1 i xs = take i xs @ drop (Suc i) xs"

text \<open>
  The loop \<^verbatim>\<open>for (row = ROWS - 1; row >= 0; row--)\<close>, with \<open>n = row + 1\<close>: a full row is
  spliced out, an empty row is unshifted, and \<^verbatim>\<open>row++\<close> before the loop's \<^verbatim>\<open>row--\<close>
  leaves the index where it is. The loop ends because every pass either lowers the index or
  lowers the number of full rows.
\<close>

function clearLines_loop :: "nat \<Rightarrow> board \<Rightarrow> nat \<Rightarrow> error + (board \<times> nat)" where
  "clearLines_loop n board linesCleared =
     (if n = 0 then Inr (board, linesCleared)
      else if n - 1 < length board then
        (if fullRow (board ! (n - 1))
         then clearLines_loop n (emptyRow # splice1 (n - 1) board) (linesCleared + 1)
         else clearLines_loop (n - 1) board linesCleared)
      else Inl TypeError)"
  by pat_completeness auto

lemma fullRow_emptyRow: "\<not> fullRow emptyRow"
  by (simp add: fullRow_def emptyRow_def COLS_def list_all_iff)

lemma filter_splice1_less:
  "i < length xs \<Longrightarrow> P (xs ! i) \<Longrightarrow> length (filter P (splice1 i xs)) < length (filter P xs)"
proof -
  assume a: "i < length xs" "P (xs ! i)"
  have "xs = take i xs @ (xs ! i) # drop (Suc i) xs"
    using a(1) by (simp add: id_take_nth_drop)
  then have "length (filter P xs) = length (filter P (take i xs @ (xs ! i) # drop (Suc i) xs))"
    by simp
  also have "\<dots> = Suc (length (filter P (splice1 i xs)))"
    using a(2) by (simp add: splice1_def)
  finally show ?thesis by simp
qed

termination clearLines_loop
proof (relation "measures [\<lambda>(n, b, c). length (filter fullRow b), \<lambda>(n, b, c). n]")
  show "wf (measures [\<lambda>(n, b, c). length (filter fullRow b), \<lambda>(n, b, c). n])" by simp
next
  fix n :: nat and board :: board and linesCleared :: nat
  assume "n \<noteq> 0" "n - 1 < length board" "fullRow (board ! (n - 1))"
  then show "((n, emptyRow # splice1 (n - 1) board, linesCleared + 1), (n, board, linesCleared))
       \<in> measures [\<lambda>(n, b, c). length (filter fullRow b), \<lambda>(n, b, c). n]"
    using filter_splice1_less[of "n - 1" board fullRow] by (simp add: fullRow_emptyRow)
next
  fix n :: nat and board :: board and linesCleared :: nat
  assume "n \<noteq> 0"
  then show "((n - 1, board, linesCleared), (n, board, linesCleared))
       \<in> measures [\<lambda>(n, b, c). length (filter fullRow b), \<lambda>(n, b, c). n]"
    by simp
qed

definition clearLines :: "board \<Rightarrow> error + (board \<times> nat)" where
  "clearLines board = clearLines_loop ROWS board 0"

subsection \<open>The pieces and the game state\<close>

record Shape =
  shape_pattern :: pattern
  shape_color :: string

definition SHAPES :: "Shape list" where
  "SHAPES =
    [\<lparr>shape_pattern = [[Num 0, Num 0, Num 0, Num 0],
                       [Num 1, Num 1, Num 1, Num 1],
                       [Num 0, Num 0, Num 0, Num 0],
                       [Num 0, Num 0, Num 0, Num 0]], shape_color = ''#00ffff''\<rparr>,
     \<lparr>shape_pattern = [[Num 1, Num 1],
                       [Num 1, Num 1]], shape_color = ''#ffff00''\<rparr>,
     \<lparr>shape_pattern = [[Num 0, Num 1, Num 0],
                       [Num 1, Num 1, Num 1],
                       [Num 0, Num 0, Num 0]], shape_color = ''#ff00ff''\<rparr>,
     \<lparr>shape_pattern = [[Num 0, Num 1, Num 1],
                       [Num 1, Num 1, Num 0],
                       [Num 0, Num 0, Num 0]], shape_color = ''#00ff00''\<rparr>,
     \<lparr>shape_pattern = [[Num 1, Num 1, Num 0],
                       [Num 0, Num 1, Num 1],
                       [Num 0, Num 0, Num 0]], shape_color = ''#ff0000''\<rparr>,
     \<lparr>shape_pattern = [[Num 1, Num 0, Num 0],
                       [Num 1, Num 1, Num 1],
                       [Num 0, Num 0, Num 0]], shape_color = ''#0000ff''\<rparr>,
     \<lparr>shape_pattern = [[Num 0, Num 0, Num 1],
                       [Num 1, Num 1, Num 1],
                       [Num 0, Num 0, Num 0]], shape_color = ''#ff7700''\<rparr>]"

text \<open>
  The fields of the component that the game logic reads or writes. \<open>sd_x\<close> and \<open>sd_y\<close>
  are \<^verbatim>\<open>currentPosition\<close>. The canvas, the audio context and the handle of the requested
  animation frame are left out: sounds and drawing do not touch these fields.
\<close>

record sd_state =
  sd_score :: int
  sd_lines :: int
  sd_level :: int
  sd_gameOver :: bool
  sd_paused :: bool
  sd_board :: board
  sd_currentPiece :: "Shape option"
  sd_x :: int
  sd_y :: int
  sd_nextPiece :: "Shape option"
  sd_lastTime :: real
  sd_dropCounter :: real
  sd_dropInterval :: real
  sd_random :: "nat \<Rightarrow> rand01"
  sd_randomCalls :: nat

subsection \<open>rotate\<close>

definition kicks :: "(int \<times> int) list" where
  "kicks = [(-1, 0), (1, 0), (-2, 0), (2, 0), (0, -1)]"

text \<open>The loop \<^verbatim>\<open>for (const kick of kicks)\<close>: the first valid kick is applied and ends it.\<close>

fun rotate_kicks :: "sd_state \<Rightarrow> Shape \<Rightarrow> pattern \<Rightarrow> (int \<times> int) list \<Rightarrow> error + sd_state" where
  "rotate_kicks st piece rotated [] = Inr st"
| "rotate_kicks st piece rotated ((kx, ky) # ks) =
     (case isValidMove (sd_board st) (sd_x st + kx) (sd_y st + ky) rotated of
        Inl e \<Rightarrow> Inl e
      | Inr ok \<Rightarrow>
          if ok then
            Inr (st\<lparr>sd_currentPiece := Some (piece\<lparr>shape_pattern := rotated\<rparr>),
                    sd_x := sd_x st + kx, sd_y := sd_y st + ky\<rparr>)
          else rotate_kicks st piece rotated ks)"

definition rotate :: "sd_state \<Rightarrow> error + sd_state" where
  "rotate st =
     (case sd_currentPiece st of
        None \<Rightarrow> Inr st
      | Some piece \<Rightarrow>
          (let rotated = rotatePattern (shape_pattern piece) in
           case isValidMove (sd_board st) (sd_x st) (sd_y st) rotated of
             Inl e \<Rightarrow> Inl e
           | Inr ok \<Rightarrow>
               if ok then Inr (st\<lparr>sd_currentPiece := Some (piece\<lparr>shape_pattern := rotated\<rparr>)\<rparr>)
               else rotate_kicks st piece rotated kicks))"

subsection \<open>Spawning a piece\<close>

definition sd_nextRandom :: "sd_state \<Rightarrow> rand01 \<times> sd_state" where
  "sd_nextRandom st =
     (sd_random st (sd_randomCalls st), st\<lparr>sd_randomCalls := sd_randomCalls st + 1\<rparr>)"

text \<open>
  \<^verbatim>\<open>JSON.parse(JSON.stringify(this.SHAPES[index]))\<close>: a copy of the shape; an index outside
  the table would give \<^verbatim>\<open>JSON.parse(undefined)\<close>, a SyntaxError.
\<close>

definition createRandomPiece :: "sd_state \<Rightarrow> error + (Shape \<times> sd_state)" where
  "createRandomPiece st =
     (let (r, st') = sd_nextRandom st;
          index = randomIndex r (length SHAPES)
      in if index < length SHAPES then Inr (SHAPES ! index, st') else Inl SyntaxError)"

definition spawnPiece :: "sd_state \<Rightarrow> error + sd_state" where
  "spawnPiece st =
     (let st1 = st\<lparr>sd_currentPiece := sd_nextPiece st\<rparr> in
      case createRandomPiece st1 of
        Inl e \<Rightarrow> Inl e
      | Inr (np, st2) \<Rightarrow>
          (let st3 = st2\<lparr>sd_nextPiece := Some np\<rparr> in
           case sd_currentPiece st3 of
             None \<Rightarrow> Inr st3
           | Some piece \<Rightarrow>
               (case shape_pattern piece of
                  [] \<Rightarrow> Inl TypeError
                | r0 # _ \<Rightarrow>
                    (let st4 = st3\<lparr>sd_x := int (COLS div 2) - int (length r0 div 2), sd_y := 0\<rparr> in
                     case isValidMove (sd_board st4) (sd_x st4) (sd_y st4) (shape_pattern piece) of
                       Inl e \<Rightarrow> Inl e
                     | Inr ok \<Rightarrow> Inr (if ok then st4 else st4\<lparr>sd_gameOver := True\<rparr>)))))"

subsection \<open>lockPiece\<close>

text \<open>
  \<^verbatim>\<open>arr[i] = v\<close>: past the end JavaScript extends the array, and the slots in between read
  as \<^verbatim>\<open>undefined\<close>.
\<close>

definition setAt :: "cell list \<Rightarrow> nat \<Rightarrow> cell \<Rightarrow> cell list" where
  "setAt arr i v =
     (if i < length arr then arr[i := v]
      else arr @ replicate (i - length arr) Undefined @ [v])"

text \<open>\<^verbatim>\<open>this.board[y][x] = v\<close>.\<close>

definition setCell :: "board \<Rightarrow> nat \<Rightarrow> nat \<Rightarrow> cell \<Rightarrow> error + board" where
  "setCell board y x v =
     (if y < length board then Inr (board[y := setAt (board ! y) x v]) else Inl TypeError)"

text \<open>\<^verbatim>\<open>arr.findIndex(p)\<close>: the first index whose element satisfies \<open>p\<close>, or \<open>-1\<close>.\<close>

fun findIndex :: "('a \<Rightarrow> bool) \<Rightarrow> 'a list \<Rightarrow> int" where
  "findIndex P [] = -1"
| "findIndex P (x # xs) =
     (if P x then 0 else (let i = findIndex P xs in if i < 0 then -1 else i + 1))"

fun lockPiece_cols :: "board \<Rightarrow> cell \<Rightarrow> int \<Rightarrow> int \<Rightarrow> cell list \<Rightarrow> error + board" where
  "lockPiece_cols board v x y [] = Inr board"
| "lockPiece_cols board v x y (c # cs) =
     (if truthy c \<and> y \<ge> 0 \<and> y < int ROWS \<and> x \<ge> 0 \<and> x < int COLS then
        (case setCell board (nat y) (nat x) v of
           Inl e \<Rightarrow> Inl e
         | Inr board' \<Rightarrow> lockPiece_cols board' v (x + 1) y cs)
      else lockPiece_cols board v (x + 1) y cs)"

fun lockPiece_rows :: "board \<Rightarrow> cell \<Rightarrow> int \<Rightarrow> int \<Rightarrow> pattern \<Rightarrow> error + board" where
  "lockPiece_rows board v x y [] = Inr board"
| "lockPiece_rows board v x y (r # rs) =
     (case lockPiece_cols board v x y r of
        Inl e \<Rightarrow> Inl e
      | Inr board' \<Rightarrow> lockPiece_rows board' v x (y + 1) rs)"

definition points :: "int list" where
  "points = [0, 100, 300, 500, 800]"

text \<open>
  The scoring block of \<^verbatim>\<open>lockPiece\<close> for \<open>linesCleared > 0\<close>. \<^verbatim>\<open>points[linesCleared]\<close>
  past the table is \<^verbatim>\<open>undefined\<close> and the score would become \<^verbatim>\<open>NaN\<close>.
\<close>

definition scoreLines :: "sd_state \<Rightarrow> nat \<Rightarrow> error + sd_state" where
  "scoreLines st linesCleared =
     (if linesCleared < length points then
        (let st1 = st\<lparr>sd_lines := sd_lines st + int linesCleared\<rparr>;
             st2 = st1\<lparr>sd_score := sd_score st1 + points ! linesCleared * sd_level st1\<rparr>;
             newLevel = sd_lines st2 div 10 + 1
         in Inr (if newLevel > sd_level st2
                 then st2\<lparr>sd_level := newLevel,
                          sd_dropInterval := max 100 (1000 - (real_of_int newLevel - 1) * 100)\<rparr>
                 else st2))
      else Inl NotANumber)"

definition lockPiece :: "sd_state \<Rightarrow> error + sd_state" where
  "lockPiece st =
     (case sd_currentPiece st of
        None \<Rightarrow> Inr st
      | Some piece \<Rightarrow>
          (case lockPiece_rows (sd_board st)
                  (Num (findIndex (\<lambda>s. shape_color s = shape_color piece) SHAPES + 1))
                  (sd_x st) (sd_y st) (shape_pattern piece) of
             Inl e \<Rightarrow> Inl e
           | Inr b \<Rightarrow>
               (case clearLines b of
                  Inl e \<Rightarrow> Inl e
                | Inr (b', linesCleared) \<Rightarrow>
                    (case (if linesCleared > 0 then scoreLines (st\<lparr>sd_board := b'\<rparr>) linesCleared
                           else Inr (st\<lparr>sd_board := b'\<rparr>)) of
                       Inl e \<Rightarrow> Inl e
                     | Inr st1 \<Rightarrow> spawnPiece st1))))"

subsection \<open>Moves\<close>

definition moveLeft :: "sd_state \<Rightarrow> error + sd_state" where
  "moveLeft st =
     (case sd_currentPiece st of
        None \<Rightarrow> Inr st
      | Some piece \<Rightarrow>
          (case isValidMove (sd_board st) (sd_x st - 1) (sd_y st) (shape_pattern piece) of
             Inl e \<Rightarrow> Inl e
           | Inr ok \<Rightarrow> Inr (if ok then st\<lparr>sd_x := sd_x st - 1\<rparr> else st)))"

definition moveRight :: "sd_state \<Rightarrow> error + sd_state" where
  "moveRight st =
     (case sd_currentPiece st of
        None \<Rightarrow> Inr st
      | Some piece \<Rightarrow>
          (case isValidMove (sd_board st) (sd_x st + 1) (sd_y st) (shape_pattern piece) of
             Inl e \<Rightarrow> Inl e
           | Inr ok \<Rightarrow> Inr (if ok then st\<lparr>sd_x := sd_x st + 1\<rparr> else st)))"

text \<open>The boolean that \<^verbatim>\<open>moveDown\<close> returns is dropped by both of its callers.\<close>

definition moveDown :: "sd_state \<Rightarrow> error + sd_state" where
  "moveDown st =
     (case sd_currentPiece st of
        None \<Rightarrow> Inr st
      | Some piece \<Rightarrow>
          (case isValidMove (sd_board st) (sd_x st) (sd_y st + 1) (shape_pattern piece) of
             Inl e \<Rightarrow> Inl e
           | Inr ok \<Rightarrow> if ok then Inr (st\<lparr>sd_y := sd_y st + 1\<rparr>) else lockPiece st))"

subsection \<open>hardDrop\<close>

text \<open>
  \<^verbatim>\<open>while (this.isValidMove(x, y + 1, pattern)) { y++; dropDistance++; }\<close>. A pattern with
  no occupied cell is valid everywhere, so the loop would never end; with an occupied cell
  the piece reaches the floor.
\<close>

definition occupied :: "pattern \<Rightarrow> bool" where
  "occupied p = list_ex (list_ex truthy) p"

lemma isValidMove_cols_floor:
  "isValidMove_cols board newX newY r = Inr True \<Longrightarrow> list_ex truthy r \<Longrightarrow> newY < int ROWS"
  by (induction board newX newY r rule: isValidMove_cols.induct)
     (auto simp: cellFree_def split: if_splits sum.splits)

lemma isValidMove_rows_floor:
  "isValidMove_rows board x newY p = Inr True \<Longrightarrow> list_ex (list_ex truthy) p \<Longrightarrow> newY < int ROWS"
proof (induction board x newY p rule: isValidMove_rows.induct)
  case (1 board x newY)
  then show ?case by simp
next
  case (2 board x newY r rs)
  from "2.prems"(1) have c: "isValidMove_cols board x newY r = Inr True"
    and rest: "isValidMove_rows board x (newY + 1) rs = Inr True"
    by (auto split: sum.splits if_splits)
  show ?case
  proof (cases "list_ex truthy r")
    case True
    with c show ?thesis by (rule isValidMove_cols_floor)
  next
    case False
    with "2.prems"(2) have "list_ex (list_ex truthy) rs" by simp
    with "2.IH"[OF c] rest have "newY + 1 < int ROWS" by simp
    then show ?thesis by simp
  qed
qed

function hardDrop_loop :: "board \<Rightarrow> int \<Rightarrow> int \<Rightarrow> pattern \<Rightarrow> int \<Rightarrow> error + (int \<times> int)" where
  "hardDrop_loop board x y p dropDistance =
     (if \<not> occupied p then Inl Diverges
      else
        (case isValidMove board x (y + 1) p of
           Inl e \<Rightarrow> Inl e
         | Inr ok \<Rightarrow>
             if ok then hardDrop_loop board x (y + 1) p (dropDistance + 1)
             else Inr (y, dropDistance)))"
  by pat_completeness auto

termination hardDrop_loop
proof (relation "measure (\<lambda>(board, x, y, p, d). nat (int ROWS - y))")
  show "wf (measure (\<lambda>(board, x, y, p, d). nat (int ROWS - y)))" by simp
next
  fix board :: board and x y :: int and p :: pattern and dropDistance :: int and ok :: bool
  assume occ: "\<not> \<not> occupied p" and v: "isValidMove board x (y + 1) p = Inr ok" and ok: "ok"
  from v ok occ have "y + 1 < int ROWS"
    using isValidMove_rows_floor[of board x "y + 1" p] by (simp add: isValidMove_def occupied_def)
  then show "((board, x, y + 1, p, dropDistance + 1), (board, x, y, p, dropDistance))
       \<in> measure (\<lambda>(board, x, y, p, d). nat (int ROWS - y))"
    by simp
qed

declare hardDrop_loop.simps [simp del]

definition hardDrop :: "sd_state \<Rightarrow> error + sd_state" where
  "hardDrop st =
     (case sd_currentPiece st of
        None \<Rightarrow> Inr st
      | Some piece \<Rightarrow>
          (case hardDrop_loop (sd_board st) (sd_x st) (sd_y st) (shape_pattern piece) 0 of
             Inl e \<Rightarrow> Inl e
           | Inr (y', dropDistance) \<Rightarrow>
               lockPiece (if dropDistance > 0
                          then st\<lparr>sd_y := y', sd_score := sd_score st + dropDistance * 2\<rparr>
                          else st\<lparr>sd_y := y'\<rparr>)))"

subsection \<open>The frame loop and the keyboard\<close>

definition sd_update :: "real \<Rightarrow> sd_state \<Rightarrow> error + sd_state" where
  "sd_update deltaTime st =
     (if sd_gameOver st \<or> sd_paused st then Inr st
      else
        (let st1 = st\<lparr>sd_dropCounter := sd_dropCounter st + deltaTime\<rparr> in
         if sd_dropCounter st1 > sd_dropInterval st1 then
           (case moveDown st1 of
              Inl e \<Rightarrow> Inl e
            | Inr st2 \<Rightarrow> Inr (st2\<lparr>sd_dropCounter := 0\<rparr>))
         else Inr st1))"

text \<open>
  One call of \<^verbatim>\<open>gameLoop(timestamp)\<close>, as the browser makes it for each animation frame.
  What \<^verbatim>\<open>render\<close> draws is a function of the state and changes none of it.
\<close>

definition sd_gameLoop :: "real \<Rightarrow> sd_state \<Rightarrow> error + sd_state" where
  "sd_gameLoop timestamp st =
     (if sd_paused st then Inr (st\<lparr>sd_lastTime := timestamp\<rparr>)
      else
        (let deltaTime = timestamp - sd_lastTime st
         in sd_update deltaTime (st\<lparr>sd_lastTime := timestamp\<rparr>)))"

definition sd_togglePause :: "sd_state \<Rightarrow> sd_state" where
  "sd_togglePause st = st\<lparr>sd_paused := \<not> sd_paused st\<rparr>"

definition sd_handleKeyDown :: "string \<Rightarrow> sd_state \<Rightarrow> error + sd_state" where
  "sd_handleKeyDown key st =
     (if sd_gameOver st \<or> sd_paused st then Inr st
      else if key = ''ArrowLeft'' then moveLeft st
      else if key = ''ArrowRight'' then moveRight st
      else if key = ''ArrowDown'' then moveDown st
      else if key = ''ArrowUp'' then rotate st
      else if key = '' '' then hardDrop st
      else if key = ''p'' \<or> key = ''P'' then Inr (sd_togglePause st)
      else Inr st)"

text \<open>
  \<^verbatim>\<open>initGame\<close> on a component whose fields still have their initial values; the first
  two draws of the random sequence choose the first two pieces.
\<close>

definition sd_initGame :: "sd_state \<Rightarrow> error + sd_state" where
  "sd_initGame st =
     (let st1 = st\<lparr>sd_board := replicate ROWS (replicate COLS (Num 0)),
                    sd_score := 0, sd_lines := 0, sd_level := 1,
                    sd_gameOver := False, sd_paused := False,
                    sd_dropInterval := 1000, sd_dropCounter := 0\<rparr> in
      case createRandomPiece st1 of
        Inl e \<Rightarrow> Inl e
      | Inr (np, st2) \<Rightarrow> spawnPiece (st2\<lparr>sd_nextPiece := Some np\<rparr>))"

definition sd_new :: "(nat \<Rightarrow> rand01) \<Rightarrow> sd_state" where
  "sd_new rnd =
     \<lparr>sd_score = 0, sd_lines = 0, sd_level = 1, sd_gameOver = False, sd_paused = False,
      sd_board = [], sd_currentPiece = None, sd_x = 0, sd_y = 0, sd_nextPiece = None,
      sd_lastTime = 0, sd_dropCounter = 0, sd_dropInterval = 1000,
      sd_random = rnd, sd_randomCalls = 0\<rparr>"

definition sd_restart :: "real \<Rightarrow> sd_state \<Rightarrow> error + sd_state" where
  "sd_restart now st =
     (case sd_initGame st of
        Inl e \<Rightarrow> Inl e
      | Inr st1 \<Rightarrow> sd_gameLoop now st1)"

text \<open>A pattern of \<open>n\<close> rows of \<open>n\<close> cells.\<close>

definition square :: "nat \<Rightarrow> pattern \<Rightarrow> bool" where
  "square n p = (length p = n \<and> (\<forall>r \<in> set p. length r = n))"

subsection \<open>Events\<close>

text \<open>
  What can happen to a running game: an animation frame with its timestamp, a key going
  down, and the two buttons of the template (\<^verbatim>\<open>togglePause\<close>, and \<^verbatim>\<open>restart\<close> with the
  value of \<^verbatim>\<open>performance.now()\<close>). An exception ends the run.
\<close>

datatype sd_event = SdFrame real | SdKeyDown string | SdTogglePause | SdRestart real

fun sd_step :: "sd_event \<Rightarrow> sd_state \<Rightarrow> error + sd_state" where
  "sd_step (SdFrame timestamp) st = sd_gameLoop timestamp st"
| "sd_step (SdKeyDown key) st = sd_handleKeyDown key st"
| "sd_step SdTogglePause st = Inr (sd_togglePause st)"
| "sd_step (SdRestart now) st = sd_restart now st"

fun sd_run :: "sd_event list \<Rightarrow> sd_state \<Rightarrow> error + sd_state" where
  "sd_run [] st = Inr st"
| "sd_run (e # es) st =
     (case sd_step e st of
        Inl err \<Rightarrow> Inl err
      | Inr st' \<Rightarrow> sd_run es st')"

fun sd_restarts :: "sd_event \<Rightarrow> bool" where
  "sd_restarts (SdRestart now) = True"
| "sd_restarts e = False"

section \<open>The asteroids game (SpaceRocksGameComponent)\<close>

type_synonym vec = "real \<times> real"

datatype asteroid_size = Large | Medium | Small

record Ship =
  ship_pos :: vec
  ship_vel :: vec
  ship_angle :: real
  ship_thrust :: bool
  ship_radius :: real

record Asteroid =
  ast_pos :: vec
  ast_vel :: vec
  ast_angle :: real
  ast_rotationSpeed :: real
  ast_radius :: real
  ast_size :: asteroid_size
  ast_points :: "vec list"

record RockBullet =
  rb_pos :: vec
  rb_vel :: vec
  rb_life :: int

record Particle =
  pt_pos :: vec
  pt_vel :: vec
  pt_life :: int
  pt_maxLife :: int

text \<open>
  \<open>sr_keys\<close> is the set of keys held down (\<^verbatim>\<open>this.keys[k]\<close> is truthy), \<open>sr_width\<close> and
  \<open>sr_height\<close> are the size of the canvas. \<^verbatim>\<open>gameOverState\<close> is the signal that mirrors
  \<^verbatim>\<open>gameOver\<close> for the template.
\<close>

record sr_state =
  sr_ship :: Ship
  sr_asteroids :: "Asteroid list"
  sr_bullets :: "RockBullet list"
  sr_particles :: "Particle list"
  sr_gameOver :: bool
  sr_paused :: bool
  sr_lastShot :: real
  sr_score :: int
  sr_lives :: int
  sr_level :: int
  sr_gameOverState :: bool
  sr_keys :: "string \<Rightarrow> bool"
  sr_width :: real
  sr_height :: real
  sr_random :: "nat \<Rightarrow> rand01"
  sr_randomCalls :: nat

definition SHIP_SIZE :: real where "SHIP_SIZE = 15"
definition SHIP_THRUST :: real where "SHIP_THRUST = 0.15"
definition SHIP_TURN_SPEED :: real where "SHIP_TURN_SPEED = 0.08"
definition FRICTION :: real where "FRICTION = 0.98"
definition BULLET_SPEED :: real where "BULLET_SPEED = 7"
definition BULLET_LIFE :: int where "BULLET_LIFE = 60"
definition SHOT_DELAY :: real where "SHOT_DELAY = 250"

definition radiusMap :: "asteroid_size \<Rightarrow> real" where
  "radiusMap s = (case s of Large \<Rightarrow> 40 | Medium \<Rightarrow> 25 | Small \<Rightarrow> 15)"

definition speedMap :: "asteroid_size \<Rightarrow> real" where
  "speedMap s = (case s of Large \<Rightarrow> 1 | Medium \<Rightarrow> 1.5 | Small \<Rightarrow> 2)"

definition scoreMap :: "asteroid_size \<Rightarrow> int" where
  "scoreMap s = (case s of Large \<Rightarrow> 20 | Medium \<Rightarrow> 50 | Small \<Rightarrow> 100)"

text \<open>
  \<^verbatim>\<open>createAsteroid(pos, size)\<close> with the random sequence \<open>rnd\<close> read from call \<open>n\<close> on: the
  heading, the speed factor, the eight outline points and the spin, eleven calls in all.
  The position is copied (\<^verbatim>\<open>{ ...pos }\<close>). The result comes with the next call number.
\<close>

definition createAsteroid :: "(nat \<Rightarrow> rand01) \<Rightarrow> nat \<Rightarrow> vec \<Rightarrow> asteroid_size \<Rightarrow> Asteroid \<times> nat" where
  "createAsteroid rnd n pos sz =
     (let angle = rval (rnd n) * pi * 2;
          speed = speedMap sz * (0.5 + rval (rnd (n + 1)) * 0.5);
          pts = map (\<lambda>i. let a = (pi * 2 * real i) / 8;
                               variation = 0.7 + rval (rnd (n + 2 + i)) * 0.3;
                               radius = radiusMap sz * variation
                           in (cos a * radius, sin a * radius)) [0..<8]
      in (\<lparr>ast_pos = pos,
           ast_vel = (cos angle * speed, sin angle * speed),
           ast_angle = 0,
           ast_rotationSpeed = (rval (rnd (n + 10)) - 0.5) * 0.05,
           ast_radius = radiusMap sz,
           ast_size = sz,
           ast_points = pts\<rparr>, n + 11))"

text \<open>\<^verbatim>\<open>this.asteroids.push(this.createAsteroid(pos, size))\<close>.\<close>

definition pushAsteroid :: "vec \<Rightarrow> asteroid_size \<Rightarrow> sr_state \<Rightarrow> sr_state" where
  "pushAsteroid pos sz st =
     (let (a, n') = createAsteroid (sr_random st) (sr_randomCalls st) pos sz
      in st\<lparr>sr_asteroids := sr_asteroids st @ [a], sr_randomCalls := n'\<rparr>)"

text \<open>\<^verbatim>\<open>createExplosion(pos, count)\<close>: \<open>count\<close> particles, one random call each.\<close>

definition createExplosion :: "vec \<Rightarrow> nat \<Rightarrow> sr_state \<Rightarrow> sr_state" where
  "createExplosion pos count st =
     st\<lparr>sr_particles := sr_particles st @
           map (\<lambda>i. let angle = (pi * 2 * real i) / real count;
                         speed = 2 + rval (sr_random st (sr_randomCalls st + i)) * 2
                     in \<lparr>pt_pos = pos, pt_vel = (cos angle * speed, sin angle * speed),
                         pt_life = 30, pt_maxLife = 30\<rparr>) [0..<count],
        sr_randomCalls := sr_randomCalls st + count\<rparr>"

text \<open>
  \<^verbatim>\<open>destroyAsteroid(index)\<close>. Outside the array \<^verbatim>\<open>this.asteroids[index]\<close> is
  \<^verbatim>\<open>undefined\<close> and reading its size throws.
\<close>

definition destroyAsteroid :: "nat \<Rightarrow> sr_state \<Rightarrow> error + sr_state" where
  "destroyAsteroid index st =
     (if index < length (sr_asteroids st) then
        (let asteroid = sr_asteroids st ! index;
             st1 = st\<lparr>sr_score := sr_score st + scoreMap (ast_size asteroid)\<rparr>;
             st2 = createExplosion (ast_pos asteroid) 8 st1;
             st3 = (case ast_size asteroid of
                      Large \<Rightarrow> pushAsteroid (ast_pos asteroid) Medium
                                 (pushAsteroid (ast_pos asteroid) Medium st2)
                    | Medium \<Rightarrow> pushAsteroid (ast_pos asteroid) Small
                                 (pushAsteroid (ast_pos asteroid) Small st2)
                    | Small \<Rightarrow> st2)
         in Inr (st3\<lparr>sr_asteroids := splice1 index (sr_asteroids st3)\<rparr>))
      else Inl TypeError)"

subsection \<open>The keyboard\<close>

text \<open>\<^verbatim>\<open>String.prototype.toLowerCase\<close> on the ASCII letters that key names are made of.\<close>

definition lowerChar :: "char \<Rightarrow> char" where
  "lowerChar c =
     (let n = (of_char c :: nat)
      in if 65 \<le> n \<and> n \<le> 90 then ''abcdefghijklmnopqrstuvwxyz'' ! (n - 65) else c)"

definition toLowerCase :: "string \<Rightarrow> string" where
  "toLowerCase s = map lowerChar s"

text \<open>\<^verbatim>\<open>shoot\<close> with the value of \<^verbatim>\<open>Date.now()\<close>.\<close>

definition shoot :: "real \<Rightarrow> sr_state \<Rightarrow> sr_state" where
  "shoot now st =
     (if sr_gameOver st \<or> sr_paused st then st
      else if now - sr_lastShot st < SHOT_DELAY then st
      else
        (let ship = sr_ship st;
             bullet = \<lparr>rb_pos = (fst (ship_pos ship) + cos (ship_angle ship) * ship_radius ship,
                                 snd (ship_pos ship) + sin (ship_angle ship) * ship_radius ship),
                       rb_vel = (cos (ship_angle ship) * BULLET_SPEED + fst (ship_vel ship),
                                 sin (ship_angle ship) * BULLET_SPEED + snd (ship_vel ship)),
                       rb_life = BULLET_LIFE\<rparr>
         in st\<lparr>sr_lastShot := now, sr_bullets := sr_bullets st @ [bullet]\<rparr>))"

subsection \<open>Movement\<close>

definition wrapPosition :: "vec \<Rightarrow> real \<Rightarrow> real \<Rightarrow> vec" where
  "wrapPosition pos width height =
     (let x1 = (if fst pos < 0 then width else fst pos);
          x2 = (if x1 > width then 0 else x1);
          y1 = (if snd pos < 0 then height else snd pos);
          y2 = (if y1 > height then 0 else y1)
      in (x2, y2))"

definition updateShip :: "sr_state \<Rightarrow> sr_state" where
  "updateShip st =
     (let ship0 = sr_ship st;
          ship1 = (if sr_keys st ''arrowleft'' \<or> sr_keys st ''a''
                   then ship0\<lparr>ship_angle := ship_angle ship0 - SHIP_TURN_SPEED\<rparr> else ship0);
          ship2 = (if sr_keys st ''arrowright'' \<or> sr_keys st ''d''
                   then ship1\<lparr>ship_angle := ship_angle ship1 + SHIP_TURN_SPEED\<rparr> else ship1);
          ship3 = ship2\<lparr>ship_thrust := (sr_keys st ''arrowup'' \<or> sr_keys st ''w'')\<rparr>;
          ship4 = (if ship_thrust ship3
                   then ship3\<lparr>ship_vel := (fst (ship_vel ship3) + cos (ship_angle ship3) * SHIP_THRUST,
                                              snd (ship_vel ship3) + sin (ship_angle ship3) * SHIP_THRUST)\<rparr>
                   else ship3);
          ship5 = ship4\<lparr>ship_vel := (fst (ship_vel ship4) * FRICTION, snd (ship_vel ship4) * FRICTION)\<rparr>;
          ship6 = ship5\<lparr>ship_pos := (fst (ship_pos ship5) + fst (ship_vel ship5),
                                      snd (ship_pos ship5) + snd (ship_vel ship5))\<rparr>
      in st\<lparr>sr_ship := ship6\<lparr>ship_pos := wrapPosition (ship_pos ship6) (sr_width st) (sr_height st)\<rparr>\<rparr>)"

definition sr_updateBullets :: "sr_state \<Rightarrow> sr_state" where
  "sr_updateBullets st =
     st\<lparr>sr_bullets :=
          filter (\<lambda>b. rb_life b > 0)
            (map (\<lambda>b. b\<lparr>rb_pos := wrapPosition (fst (rb_pos b) + fst (rb_vel b),
                                                   snd (rb_pos b) + snd (rb_vel b))
                                        (sr_width st) (sr_height st),
                          rb_life := rb_life b - 1\<rparr>)
               (sr_bullets st))\<rparr>"

definition updateAsteroids :: "sr_state \<Rightarrow> sr_state" where
  "updateAsteroids st =
     st\<lparr>sr_asteroids :=
          map (\<lambda>a. a\<lparr>ast_pos := wrapPosition (fst (ast_pos a) + fst (ast_vel a),
                                                 snd (ast_pos a) + snd (ast_vel a))
                                      (sr_width st) (sr_height st),
                        ast_angle := ast_angle a + ast_rotationSpeed a\<rparr>)
            (sr_asteroids st)\<rparr>"

definition updateParticles :: "sr_state \<Rightarrow> sr_state" where
  "updateParticles st =
     st\<lparr>sr_particles :=
          filter (\<lambda>p. pt_life p > 0)
            (map (\<lambda>p. p\<lparr>pt_pos := (fst (pt_pos p) + fst (pt_vel p), snd (pt_pos p) + snd (pt_vel p)),
                          pt_vel := (fst (pt_vel p) * 0.98, snd (pt_vel p) * 0.98),
                          pt_life := pt_life p - 1\<rparr>)
               (sr_particles st))\<rparr>"

subsection \<open>Collisions\<close>

definition checkCircleCollision :: "vec \<Rightarrow> real \<Rightarrow> vec \<Rightarrow> real \<Rightarrow> bool" where
  "checkCircleCollision pos1 r1 pos2 r2 =
     (let dx = fst pos1 - fst pos2;
          dy = snd pos1 - snd pos2;
          distance = sqrt (dx * dx + dy * dy)
      in distance < r1 + r2)"

text \<open>
  The loop \<^verbatim>\<open>for (let j = n - 1; j >= 0; j--)\<close> over the asteroids, started with \<open>n\<close> their
  number: the index of the last asteroid that touches the circle, where the loop breaks.
\<close>

fun lastTouched :: "nat \<Rightarrow> vec \<Rightarrow> real \<Rightarrow> Asteroid list \<Rightarrow> nat option" where
  "lastTouched 0 pos r asteroids = None"
| "lastTouched (Suc j) pos r asteroids =
     (if checkCircleCollision pos r (ast_pos (asteroids ! j)) (ast_radius (asteroids ! j))
      then Some j else lastTouched j pos r asteroids)"

definition destroyShip :: "sr_state \<Rightarrow> sr_state" where
  "destroyShip st =
     (let st1 = createExplosion (ship_pos (sr_ship st)) 20 st;
          st2 = st1\<lparr>sr_lives := sr_lives st1 - 1\<rparr>
      in if sr_lives st2 \<le> 0 then st2\<lparr>sr_gameOver := True, sr_gameOverState := True\<rparr>
         else st2\<lparr>sr_ship := (sr_ship st2)
                     \<lparr>ship_pos := (sr_width st2 / 2, sr_height st2 / 2),
                      ship_vel := (0, 0),
                      ship_angle := - pi / 2\<rparr>\<rparr>)"

text \<open>
  The bullets are visited from the last to the first; a bullet that touches an asteroid
  destroys it and is spliced out. The recursion is over the bullets still to be visited
  and returns the visited bullets that stay, in that order.
\<close>

fun bulletsVsAsteroids :: "RockBullet list \<Rightarrow> sr_state \<Rightarrow> error + (RockBullet list \<times> sr_state)" where
  "bulletsVsAsteroids [] st = Inr ([], st)"
| "bulletsVsAsteroids (bullet # earlier) st =
     (case lastTouched (length (sr_asteroids st)) (rb_pos bullet) 2 (sr_asteroids st) of
        None \<Rightarrow>
          (case bulletsVsAsteroids earlier st of
             Inl e \<Rightarrow> Inl e
           | Inr (kept, st') \<Rightarrow> Inr (bullet # kept, st'))
      | Some j \<Rightarrow>
          (case destroyAsteroid j st of
             Inl e \<Rightarrow> Inl e
           | Inr st1 \<Rightarrow> bulletsVsAsteroids earlier st1))"

definition shipVsAsteroids :: "sr_state \<Rightarrow> error + sr_state" where
  "shipVsAsteroids st =
     (case lastTouched (length (sr_asteroids st)) (ship_pos (sr_ship st)) (ship_radius (sr_ship st))
             (sr_asteroids st) of
        None \<Rightarrow> Inr st
      | Some i \<Rightarrow> destroyAsteroid i (destroyShip st))"

definition sr_checkCollisions :: "sr_state \<Rightarrow> error + sr_state" where
  "sr_checkCollisions st =
     (case bulletsVsAsteroids (rev (sr_bullets st)) st of
        Inl e \<Rightarrow> Inl e
      | Inr (kept, st1) \<Rightarrow> shipVsAsteroids (st1\<lparr>sr_bullets := rev kept\<rparr>))"

subsection \<open>New asteroids\<close>

text \<open>
  The \<^verbatim>\<open>do ... while (distance < minDistance)\<close> loop of \<^verbatim>\<open>createAsteroids\<close>: two random
  calls for each try, until the position is 150 or more away from the ship. Not
  returning is the value \<open>None\<close>, which \<open>createAsteroids\<close> reports as \<open>Diverges\<close>.
\<close>

partial_function (option) farPosition ::
    "(nat \<Rightarrow> rand01) \<Rightarrow> nat \<Rightarrow> real \<Rightarrow> real \<Rightarrow> vec \<Rightarrow> (vec \<times> nat) option" where
  "farPosition rnd n width height shipPos =
     (let pos = (rval (rnd n) * width, rval (rnd (n + 1)) * height);
          distance = sqrt ((fst pos - fst shipPos)\<^sup>2 + (snd pos - snd shipPos)\<^sup>2)
      in if distance < 150 then farPosition rnd (n + 2) width height shipPos
         else Some (pos, n + 2))"

fun createAsteroids :: "nat \<Rightarrow> sr_state \<Rightarrow> error + sr_state" where
  "createAsteroids 0 st = Inr st"
| "createAsteroids (Suc k) st =
     (case farPosition (sr_random st) (sr_randomCalls st) (sr_width st) (sr_height st)
             (ship_pos (sr_ship st)) of
        None \<Rightarrow> Inl Diverges
      | Some (pos, n) \<Rightarrow> createAsteroids k (pushAsteroid pos Large (st\<lparr>sr_randomCalls := n\<rparr>)))"

definition sr_initGame :: "sr_state \<Rightarrow> error + sr_state" where
  "sr_initGame st =
     createAsteroids 4
       (st\<lparr>sr_ship := \<lparr>ship_pos = (sr_width st / 2, sr_height st / 2), ship_vel = (0, 0),
                       ship_angle = - pi / 2, ship_thrust = False, ship_radius = SHIP_SIZE\<rparr>,
           sr_asteroids := [], sr_bullets := [], sr_particles := [],
           sr_gameOver := False, sr_score := 0, sr_lives := 3, sr_level := 1,
           sr_gameOverState := False\<rparr>)"

subsection \<open>The frame loop and events\<close>

definition sr_update :: "sr_state \<Rightarrow> error + sr_state" where
  "sr_update st =
     (case sr_checkCollisions (updateParticles (updateAsteroids (sr_updateBullets (updateShip st)))) of
        Inl e \<Rightarrow> Inl e
      | Inr st1 \<Rightarrow>
          if length (sr_asteroids st1) = 0 \<and> \<not> sr_gameOver st1 then
            (let st2 = st1\<lparr>sr_level := sr_level st1 + 1\<rparr>
             in createAsteroids (nat (4 + sr_level st2)) st2)
          else Inr st1)"

definition sr_gameLoop :: "sr_state \<Rightarrow> error + sr_state" where
  "sr_gameLoop st = (if \<not> sr_paused st \<and> \<not> sr_gameOver st then sr_update st else Inr st)"

text \<open>\<^verbatim>\<open>handleKeyDown\<close> with the value of \<^verbatim>\<open>Date.now()\<close>; Escape only leaves the game.\<close>

definition sr_handleKeyDown :: "string \<Rightarrow> real \<Rightarrow> sr_state \<Rightarrow> error + sr_state" where
  "sr_handleKeyDown key now st =
     (let st1 = st\<lparr>sr_keys := (sr_keys st)(toLowerCase key := True)\<rparr>;
          st2 = (if key = '' '' \<or> key = ''Spacebar'' then shoot now st1 else st1)
      in case (if toLowerCase key = ''r'' \<and> sr_gameOver st2 then sr_initGame st2 else Inr st2) of
           Inl e \<Rightarrow> Inl e
         | Inr st3 \<Rightarrow>
             Inr (if toLowerCase key = ''p'' then st3\<lparr>sr_paused := \<not> sr_paused st3\<rparr> else st3))"

definition sr_handleKeyUp :: "string \<Rightarrow> sr_state \<Rightarrow> sr_state" where
  "sr_handleKeyUp key st = st\<lparr>sr_keys := (sr_keys st)(toLowerCase key := False)\<rparr>"

definition sr_handleResize :: "real \<Rightarrow> real \<Rightarrow> sr_state \<Rightarrow> sr_state" where
  "sr_handleResize width height st = st\<lparr>sr_width := width, sr_height := height\<rparr>"

datatype sr_event = SrFrame | SrKeyDown string real | SrKeyUp string | SrResize real real

fun sr_step :: "sr_event \<Rightarrow> sr_state \<Rightarrow> error + sr_state" where
  "sr_step SrFrame st = sr_gameLoop st"
| "sr_step (SrKeyDown key now) st = sr_handleKeyDown key now st"
| "sr_step (SrKeyUp key) st = Inr (sr_handleKeyUp key st)"
| "sr_step (SrResize width height) st = Inr (sr_handleResize width height st)"

fun sr_restarts :: "sr_event \<Rightarrow> sr_state \<Rightarrow> bool" where
  "sr_restarts (SrKeyDown key now) st = (toLowerCase key = ''r'' \<and> sr_gameOver st)"
| "sr_restarts e st = False"

section \<open>The invaders game (AlienInvadersComponent)\<close>

text \<open>
  The interfaces \<^verbatim>\<open>Invader\<close>, \<^verbatim>\<open>Bullet\<close> and \<^verbatim>\<open>Barrier\<close> extend \<^verbatim>\<open>GameObject\<close>; so do
  the records. The player and the mother ship are the intersection types of the class.
\<close>

record GameObject =
  obj_x :: real
  obj_y :: real
  obj_width :: real
  obj_height :: real
  obj_active :: bool

record Invader = GameObject +
  inv_type :: int
  inv_animFrame :: nat

record Bullet = GameObject +
  bul_speed :: real

record Barrier = GameObject +
  bar_health :: int

record Player = GameObject +
  pl_speed :: real

record MotherShip = GameObject +
  ms_direction :: real
  ms_points :: int

text \<open>
  The fields of the component. \<open>iv_keys\<close> is the set of keys whose entry in
  \<^verbatim>\<open>this.keys\<close> is \<^verbatim>\<open>true\<close>; \<open>iv_canvasWidth\<close> and \<open>iv_canvasHeight\<close> are the size of
  the canvas, which exists whenever the loop runs.
\<close>

record iv_state =
  iv_score :: int
  iv_lives :: int
  iv_level :: int
  iv_gameOver :: bool
  iv_paused :: bool
  iv_player :: Player
  iv_invaders :: "Invader list"
  iv_invaderDirection :: real
  iv_invaderSpeed :: real
  iv_baseInvaderSpeed :: real
  iv_invaderDropAmount :: real
  iv_animationCounter :: real
  iv_animationSpeed :: real
  iv_baseAnimationSpeed :: real
  iv_motherShip :: MotherShip
  iv_playerBullets :: "Bullet list"
  iv_invaderBullets :: "Bullet list"
  iv_barriers :: "Barrier list"
  iv_keys :: "string \<Rightarrow> bool"
  iv_lastTime :: real
  iv_invaderShootTimer :: real
  iv_motherShipTimer :: real
  iv_scale :: real
  iv_barrierLeftBoundary :: real
  iv_barrierRightBoundary :: real
  iv_canvasWidth :: real
  iv_canvasHeight :: real
  iv_random :: "nat \<Rightarrow> rand01"
  iv_randomCalls :: nat

definition checkCollision :: "'a GameObject_scheme \<Rightarrow> 'b GameObject_scheme \<Rightarrow> bool" where
  "checkCollision obj1 obj2 =
     (obj_x obj1 < obj_x obj2 + obj_width obj2 \<and>
      obj_x obj1 + obj_width obj1 > obj_x obj2 \<and>
      obj_y obj1 < obj_y obj2 + obj_height obj2 \<and>
      obj_y obj1 + obj_height obj1 > obj_y obj2)"

subsection \<open>updateInvaders\<close>

text \<open>
  The first loop of a movement tick: \<^verbatim>\<open>shouldDrop\<close> becomes true, and the loop breaks, at
  the first active invader whose next step reaches a boundary.
\<close>

fun shouldDrop :: "iv_state \<Rightarrow> Invader list \<Rightarrow> bool" where
  "shouldDrop st [] = False"
| "shouldDrop st (invader # rest) =
     (if \<not> obj_active invader then shouldDrop st rest
      else
        (let nextX = obj_x invader + iv_invaderDirection st * iv_invaderSpeed st * iv_scale st
         in if nextX \<le> iv_barrierLeftBoundary st
               \<or> nextX + obj_width invader \<ge> iv_barrierRightBoundary st
            then True
            else shouldDrop st rest))"

text \<open>
  The second loop, run when \<^verbatim>\<open>shouldDrop\<close> holds: every active invader moves down, and
  one that reaches the player's row ends the game. The invaders already passed are
  \<open>visited\<close>.
\<close>

fun dropInvaders :: "Invader list \<Rightarrow> Invader list \<Rightarrow> iv_state \<Rightarrow> iv_state" where
  "dropInvaders visited [] st = st\<lparr>iv_invaders := visited\<rparr>"
| "dropInvaders visited (invader # rest) st =
     (if obj_active invader then
        (let invader' = invader\<lparr>obj_y := obj_y invader + iv_invaderDropAmount st * iv_scale st\<rparr>;
             st' = (if obj_y invader' + obj_height invader' \<ge> obj_y (iv_player st)
                    then st\<lparr>iv_gameOver := True\<rparr> else st)
         in dropInvaders (visited @ [invader']) rest st')
      else dropInvaders (visited @ [invader]) rest st)"

text \<open>The third loop: every active invader steps sideways and changes its frame.\<close>

definition moveInvader :: "iv_state \<Rightarrow> Invader \<Rightarrow> Invader" where
  "moveInvader st invader =
     (if obj_active invader
      then invader\<lparr>obj_x := obj_x invader + iv_invaderDirection st * iv_invaderSpeed st * iv_scale st,
                   inv_animFrame := (inv_animFrame invader + 1) mod 2\<rparr>
      else invader)"

definition updateInvaders :: "real \<Rightarrow> iv_state \<Rightarrow> iv_state" where
  "updateInvaders deltaTime st =
     (let st1 = st\<lparr>iv_animationCounter := iv_animationCounter st + deltaTime\<rparr> in
      if iv_animationCounter st1 > iv_animationSpeed st1 then
        (let st2 = st1\<lparr>iv_animationCounter := 0\<rparr>;
             st3 = (if shouldDrop st2 (iv_invaders st2)
                    then dropInvaders [] (iv_invaders st2)
                           (st2\<lparr>iv_invaderDirection := iv_invaderDirection st2 * (-1)\<rparr>)
                    else st2)
         in st3\<lparr>iv_invaders := map (moveInvader st3) (iv_invaders st3)\<rparr>)
      else st1)"

subsection \<open>The mother ship and the bullets\<close>

definition iv_nextRandom :: "iv_state \<Rightarrow> rand01 \<times> iv_state" where
  "iv_nextRandom st =
     (iv_random st (iv_randomCalls st), st\<lparr>iv_randomCalls := iv_randomCalls st + 1\<rparr>)"

definition motherShipPoints :: "int list" where
  "motherShipPoints = [50, 100, 150, 300]"

text \<open>
  The spawn test \<^verbatim>\<open>!active && timer > 15000 && Math.random() < 0.01\<close> calls
  \<^verbatim>\<open>Math.random\<close> only when the first two conjuncts hold; a spawn makes two more calls.
\<close>

definition spawnMotherShip :: "iv_state \<Rightarrow> iv_state" where
  "spawnMotherShip st =
     (if \<not> obj_active (iv_motherShip st) \<and> iv_motherShipTimer st > 15000 then
        (let (r1, st1) = iv_nextRandom st in
         if rval r1 < 0.01 then
           (let (r2, st2) = iv_nextRandom st1;
                (r3, st3) = iv_nextRandom st2;
                direction = (if rval r2 < 0.5 then 1 else -1)
            in st3\<lparr>iv_motherShip := (iv_motherShip st3)
                     \<lparr>obj_active := True,
                      ms_direction := direction,
                      obj_x := (if direction > 0 then -50 * iv_scale st3
                                else iv_canvasWidth st3 + 50 * iv_scale st3),
                      obj_y := 30 * iv_scale st3,
                      ms_points := motherShipPoints ! randomIndex r3 4\<rparr>,
                   iv_motherShipTimer := 0\<rparr>)
         else st1)
      else st)"

definition moveMotherShip :: "iv_state \<Rightarrow> iv_state" where
  "moveMotherShip st =
     (if obj_active (iv_motherShip st) then
        (let ms = (iv_motherShip st)
                    \<lparr>obj_x := obj_x (iv_motherShip st) + ms_direction (iv_motherShip st) * 2 * iv_scale st\<rparr>
         in st\<lparr>iv_motherShip :=
                 (if obj_x ms < -100 * iv_scale st \<or> obj_x ms > iv_canvasWidth st + 100 * iv_scale st
                  then ms\<lparr>obj_active := False\<rparr> else ms)\<rparr>)
      else st)"

definition updateMotherShip :: "real \<Rightarrow> iv_state \<Rightarrow> iv_state" where
  "updateMotherShip deltaTime st =
     moveMotherShip (spawnMotherShip (st\<lparr>iv_motherShipTimer := iv_motherShipTimer st + deltaTime\<rparr>))"

text \<open>
  Both loops of \<^verbatim>\<open>updateBullets\<close> run from the last bullet to the first, move the bullet
  and splice it out once it has left the canvas; the bullets that stay keep their order.
\<close>

definition updateBullets :: "iv_state \<Rightarrow> iv_state" where
  "updateBullets st =
     st\<lparr>iv_playerBullets :=
          filter (\<lambda>b. \<not> obj_y b < 0)
            (map (\<lambda>b. b\<lparr>obj_y := obj_y b - bul_speed b\<rparr>) (iv_playerBullets st)),
        iv_invaderBullets :=
          filter (\<lambda>b. \<not> obj_y b > iv_canvasHeight st)
            (map (\<lambda>b. b\<lparr>obj_y := obj_y b + bul_speed b\<rparr>) (iv_invaderBullets st))\<rparr>"

definition shootPlayerBullet :: "iv_state \<Rightarrow> iv_state" where
  "shootPlayerBullet st =
     (if length (iv_playerBullets st) < 1 then
        st\<lparr>iv_playerBullets := iv_playerBullets st @
              [\<lparr>obj_x = obj_x (iv_player st) + obj_width (iv_player st) / 2 - 1 * iv_scale st,
                obj_y = obj_y (iv_player st),
                obj_width = 2 * iv_scale st,
                obj_height = 8 * iv_scale st,
                obj_active = True,
                bul_speed = 6 * iv_scale st\<rparr>]\<rparr>
      else st)"

subsection \<open>checkCollisions\<close>

text \<open>
  The inner loop \<^verbatim>\<open>for (const target of targets)\<close> of a bullet: the index of the first
  target, in storage order, that is active and overlaps the bullet, where the loop breaks.
\<close>

fun firstHit :: "'a GameObject_scheme \<Rightarrow> 'b GameObject_scheme list \<Rightarrow> nat option" where
  "firstHit bullet [] = None"
| "firstHit bullet (target # rest) =
     (if obj_active target \<and> checkCollision bullet target then Some 0
      else map_option Suc (firstHit bullet rest))"

text \<open>\<^verbatim>\<open>[10, 20, 40][invaderType] || 10\<close>.\<close>

definition addScore :: "int \<Rightarrow> iv_state \<Rightarrow> iv_state" where
  "addScore invaderType st =
     (let table = [10, 20, 40];
          pts = (if 0 \<le> invaderType \<and> nat invaderType < length table
                 then table ! nat invaderType else 10)
      in st\<lparr>iv_score := iv_score st + pts\<rparr>)"

definition increaseInvaderSpeed :: "iv_state \<Rightarrow> iv_state" where
  "increaseInvaderSpeed st =
     st\<lparr>iv_invaderSpeed := iv_invaderSpeed st + 0.5,
        iv_animationSpeed := max 300 (iv_animationSpeed st - 10)\<rparr>"

text \<open>
  The outer loops run \<^verbatim>\<open>for (let i = bullets.length - 1; i >= 0; i--)\<close> and splice the
  bullet at \<open>i\<close> out on a hit, so \<^verbatim>\<open>bullets[i]\<close> always exists. Each loop is a recursion
  over the bullets still to be visited, the last inserted first; it returns the visited
  bullets that stay, in that order, and the state.
\<close>

fun bulletsVsInvaders :: "Bullet list \<Rightarrow> iv_state \<Rightarrow> Bullet list \<times> iv_state" where
  "bulletsVsInvaders [] st = ([], st)"
| "bulletsVsInvaders (bullet # earlier) st =
     (case firstHit bullet (iv_invaders st) of
        None \<Rightarrow> (let (kept, st') = bulletsVsInvaders earlier st in (bullet # kept, st'))
      | Some j \<Rightarrow>
          (let invader = iv_invaders st ! j;
               st1 = st\<lparr>iv_invaders := (iv_invaders st)[j := invader\<lparr>obj_active := False\<rparr>]\<rparr>
           in bulletsVsInvaders earlier (increaseInvaderSpeed (addScore (inv_type invader) st1))))"

text \<open>The mother ship loop has no inner loop: its \<^verbatim>\<open>break\<close> ends the loop over the bullets.\<close>

fun bulletsVsMotherShip :: "Bullet list \<Rightarrow> iv_state \<Rightarrow> Bullet list \<times> iv_state" where
  "bulletsVsMotherShip [] st = ([], st)"
| "bulletsVsMotherShip (bullet # earlier) st =
     (if obj_active (iv_motherShip st) \<and> checkCollision bullet (iv_motherShip st) then
        (earlier, st\<lparr>iv_motherShip := (iv_motherShip st)\<lparr>obj_active := False\<rparr>,
                     iv_score := iv_score st + ms_points (iv_motherShip st)\<rparr>)
      else (let (kept, st') = bulletsVsMotherShip earlier st in (bullet # kept, st')))"

definition hitBarrier :: "Barrier \<Rightarrow> Barrier" where
  "hitBarrier barrier =
     (let b = barrier\<lparr>bar_health := bar_health barrier - 1\<rparr>
      in if bar_health b \<le> 0 then b\<lparr>obj_active := False\<rparr> else b)"

fun bulletsVsBarriers :: "Bullet list \<Rightarrow> Barrier list \<Rightarrow> Bullet list \<times> Barrier list" where
  "bulletsVsBarriers [] barriers = ([], barriers)"
| "bulletsVsBarriers (bullet # earlier) barriers =
     (case firstHit bullet barriers of
        None \<Rightarrow> (let (kept, barriers') = bulletsVsBarriers earlier barriers in (bullet # kept, barriers'))
      | Some j \<Rightarrow> bulletsVsBarriers earlier (barriers[j := hitBarrier (barriers ! j)]))"

fun bulletsVsPlayer :: "Bullet list \<Rightarrow> iv_state \<Rightarrow> Bullet list \<times> iv_state" where
  "bulletsVsPlayer [] st = ([], st)"
| "bulletsVsPlayer (bullet # earlier) st =
     (if checkCollision bullet (iv_player st) then
        (let st1 = st\<lparr>iv_lives := iv_lives st - 1\<rparr>
         in (earlier, if iv_lives st1 \<le> 0 then st1\<lparr>iv_gameOver := True\<rparr> else st1))
      else (let (kept, st') = bulletsVsPlayer earlier st in (bullet # kept, st')))"

definition checkCollisions :: "iv_state \<Rightarrow> iv_state" where
  "checkCollisions st =
     (let (kept1, st1) = bulletsVsInvaders (rev (iv_playerBullets st)) st;
          st1 = st1\<lparr>iv_playerBullets := rev kept1\<rparr>;
          (kept2, st2) = bulletsVsMotherShip (rev (iv_playerBullets st1)) st1;
          st2 = st2\<lparr>iv_playerBullets := rev kept2\<rparr>;
          (kept3, barriers3) = bulletsVsBarriers (rev (iv_playerBullets st2)) (iv_barriers st2);
          st3 = st2\<lparr>iv_playerBullets := rev kept3, iv_barriers := barriers3\<rparr>;
          (kept4, st4) = bulletsVsPlayer (rev (iv_invaderBullets st3)) st3;
          st4 = st4\<lparr>iv_invaderBullets := rev kept4\<rparr>;
          (kept5, barriers5) = bulletsVsBarriers (rev (iv_invaderBullets st4)) (iv_barriers st4)
      in st4\<lparr>iv_invaderBullets := rev kept5, iv_barriers := barriers5\<rparr>)"

subsection \<open>Invader fire\<close>

text \<open>
  \<^verbatim>\<open>getBottomInvaders\<close> fills an object keyed by \<^verbatim>\<open>Math.floor(invader.x / 40)\<close>. The
  object is an association list in insertion order; \<^verbatim>\<open>Object.values\<close> lists the entries
  with a non-negative integer key first, by ascending key, then the others as inserted.
\<close>

fun columnsPut :: "int \<Rightarrow> Invader \<Rightarrow> (int \<times> Invader) list \<Rightarrow> (int \<times> Invader) list" where
  "columnsPut col invader [] = [(col, invader)]"
| "columnsPut col invader ((k, cur) # rest) =
     (if k = col then (k, if obj_y invader > obj_y cur then invader else cur) # rest
      else (k, cur) # columnsPut col invader rest)"

definition objectValues :: "(int \<times> 'a) list \<Rightarrow> 'a list" where
  "objectValues columns =
     map snd (sort_key fst (filter (\<lambda>(k, v). k \<ge> 0) columns) @ filter (\<lambda>(k, v). k < 0) columns)"

definition getBottomInvaders :: "Invader list \<Rightarrow> Invader list" where
  "getBottomInvaders invaders =
     objectValues
       (fold (\<lambda>invader columns.
                if \<not> obj_active invader then columns
                else columnsPut \<lfloor>obj_x invader / 40\<rfloor> invader columns)
          invaders [])"

definition invaderShoot :: "iv_state \<Rightarrow> iv_state" where
  "invaderShoot st =
     (let activeInvaders = filter obj_active (iv_invaders st) in
      if length activeInvaders = 0 then st
      else
        (let bottomInvaders = getBottomInvaders (iv_invaders st) in
         if length bottomInvaders > 0 then
           (let (r, st1) = iv_nextRandom st;
                shooter = bottomInvaders ! randomIndex r (length bottomInvaders)
            in st1\<lparr>iv_invaderBullets := iv_invaderBullets st1 @
                     [\<lparr>obj_x = obj_x shooter + obj_width shooter / 2,
                       obj_y = obj_y shooter + obj_height shooter,
                       obj_width = 2 * iv_scale st1,
                       obj_height = 8 * iv_scale st1,
                       obj_active = True,
                       bul_speed = 3 * iv_scale st1\<rparr>]\<rparr>)
         else st))"

subsection \<open>Levels and the start of a game\<close>

definition createInvaders :: "iv_state \<Rightarrow> iv_state" where
  "createInvaders st =
     (let startX = 180 * iv_scale st;
          startY = 80 * iv_scale st;
          spacingX = 50 * iv_scale st;
          spacingY = 40 * iv_scale st
      in st\<lparr>iv_invaders :=
           concat (map (\<lambda>row. map (\<lambda>col.
             \<lparr>obj_x = startX + real col * spacingX,
              obj_y = startY + real row * spacingY,
              obj_width = 36 * iv_scale st,
              obj_height = 24 * iv_scale st,
              obj_active = True,
              inv_type = (if row = 0 then 2 else if row \<le> 2 then 1 else 0),
              inv_animFrame = 0\<rparr>) [0..<11]) [0..<5])\<rparr>)"

definition createBarriers :: "iv_state \<Rightarrow> iv_state" where
  "createBarriers st =
     (let barrierY = iv_canvasHeight st - 120 * iv_scale st;
          barrierWidth = 60 * iv_scale st;
          spacing = (iv_canvasWidth st - barrierWidth * 4) / 5
      in st\<lparr>iv_barrierLeftBoundary := 160 * iv_scale st,
            iv_barrierRightBoundary := iv_canvasWidth st - 160 * iv_scale st,
            iv_barriers :=
              concat (map (\<lambda>i.
                let x = spacing + real i * (barrierWidth + spacing) in
                concat (map (\<lambda>row. map (\<lambda>col.
                  \<lparr>obj_x = x + real col * 10 * iv_scale st,
                   obj_y = barrierY + real row * 10 * iv_scale st,
                   obj_width = 10 * iv_scale st,
                   obj_height = 10 * iv_scale st,
                   obj_active = True,
                   bar_health = 3\<rparr>) [0..<6]) [0..<4])) [0..<4])\<rparr>)"

definition nextLevel :: "iv_state \<Rightarrow> iv_state" where
  "nextLevel st =
     (let st1 = createInvaders (st\<lparr>iv_level := iv_level st + 1\<rparr>);
          st2 = st1\<lparr>iv_invaderSpeed := iv_invaderSpeed st1 + 0.5,
                    iv_animationSpeed := max 10 (iv_animationSpeed st1 - 2)\<rparr>
      in st2\<lparr>iv_invaderSpeed := iv_baseInvaderSpeed st2 + (real_of_int (iv_level st2) - 1) * 0.5,
             iv_animationSpeed :=
               max 10 (iv_baseAnimationSpeed st2 - (real_of_int (iv_level st2) - 1) * 2)\<rparr>)"

definition iv_initGame :: "iv_state \<Rightarrow> iv_state" where
  "iv_initGame st =
     (let width = 52 * iv_scale st;
          st1 = st\<lparr>iv_player := (iv_player st)
                     \<lparr>obj_width := width,
                      obj_height := 32 * iv_scale st,
                      pl_speed := 3 * iv_scale st,
                      obj_x := iv_canvasWidth st / 2 - width / 2,
                      obj_y := iv_canvasHeight st - 60 * iv_scale st\<rparr>,
                   iv_motherShip := (iv_motherShip st)
                     \<lparr>obj_width := 48 * iv_scale st, obj_height := 24 * iv_scale st\<rparr>,
                   iv_score := 0, iv_lives := 3, iv_level := 1,
                   iv_invaderSpeed := iv_baseInvaderSpeed st,
                   iv_animationSpeed := iv_baseAnimationSpeed st\<rparr>;
          st2 = createBarriers (createInvaders st1)
      in st2\<lparr>iv_playerBullets := [], iv_invaderBullets := [],
             iv_motherShip := (iv_motherShip st2)\<lparr>obj_active := False\<rparr>\<rparr>)"

subsection \<open>The frame loop and the keyboard\<close>

definition movePlayer :: "iv_state \<Rightarrow> iv_state" where
  "movePlayer st =
     (let st1 = (if iv_keys st ''ArrowLeft'' \<or> iv_keys st ''a''
                 then st\<lparr>iv_player := (iv_player st)
                          \<lparr>obj_x := max 0 (obj_x (iv_player st) - pl_speed (iv_player st))\<rparr>\<rparr>
                 else st)
      in if iv_keys st1 ''ArrowRight'' \<or> iv_keys st1 ''d''
         then st1\<lparr>iv_player := (iv_player st1)
                   \<lparr>obj_x := min (iv_canvasWidth st1 - obj_width (iv_player st1))
                                 (obj_x (iv_player st1) + pl_speed (iv_player st1))\<rparr>\<rparr>
         else st1)"

definition iv_update :: "real \<Rightarrow> iv_state \<Rightarrow> iv_state" where
  "iv_update deltaTime st =
     (let st1 = movePlayer st;
          st2 = updateInvaders deltaTime st1;
          st3 = updateMotherShip deltaTime st2;
          st4 = updateBullets st3;
          st5 = checkCollisions st4;
          st6 = st5\<lparr>iv_invaderShootTimer := iv_invaderShootTimer st5 + deltaTime\<rparr>;
          st7 = (if iv_invaderShootTimer st6 > 1000
                 then (invaderShoot st6)\<lparr>iv_invaderShootTimer := 0\<rparr> else st6)
      in if list_all (\<lambda>inv. \<not> obj_active inv) (iv_invaders st7) then nextLevel st7 else st7)"

text \<open>One call of \<^verbatim>\<open>gameLoop(timestamp)\<close>; \<^verbatim>\<open>render\<close> changes no field.\<close>

definition iv_gameLoop :: "real \<Rightarrow> iv_state \<Rightarrow> iv_state" where
  "iv_gameLoop timestamp st =
     (let deltaTime = timestamp - iv_lastTime st;
          st1 = st\<lparr>iv_lastTime := timestamp\<rparr>
      in if \<not> iv_paused st1 \<and> \<not> iv_gameOver st1 then iv_update deltaTime st1 else st1)"

definition iv_handleKeyDown :: "string \<Rightarrow> iv_state \<Rightarrow> iv_state" where
  "iv_handleKeyDown key st =
     (let st1 = st\<lparr>iv_keys := (iv_keys st)(key := True)\<rparr>;
          st2 = (if key = '' '' \<and> \<not> iv_gameOver st1 \<and> \<not> iv_paused st1
                 then shootPlayerBullet st1 else st1);
          st3 = (if key = ''p'' \<or> key = ''P'' then st2\<lparr>iv_paused := \<not> iv_paused st2\<rparr> else st2)
      in if (key = ''r'' \<or> key = ''R'') \<and> iv_gameOver st3
         then (iv_initGame st3)\<lparr>iv_gameOver := False\<rparr> else st3)"

definition iv_handleKeyUp :: "string \<Rightarrow> iv_state \<Rightarrow> iv_state" where
  "iv_handleKeyUp key st = st\<lparr>iv_keys := (iv_keys st)(key := False)\<rparr>"

definition iv_togglePause :: "iv_state \<Rightarrow> iv_state" where
  "iv_togglePause st = st\<lparr>iv_paused := \<not> iv_paused st\<rparr>"

definition iv_restart :: "iv_state \<Rightarrow> iv_state" where
  "iv_restart st = (iv_initGame st)\<lparr>iv_gameOver := False\<rparr>"

text \<open>
  The component as its field initialisers and \<^verbatim>\<open>resizeCanvas\<close> leave it, for a canvas of
  the given size, before \<^verbatim>\<open>initGame\<close>.
\<close>

definition iv_new :: "(nat \<Rightarrow> rand01) \<Rightarrow> real \<Rightarrow> real \<Rightarrow> iv_state" where
  "iv_new rnd width height =
     \<lparr>iv_score = 0, iv_lives = 3, iv_level = 1, iv_gameOver = False, iv_paused = False,
      iv_player = \<lparr>obj_x = 0, obj_y = 0, obj_width = 26, obj_height = 16, obj_active = True,
                    pl_speed = 3\<rparr>,
      iv_invaders = [],
      iv_invaderDirection = 1, iv_invaderSpeed = 12, iv_baseInvaderSpeed = 12,
      iv_invaderDropAmount = 16,
      iv_animationCounter = 0, iv_animationSpeed = 1000, iv_baseAnimationSpeed = 1000,
      iv_motherShip = \<lparr>obj_x = -50, obj_y = 30, obj_width = 32, obj_height = 14,
                        obj_active = False, ms_direction = 1, ms_points = 0\<rparr>,
      iv_playerBullets = [], iv_invaderBullets = [], iv_barriers = [],
      iv_keys = (\<lambda>k. False),
      iv_lastTime = 0, iv_invaderShootTimer = 0, iv_motherShipTimer = 0,
      iv_scale = min (width / 800) (height / 600),
      iv_barrierLeftBoundary = 0, iv_barrierRightBoundary = 800,
      iv_canvasWidth = width, iv_canvasHeight = height,
      iv_random = rnd, iv_randomCalls = 0\<rparr>"

subsection \<open>Events\<close>

text \<open>
  What can happen to a running game: an animation frame with its timestamp, a key going
  down or up, and the two buttons of the template (\<^verbatim>\<open>togglePause\<close> and \<^verbatim>\<open>restart\<close>).
\<close>

datatype iv_event = IvFrame real | IvKeyDown string | IvKeyUp string | IvTogglePause | IvRestart

fun iv_step :: "iv_event \<Rightarrow> iv_state \<Rightarrow> iv_state" where
  "iv_step (IvFrame timestamp) st = iv_gameLoop timestamp st"
| "iv_step (IvKeyDown key) st = iv_handleKeyDown key st"
| "iv_step (IvKeyUp key) st = iv_handleKeyUp key st"
| "iv_step IvTogglePause st = iv_togglePause st"
| "iv_step IvRestart st = iv_restart st"

fun iv_run :: "iv_event list \<Rightarrow> iv_state \<Rightarrow> iv_state" where
  "iv_run [] st = st"
| "iv_run (e # es) st = iv_run es (iv_step e st)"

text \<open>The events that call \<^verbatim>\<open>initGame\<close> and so begin a new session.\<close>

fun iv_restarts :: "iv_event \<Rightarrow> iv_state \<Rightarrow> bool" where
  "iv_restarts IvRestart st = True"
| "iv_restarts (IvKeyDown key) st = ((key = ''r'' \<or> key = ''R'') \<and> iv_gameOver st)"
| "iv_restarts e st = False"

fun iv_session :: "iv_event list \<Rightarrow> iv_state \<Rightarrow> bool" where
  "iv_session [] st = True"
| "iv_session (e # es) st = (\<not> iv_restarts e st \<and> iv_session es (iv_step e st))"

section \<open>The snake game (snake-game.component.ts)\<close>

subsection \<open>Strings of integers\<close>

text \<open>
  The high score is stored as the text of \<^verbatim>\<open>Number.prototype.toString\<close> and read back with
  \<^verbatim>\<open>parseInt(saved, 10)\<close>. Scores are integers and are modelled as \<^typ>\<open>int\<close>; a value
  that is \<^verbatim>\<open>NaN\<close> is \<open>None\<close>. \<^verbatim>\<open>parseInt\<close> skips leading white space (here the ASCII
  white space characters), reads an optional sign and the longest run of decimal digits,
  and gives \<^verbatim>\<open>NaN\<close> when there is no digit.
\<close>

text \<open>The character of a decimal digit \<open>d < 10\<close>.\<close>

definition digitChar :: "nat \<Rightarrow> char" where
  "digitChar d = ''0123456789'' ! d"

fun digits :: "nat \<Rightarrow> string" where
  "digits n = (if n < 10 then [digitChar n] else digits (n div 10) @ [digitChar (n mod 10)])"

declare digits.simps [simp del]

definition toStringInt :: "int \<Rightarrow> string" where
  "toStringInt n = (if n < 0 then CHR ''-'' # digits (nat (- n)) else digits (nat n))"

definition isDigit :: "char \<Rightarrow> bool" where
  "isDigit c = (48 \<le> (of_char c :: nat) \<and> (of_char c :: nat) \<le> 57)"

definition isWhiteSpace :: "char \<Rightarrow> bool" where
  "isWhiteSpace c = ((of_char c :: nat) \<in> {9, 10, 11, 12, 13, 32})"

definition digitsValue :: "string \<Rightarrow> nat" where
  "digitsValue s = fold (\<lambda>c acc. 10 * acc + ((of_char c :: nat) - 48)) s 0"

definition parseDigits :: "string \<Rightarrow> nat option" where
  "parseDigits s =
     (let ds = takeWhile isDigit s in if ds = [] then None else Some (digitsValue ds))"

definition parseInt :: "string \<Rightarrow> int option" where
  "parseInt s =
     (case dropWhile isWhiteSpace s of
        [] \<Rightarrow> None
      | c # rest \<Rightarrow>
          if c = CHR ''-'' then map_option (\<lambda>n. - int n) (parseDigits rest)
          else if c = CHR ''+'' then map_option int (parseDigits rest)
          else map_option int (parseDigits (c # rest)))"

subsection \<open>The game state\<close>

datatype Direction = UP | DOWN | LEFT | RIGHT

datatype GameState = READY | PLAYING | PAUSED | GAME_OVER

type_synonym point = "int \<times> int"

text \<open>
  \<open>sn_interval\<close> tells whether \<^verbatim>\<open>this.gameLoop\<close> holds the handle of a running interval.
  \<open>sn_storage\<close> is \<^verbatim>\<open>localStorage\<close> and \<open>sn_storageReads\<close> counts the calls of
  \<^verbatim>\<open>localStorage.getItem\<close> made so far.
\<close>

record sn_state =
  sn_gameState :: GameState
  sn_score :: int
  sn_highScore :: "int option"
  sn_cols :: int
  sn_rows :: int
  sn_snake :: "point list"
  sn_direction :: Direction
  sn_nextDirection :: Direction
  sn_apple :: point
  sn_interval :: bool
  sn_currentSpeed :: int
  sn_storage :: "string \<rightharpoonup> string"
  sn_storageReads :: nat
  sn_random :: "nat \<Rightarrow> rand01"
  sn_randomCalls :: nat

definition GRID_SIZE :: int where "GRID_SIZE = 20"
definition INITIAL_SPEED :: int where "INITIAL_SPEED = 150"
definition SPEED_INCREMENT :: int where "SPEED_INCREMENT = 5"
definition MIN_SPEED :: int where "MIN_SPEED = 50"

definition highScoreKey :: string where
  "highScoreKey = ''snakeHighScore''"

subsection \<open>The stored high score\<close>

text \<open>
  \<^verbatim>\<open>loadHighScore\<close>: one call of \<^verbatim>\<open>getItem\<close>; a missing or empty item leaves the high
  score as it is.
\<close>

definition loadHighScore :: "sn_state \<Rightarrow> sn_state" where
  "loadHighScore st =
     (let saved = sn_storage st highScoreKey;
          st1 = st\<lparr>sn_storageReads := sn_storageReads st + 1\<rparr>
      in case saved of
           None \<Rightarrow> st1
         | Some s \<Rightarrow> if s = [] then st1 else st1\<lparr>sn_highScore := parseInt s\<rparr>)"

text \<open>\<^verbatim>\<open>saveHighScore\<close>; a high score that is \<^verbatim>\<open>NaN\<close> is written as the text \<open>NaN\<close>.\<close>

definition saveHighScore :: "sn_state \<Rightarrow> sn_state" where
  "saveHighScore st =
     st\<lparr>sn_storage := (sn_storage st)
           (highScoreKey \<mapsto> (case sn_highScore st of None \<Rightarrow> ''NaN'' | Some h \<Rightarrow> toStringInt h))\<rparr>"

definition stopGame :: "sn_state \<Rightarrow> sn_state" where
  "stopGame st = (if sn_interval st then st\<lparr>sn_interval := False\<rparr> else st)"

text \<open>\<^verbatim>\<open>this.score() > this.highScore()\<close> is false when the high score is \<^verbatim>\<open>NaN\<close>.\<close>

definition endGame :: "sn_state \<Rightarrow> sn_state" where
  "endGame st =
     (let st1 = (stopGame st)\<lparr>sn_gameState := GAME_OVER\<rparr>
      in case sn_highScore st1 of
           None \<Rightarrow> st1
         | Some h \<Rightarrow>
             if sn_score st1 > h
             then saveHighScore (st1\<lparr>sn_highScore := Some (sn_score st1)\<rparr>)
             else st1)"

subsection \<open>The apple\<close>

text \<open>
  \<^verbatim>\<open>spawnApple\<close> draws cells until one is off the snake: two random calls for each try. The
  loop need not end (no cell may be free), so not returning is the value \<open>None\<close>, which
  \<open>spawnApple\<close> reports as \<open>Diverges\<close>.
\<close>

partial_function (option) spawnApple_loop ::
    "(nat \<Rightarrow> rand01) \<Rightarrow> nat \<Rightarrow> int \<Rightarrow> int \<Rightarrow> point list \<Rightarrow> (point \<times> nat) option" where
  "spawnApple_loop rnd n cols rows snake =
     (let newApple = (\<lfloor>rval (rnd n) * real_of_int cols\<rfloor>, \<lfloor>rval (rnd (n + 1)) * real_of_int rows\<rfloor>)
      in if newApple \<in> set snake then spawnApple_loop rnd (n + 2) cols rows snake
         else Some (newApple, n + 2))"

definition spawnApple :: "sn_state \<Rightarrow> error + sn_state" where
  "spawnApple st =
     (case spawnApple_loop (sn_random st) (sn_randomCalls st) (sn_cols st) (sn_rows st) (sn_snake st) of
        None \<Rightarrow> Inl Diverges
      | Some (newApple, n) \<Rightarrow> Inr (st\<lparr>sn_apple := newApple, sn_randomCalls := n\<rparr>))"

subsection \<open>Starting, pausing and the timer tick\<close>

definition sn_initGame :: "sn_state \<Rightarrow> error + sn_state" where
  "sn_initGame st =
     (let centerX = sn_cols st div 2;
          centerY = sn_rows st div 2;
          st1 = st\<lparr>sn_snake := [(centerX, centerY), (centerX - 1, centerY), (centerX - 2, centerY)],
                    sn_direction := RIGHT, sn_nextDirection := RIGHT,
                    sn_currentSpeed := INITIAL_SPEED, sn_score := 0\<rparr>
      in case spawnApple st1 of
           Inl e \<Rightarrow> Inl e
         | Inr st2 \<Rightarrow> Inr (st2\<lparr>sn_gameState := READY\<rparr>))"

definition startGame :: "sn_state \<Rightarrow> sn_state" where
  "startGame st = st\<lparr>sn_gameState := PLAYING, sn_interval := True\<rparr>"

definition pauseGame :: "sn_state \<Rightarrow> sn_state" where
  "pauseGame st =
     (if sn_gameState st = PLAYING then (stopGame st)\<lparr>sn_gameState := PAUSED\<rparr> else st)"

definition resumeGame :: "sn_state \<Rightarrow> sn_state" where
  "resumeGame st =
     (if sn_gameState st = PAUSED then st\<lparr>sn_gameState := PLAYING, sn_interval := True\<rparr> else st)"

definition restartGame :: "sn_state \<Rightarrow> error + sn_state" where
  "restartGame st =
     (case sn_initGame (stopGame st) of
        Inl e \<Rightarrow> Inl e
      | Inr st1 \<Rightarrow> Inr (startGame st1))"

text \<open>
  \<^verbatim>\<open>update\<close>, the callback of the interval. \<^verbatim>\<open>this.snake[0]\<close> of an empty snake is
  \<^verbatim>\<open>undefined\<close> and reading its coordinates throws.
\<close>

definition sn_update :: "sn_state \<Rightarrow> error + sn_state" where
  "sn_update st =
     (let st1 = st\<lparr>sn_direction := sn_nextDirection st\<rparr> in
      case sn_snake st1 of
        [] \<Rightarrow> Inl TypeError
      | (hx, hy) # body \<Rightarrow>
          (let newHead = (case sn_direction st1 of
                            UP \<Rightarrow> (hx, hy - 1)
                          | DOWN \<Rightarrow> (hx, hy + 1)
                          | LEFT \<Rightarrow> (hx - 1, hy)
                          | RIGHT \<Rightarrow> (hx + 1, hy))
           in if fst newHead < 0 \<or> fst newHead \<ge> sn_cols st1 \<or>
                 snd newHead < 0 \<or> snd newHead \<ge> sn_rows st1
              then Inr (endGame st1)
              else if newHead \<in> set (sn_snake st1) then Inr (endGame st1)
              else
                (let st2 = st1\<lparr>sn_snake := newHead # sn_snake st1\<rparr> in
                 if newHead = sn_apple st2 then
                   (case spawnApple (st2\<lparr>sn_score := sn_score st2 + 10\<rparr>) of
                      Inl e \<Rightarrow> Inl e
                    | Inr st3 \<Rightarrow>
                        Inr (if sn_currentSpeed st3 > MIN_SPEED
                             then (stopGame
                                     (st3\<lparr>sn_currentSpeed :=
                                            max MIN_SPEED (sn_currentSpeed st3 - SPEED_INCREMENT)\<rparr>))
                                  \<lparr>sn_interval := True\<rparr>
                             else st3))
                 else Inr (st2\<lparr>sn_snake := butlast (sn_snake st2)\<rparr>))))"

subsection \<open>The window and the keyboard\<close>

definition calculateGridDimensions :: "real \<Rightarrow> real \<Rightarrow> sn_state \<Rightarrow> sn_state" where
  "calculateGridDimensions width height st =
     st\<lparr>sn_cols := \<lfloor>width / real_of_int GRID_SIZE\<rfloor>, sn_rows := \<lfloor>height / real_of_int GRID_SIZE\<rfloor>\<rparr>"

definition onResize :: "real \<Rightarrow> real \<Rightarrow> sn_state \<Rightarrow> sn_state" where
  "onResize width height st =
     (let wasPlaying = (sn_gameState st = PLAYING);
          st1 = (if wasPlaying then pauseGame st else st);
          st2 = calculateGridDimensions width height st1
      in if wasPlaying then resumeGame st2 else st2)"

definition onKeyDown :: "string \<Rightarrow> sn_state \<Rightarrow> error + sn_state" where
  "onKeyDown key st =
     (let state = sn_gameState st in
      if state = READY \<and> (key = '' '' \<or> key = ''Enter'') then Inr (startGame st)
      else if state = PLAYING then
        (if key = ''ArrowUp'' \<or> key = ''w'' \<or> key = ''W'' then
           Inr (if sn_direction st \<noteq> DOWN then st\<lparr>sn_nextDirection := UP\<rparr> else st)
         else if key = ''ArrowDown'' \<or> key = ''s'' \<or> key = ''S'' then
           Inr (if sn_direction st \<noteq> UP then st\<lparr>sn_nextDirection := DOWN\<rparr> else st)
         else if key = ''ArrowLeft'' \<or> key = ''a'' \<or> key = ''A'' then
           Inr (if sn_direction st \<noteq> RIGHT then st\<lparr>sn_nextDirection := LEFT\<rparr> else st)
         else if key = ''ArrowRight'' \<or> key = ''d'' \<or> key = ''D'' then
           Inr (if sn_direction st \<noteq> LEFT then st\<lparr>sn_nextDirection := RIGHT\<rparr> else st)
         else if key = '' '' \<or> key = ''p'' \<or> key = ''P'' then Inr (pauseGame st)
         else Inr st)
      else if state = PAUSED then
        (if key = '' '' \<or> key = ''p'' \<or> key = ''P'' then Inr (resumeGame st) else Inr st)
      else if state = GAME_OVER then
        (if key = '' '' \<or> key = ''Enter'' then restartGame st else Inr st)
      else Inr st)"

subsection \<open>Start-up and events\<close>

text \<open>
  The constructor: the field initialisers, then \<^verbatim>\<open>loadHighScore\<close>. \<^verbatim>\<open>ngOnInit\<close> measures
  the window and calls \<^verbatim>\<open>initGame\<close>.
\<close>

definition sn_constructor :: "(string \<rightharpoonup> string) \<Rightarrow> (nat \<Rightarrow> rand01) \<Rightarrow> sn_state" where
  "sn_constructor storage rnd =
     loadHighScore
       \<lparr>sn_gameState = READY, sn_score = 0, sn_highScore = Some 0, sn_cols = 0, sn_rows = 0,
        sn_snake = [], sn_direction = RIGHT, sn_nextDirection = RIGHT, sn_apple = (0, 0),
        sn_interval = False, sn_currentSpeed = INITIAL_SPEED,
        sn_storage = storage, sn_storageReads = 0,
        sn_random = rnd, sn_randomCalls = 0\<rparr>"

definition sn_ngOnInit :: "real \<Rightarrow> real \<Rightarrow> sn_state \<Rightarrow> error + sn_state" where
  "sn_ngOnInit width height st = sn_initGame (calculateGridDimensions width height st)"

text \<open>
  What can happen to the component after start-up: a key going down, a tick of the
  interval (which fires only while the interval runs), and a resize of the window.
\<close>

datatype sn_event = SnKeyDown string | SnTick | SnResize real real

fun sn_step :: "sn_event \<Rightarrow> sn_state \<Rightarrow> error + sn_state" where
  "sn_step (SnKeyDown key) st = onKeyDown key st"
| "sn_step SnTick st = (if sn_interval st then sn_update st else Inr st)"
| "sn_step (SnResize width height) st = Inr (onResize width height st)"

fun sn_run :: "sn_event list \<Rightarrow> sn_state \<Rightarrow> error + sn_state" where
  "sn_run [] st = Inr st"
| "sn_run (e # es) st =
     (case sn_step e st of
        Inl err \<Rightarrow> Inl err
      | Inr st' \<Rightarrow> sn_run es st')"

text \<open>The event that calls \<^verbatim>\<open>initGame\<close> and so begins a new session.\<close>

fun sn_restarts :: "sn_event \<Rightarrow> sn_state \<Rightarrow> bool" where
  "sn_restarts (SnKeyDown key) st = (sn_gameState st = GAME_OVER \<and> (key = '' '' \<or> key = ''Enter''))"
| "sn_restarts e st = False"

text \<open>
  The high score that \<^verbatim>\<open>loadHighScore\<close> reads from a storage: the parsed item, and the
  initial \<open>0\<close> when the item is missing or empty.
\<close>

definition storedHighScore :: "(string \<rightharpoonup> string) \<Rightarrow> int option" where
  "storedHighScore storage =
     (case storage highScoreKey of
        None \<Rightarrow> Some 0
      | Some s \<Rightarrow> if s = [] then Some 0 else parseInt s)"

section \<open>The frog-crossing game (HopperComponent)\<close>

record HopperObject =
  hop_x :: real
  hop_y :: real
  hop_width :: real
  hop_height :: real
  hop_speed :: real

record HopperSnake = HopperObject +
  hsn_logIndex :: nat
  hsn_direction :: real
  hsn_localX :: real

record Alligator =
  al_goalIndex :: int
  al_isActive :: bool
  al_timer :: real
  al_activeTime :: real
  al_inactiveTime :: real

record FemaleFrog =
  ff_goalIndex :: int
  ff_isActive :: bool
  ff_timer :: real
  ff_duration :: real

record hp_state =
  hp_frog :: HopperObject
  hp_cars :: "HopperObject list"
  hp_logs :: "HopperObject list"
  hp_turtles :: "HopperObject list"
  hp_snakes :: "HopperSnake list"
  hp_alligators :: "Alligator list"
  hp_femaleFrog :: "FemaleFrog option"
  hp_score :: int
  hp_lives :: int
  hp_gameOver :: bool
  hp_won :: bool
  hp_level :: int
  hp_goals :: "bool list"
  hp_random :: "nat \<Rightarrow> rand01"
  hp_randomCalls :: nat

definition CANVAS_WIDTH :: real where "CANVAS_WIDTH = 896"
definition CELL_SIZE :: real where "CELL_SIZE = 32"
definition FROG_SIZE :: real where "FROG_SIZE = 24"

definition resetFrog :: "hp_state \<Rightarrow> hp_state" where
  "resetFrog st = st\<lparr>hp_frog := (hp_frog st)\<lparr>hop_x := 14 * CELL_SIZE, hop_y := 14 * CELL_SIZE\<rparr>\<rparr>"

definition hp_nextRandom :: "hp_state \<Rightarrow> rand01 \<times> hp_state" where
  "hp_nextRandom st =
     (hp_random st (hp_randomCalls st), st\<lparr>hp_randomCalls := hp_randomCalls st + 1\<rparr>)"

subsection \<open>createObstacles\<close>

text \<open>An obstacle in lane \<open>row\<close>, 24 high.\<close>

definition lane :: "real \<Rightarrow> real \<Rightarrow> real \<Rightarrow> real \<Rightarrow> HopperObject" where
  "lane x row width speed =
     \<lparr>hop_x = x, hop_y = row * CELL_SIZE, hop_width = width, hop_height = 24, hop_speed = speed\<rparr>"

text \<open>The alligators of a level, each with a timer of \<^verbatim>\<open>Math.random() * 180 + 60\<close>.\<close>

fun pushAlligators :: "int list \<Rightarrow> hp_state \<Rightarrow> hp_state" where
  "pushAlligators [] st = st"
| "pushAlligators (goalIndex # rest) st =
     (let (r, st1) = hp_nextRandom st
      in pushAlligators rest
           (st1\<lparr>hp_alligators := hp_alligators st1 @
                  [\<lparr>al_goalIndex = goalIndex, al_isActive = False, al_timer = rval r * 180 + 60,
                    al_activeTime = 120, al_inactiveTime = 180\<rparr>]\<rparr>))"

definition spawnFemaleFrog :: "hp_state \<Rightarrow> hp_state" where
  "spawnFemaleFrog st =
     (let st0 = st\<lparr>hp_femaleFrog := None\<rparr> in
      if hp_level st0 \<ge> 2 then
        (let (r1, st1) = hp_nextRandom st0 in
         if rval r1 < 0.3 then
           (let emptyGoals = filter (\<lambda>i. \<not> (i < length (hp_goals st1) \<and> hp_goals st1 ! i)) [0..<5] in
            if length emptyGoals > 0 then
              (let (r2, st2) = hp_nextRandom st1;
                   randomGoal = emptyGoals ! randomIndex r2 (length emptyGoals)
               in st2\<lparr>hp_femaleFrog :=
                        Some \<lparr>ff_goalIndex = int randomGoal, ff_isActive = True,
                              ff_timer = 600, ff_duration = 600\<rparr>\<rparr>)
            else st1)
         else st1)
      else st0)"

definition createObstacles :: "hp_state \<Rightarrow> hp_state" where
  "createObstacles st =
     (let speedMultiplier = 0.3 + (real_of_int (hp_level st) - 1) * 0.15;
          st1 = st\<lparr>
            hp_cars :=
              [lane 0 8 48 (2 * speedMultiplier), lane 200 8 48 (2 * speedMultiplier),
               lane 400 8 48 (2 * speedMultiplier), lane 600 8 48 (2 * speedMultiplier),
               lane 0 9 40 (-1.5 * speedMultiplier), lane 250 9 40 (-1.5 * speedMultiplier),
               lane 500 9 40 (-1.5 * speedMultiplier), lane 750 9 40 (-1.5 * speedMultiplier),
               lane 0 10 56 (3 * speedMultiplier), lane 300 10 56 (3 * speedMultiplier),
               lane 600 10 56 (3 * speedMultiplier),
               lane 0 11 40 (-2.5 * speedMultiplier), lane 220 11 40 (-2.5 * speedMultiplier),
               lane 440 11 40 (-2.5 * speedMultiplier), lane 660 11 40 (-2.5 * speedMultiplier),
               lane 0 12 48 (1.5 * speedMultiplier), lane 250 12 48 (1.5 * speedMultiplier),
               lane 500 12 48 (1.5 * speedMultiplier), lane 750 12 48 (1.5 * speedMultiplier)],
            hp_logs :=
              [lane 0 2 128 (1.5 * speedMultiplier), lane 300 2 128 (1.5 * speedMultiplier),
               lane 600 2 128 (1.5 * speedMultiplier),
               lane 0 3 160 (-2 * speedMultiplier), lane 350 3 160 (-2 * speedMultiplier),
               lane 700 3 160 (-2 * speedMultiplier),
               lane 0 5 96 (2.5 * speedMultiplier), lane 250 5 96 (2.5 * speedMultiplier),
               lane 500 5 96 (2.5 * speedMultiplier), lane 750 5 96 (2.5 * speedMultiplier)],
            hp_turtles :=
              [lane 0 4 72 (-1 * speedMultiplier), lane 220 4 72 (-1 * speedMultiplier),
               lane 440 4 72 (-1 * speedMultiplier), lane 660 4 72 (-1 * speedMultiplier),
               lane 0 6 80 (1.8 * speedMultiplier), lane 250 6 80 (1.8 * speedMultiplier),
               lane 500 6 80 (1.8 * speedMultiplier), lane 750 6 80 (1.8 * speedMultiplier)],
            hp_snakes :=
              (if hp_level st \<ge> 2
               then [\<lparr>hop_x = 0, hop_y = 2 * CELL_SIZE, hop_width = 32, hop_height = 20, hop_speed = 0.8,
                      hsn_logIndex = 1, hsn_direction = 1, hsn_localX = 20\<rparr>] else []) @
              (if hp_level st \<ge> 3
               then [\<lparr>hop_x = 0, hop_y = 3 * CELL_SIZE, hop_width = 32, hop_height = 20, hop_speed = 0.8,
                      hsn_logIndex = 4, hsn_direction = -1, hsn_localX = 80\<rparr>] else []) @
              (if hp_level st \<ge> 5
               then [\<lparr>hop_x = 0, hop_y = 5 * CELL_SIZE, hop_width = 32, hop_height = 20, hop_speed = 0.8,
                      hsn_logIndex = 7, hsn_direction = 1, hsn_localX = 30\<rparr>] else []),
            hp_alligators := []\<rparr>;
          st2 = (if hp_level st1 \<ge> 3
                 then pushAlligators
                        (if hp_level st1 \<ge> 6 then [0, 2, 4]
                         else if hp_level st1 \<ge> 4 then [1, 3] else [2]) st1
                 else st1)
      in spawnFemaleFrog st2)"

subsection \<open>update\<close>

definition moveLane :: "HopperObject \<Rightarrow> HopperObject" where
  "moveLane obj =
     (let o1 = obj\<lparr>hop_x := hop_x obj + hop_speed obj\<rparr>;
          o2 = (if hop_speed o1 > 0 \<and> hop_x o1 > CANVAS_WIDTH then o1\<lparr>hop_x := - hop_width o1\<rparr> else o1)
      in if hop_speed o2 < 0 \<and> hop_x o2 < - hop_width o2 then o2\<lparr>hop_x := CANVAS_WIDTH\<rparr> else o2)"

text \<open>
  A snake rides the log \<^verbatim>\<open>this.logs[snake.logIndex]\<close>; without such a log reading its
  width throws.
\<close>

definition moveSnake :: "HopperObject list \<Rightarrow> HopperSnake \<Rightarrow> error + HopperSnake" where
  "moveSnake logs snake =
     (if hsn_logIndex snake < length logs then
        (let log = logs ! hsn_logIndex snake;
             s1 = snake\<lparr>hsn_localX := hsn_localX snake + hop_speed snake * hsn_direction snake\<rparr>;
             s2 = (if hsn_localX s1 \<le> 0 \<or> hsn_localX s1 \<ge> hop_width log - hop_width s1
                   then s1\<lparr>hsn_direction := hsn_direction s1 * (-1),
                           hsn_localX := max 0 (min (hop_width log - hop_width s1) (hsn_localX s1))\<rparr>
                   else s1)
         in Inr (s2\<lparr>hop_x := hop_x log + hsn_localX s2, hop_y := hop_y log, hop_speed := hop_speed log\<rparr>))
      else Inl TypeError)"

fun moveSnakes :: "HopperObject list \<Rightarrow> HopperSnake list \<Rightarrow> error + HopperSnake list" where
  "moveSnakes logs [] = Inr []"
| "moveSnakes logs (snake # rest) =
     (case moveSnake logs snake of
        Inl e \<Rightarrow> Inl e
      | Inr snake' \<Rightarrow>
          (case moveSnakes logs rest of
             Inl e \<Rightarrow> Inl e
           | Inr rest' \<Rightarrow> Inr (snake' # rest')))"

definition tickAlligator :: "Alligator \<Rightarrow> Alligator" where
  "tickAlligator gator =
     (let g1 = gator\<lparr>al_timer := al_timer gator - 1\<rparr>
      in if al_timer g1 \<le> 0 then
           (let g2 = g1\<lparr>al_isActive := \<not> al_isActive g1\<rparr>
            in g2\<lparr>al_timer := (if al_isActive g2 then al_activeTime g2 else al_inactiveTime g2)\<rparr>)
         else g1)"

definition tickFemaleFrog :: "FemaleFrog option \<Rightarrow> FemaleFrog option" where
  "tickFemaleFrog ff =
     (case ff of
        None \<Rightarrow> None
      | Some f \<Rightarrow>
          (let f1 = f\<lparr>ff_timer := ff_timer f - 1\<rparr>
           in if ff_timer f1 \<le> 0 then None else Some f1))"

subsection \<open>checkCollisions\<close>

definition checkOverlap :: "'a HopperObject_scheme \<Rightarrow> 'b HopperObject_scheme \<Rightarrow> bool" where
  "checkOverlap a b =
     (hop_x a < hop_x b + hop_width b \<and> hop_x a + hop_width a > hop_x b \<and>
      hop_y a < hop_y b + hop_height b \<and> hop_y a + hop_height a > hop_y b)"

definition loseLife :: "hp_state \<Rightarrow> hp_state" where
  "loseLife st =
     (let st1 = st\<lparr>hp_lives := hp_lives st - 1\<rparr>
      in if hp_lives st1 \<le> 0 then st1\<lparr>hp_gameOver := True\<rparr> else resetFrog st1)"

text \<open>
  The frog in a goal that no active alligator holds. \<open>hp_goals\<close> always has five entries
  (the class only ever assigns five-entry arrays to it), so the write is inside the array;
  a write past the end would extend it.
\<close>

definition enterGoal :: "int \<Rightarrow> hp_state \<Rightarrow> hp_state" where
  "enterGoal goalIndex st =
     (let gi = nat goalIndex;
          bonus = (case hp_femaleFrog st of
                     Some ff \<Rightarrow> ff_goalIndex ff = goalIndex \<and> ff_isActive ff
                   | None \<Rightarrow> False);
          bonusPoints = (if bonus then 500 else 0);
          st1 = (if bonus then st\<lparr>hp_femaleFrog := None\<rparr> else st)
      in if \<not> (gi < length (hp_goals st1) \<and> hp_goals st1 ! gi) then
           (let goals' = (if gi < length (hp_goals st1) then (hp_goals st1)[gi := True]
                          else hp_goals st1 @ replicate (gi - length (hp_goals st1)) False @ [True]);
                st2 = resetFrog (st1\<lparr>hp_goals := goals', hp_score := hp_score st1 + (100 + bonusPoints)\<rparr>)
            in if list_all (\<lambda>g. g) (hp_goals st2) then
                 resetFrog (createObstacles
                   (st2\<lparr>hp_level := hp_level st2 + 1,
                        hp_goals := [False, False, False, False, False]\<rparr>))
               else st2)
         else loseLife st1)"

text \<open>The frog in row 1: a goal, an alligator, or the bank between the goals.\<close>

definition reachGoalRow :: "hp_state \<Rightarrow> hp_state" where
  "reachGoalRow st =
     (let goalIndex = \<lfloor>(hop_x (hp_frog st) + FROG_SIZE / 2) / (CANVAS_WIDTH / 5)\<rfloor>;
          goalX = real_of_int goalIndex * (CANVAS_WIDTH / 5) + 60;
          goalWidth = 80
      in if goalIndex \<ge> 0 \<and> goalIndex < 5 \<and> hop_x (hp_frog st) + FROG_SIZE > goalX
            \<and> hop_x (hp_frog st) < goalX + goalWidth
         then
           (case find (\<lambda>g. al_goalIndex g = goalIndex) (hp_alligators st) of
              Some alligator \<Rightarrow>
                if al_isActive alligator then loseLife st else enterGoal goalIndex st
            | None \<Rightarrow> enterGoal goalIndex st)
         else loseLife st)"

text \<open>
  The frog on the river: every log or turtle under the frog carries it along (and the
  next overlap is tested at the new place). The result is the state with the flag
  \<^verbatim>\<open>onPlatform\<close>.
\<close>

fun ridePlatforms :: "HopperObject list \<Rightarrow> bool \<Rightarrow> hp_state \<Rightarrow> bool \<times> hp_state" where
  "ridePlatforms [] onPlatform st = (onPlatform, st)"
| "ridePlatforms (platform # rest) onPlatform st =
     (if checkOverlap (hp_frog st) platform
      then ridePlatforms rest True
             (st\<lparr>hp_frog := (hp_frog st)\<lparr>hop_x := hop_x (hp_frog st) + hop_speed platform\<rparr>\<rparr>)
      else ridePlatforms rest onPlatform st)"

text \<open>\<^verbatim>\<open>forEach(o => { if (this.checkOverlap(this.frog, o)) this.loseLife(); })\<close>.\<close>

fun hitEach :: "'a HopperObject_scheme list \<Rightarrow> hp_state \<Rightarrow> hp_state" where
  "hitEach [] st = st"
| "hitEach (obj # rest) st =
     hitEach rest (if checkOverlap (hp_frog st) obj then loseLife st else st)"

definition hp_checkCollisions :: "hp_state \<Rightarrow> hp_state" where
  "hp_checkCollisions st =
     (let frogRow = \<lfloor>hop_y (hp_frog st) / CELL_SIZE\<rfloor> in
      if frogRow = 1 then reachGoalRow st
      else if frogRow \<ge> 2 \<and> frogRow \<le> 6 then
        (let (onPlatform, st1) = ridePlatforms (hp_logs st @ hp_turtles st) False st
         in if \<not> onPlatform \<or> hop_x (hp_frog st1) < 0
               \<or> hop_x (hp_frog st1) > CANVAS_WIDTH - FROG_SIZE
            then loseLife st1
            else hitEach (hp_snakes st1) st1)
      else if frogRow \<ge> 8 \<and> frogRow \<le> 12 then hitEach (hp_cars st) st
      else st)"

definition hp_update :: "hp_state \<Rightarrow> error + hp_state" where
  "hp_update st =
     (if hp_gameOver st \<or> hp_won st then Inr st
      else
        (let st1 = st\<lparr>hp_cars := map moveLane (hp_cars st),
                       hp_logs := map moveLane (hp_logs st),
                       hp_turtles := map moveLane (hp_turtles st)\<rparr>
         in case moveSnakes (hp_logs st1) (hp_snakes st1) of
              Inl e \<Rightarrow> Inl e
            | Inr snakes' \<Rightarrow>
                Inr (hp_checkCollisions
                      (st1\<lparr>hp_snakes := snakes',
                           hp_alligators := map tickAlligator (hp_alligators st1),
                           hp_femaleFrog := tickFemaleFrog (hp_femaleFrog st1)\<rparr>))))"

subsection \<open>The keyboard and events\<close>

definition resetGame :: "hp_state \<Rightarrow> hp_state" where
  "resetGame st =
     resetFrog (createObstacles
       (st\<lparr>hp_score := 0, hp_lives := 3, hp_gameOver := False, hp_won := False, hp_level := 1,
           hp_goals := [False, False, False, False, False]\<rparr>))"

definition hp_handleKeyDown :: "string \<Rightarrow> hp_state \<Rightarrow> hp_state" where
  "hp_handleKeyDown key st =
     (let moveAmount = CELL_SIZE in
      if key = ''Enter'' then (if hp_gameOver st \<or> hp_won st then resetGame st else st)
      else if key = ''n'' \<or> key = ''N'' then
        resetFrog (createObstacles
          (st\<lparr>hp_level := hp_level st + 1, hp_goals := [False, False, False, False, False]\<rparr>))
      else if hp_gameOver st \<or> hp_won st then st
      else if key = ''ArrowUp'' \<or> key = ''w'' \<or> key = ''W'' then
        (if hop_y (hp_frog st) > CELL_SIZE
         then st\<lparr>hp_frog := (hp_frog st)\<lparr>hop_y := hop_y (hp_frog st) - moveAmount\<rparr>,
                 hp_score := hp_score st + 10\<rparr>
         else st)
      else if key = ''ArrowDown'' \<or> key = ''s'' \<or> key = ''S'' then
        (if hop_y (hp_frog st) < 14 * CELL_SIZE
         then st\<lparr>hp_frog := (hp_frog st)\<lparr>hop_y := hop_y (hp_frog st) + moveAmount\<rparr>\<rparr>
         else st)
      else if key = ''ArrowLeft'' \<or> key = ''a'' \<or> key = ''A'' then
        (if hop_x (hp_frog st) > 0
         then st\<lparr>hp_frog := (hp_frog st)\<lparr>hop_x := hop_x (hp_frog st) - moveAmount\<rparr>\<rparr>
         else st)
      else if key = ''ArrowRight'' \<or> key = ''d'' \<or> key = ''D'' then
        (if hop_x (hp_frog st) < CANVAS_WIDTH - FROG_SIZE
         then st\<lparr>hp_frog := (hp_frog st)\<lparr>hop_x := hop_x (hp_frog st) + moveAmount\<rparr>\<rparr>
         else st)
      else st)"

text \<open>The component after \<^verbatim>\<open>ngOnInit\<close>: the field initialisers, then \<^verbatim>\<open>initGame\<close>.\<close>

definition hp_new :: "(nat \<Rightarrow> rand01) \<Rightarrow> hp_state" where
  "hp_new rnd =
     createObstacles (resetFrog
       \<lparr>hp_frog = \<lparr>hop_x = 14 * CELL_SIZE, hop_y = 14 * CELL_SIZE, hop_width = FROG_SIZE,
                   hop_height = FROG_SIZE, hop_speed = 0\<rparr>,
        hp_cars = [], hp_logs = [], hp_turtles = [], hp_snakes = [], hp_alligators = [],
        hp_femaleFrog = None, hp_score = 0, hp_lives = 3, hp_gameOver = False, hp_won = False,
        hp_level = 1, hp_goals = [False, False, False, False, False],
        hp_random = rnd, hp_randomCalls = 0\<rparr>)"

datatype hp_event = HpFrame | HpKeyDown string

fun hp_step :: "hp_event \<Rightarrow> hp_state \<Rightarrow> error + hp_state" where
  "hp_step HpFrame st = hp_update st"
| "hp_step (HpKeyDown key) st = Inr (hp_handleKeyDown key st)"

fun hp_restarts :: "hp_event \<Rightarrow> hp_state \<Rightarrow> bool" where
  "hp_restarts (HpKeyDown key) st = (key = ''Enter'' \<and> (hp_gameOver st \<or> hp_won st))"
| "hp_restarts e st = False"

section \<open>The breakout game (BustoutGameComponent)\<close>

record Brick =
  br_x :: real
  br_y :: real
  br_width :: real
  br_height :: real
  br_active :: bool
  br_color :: string
  br_points :: int

record Ball =
  ball_x :: real
  ball_y :: real
  ball_dx :: real
  ball_dy :: real
  ball_radius :: real

text \<open>
  The fields of the component that change. The sizes of the paddle and of the brick
  wall, which the class never assigns after their initialisers, are constants.
\<close>

record bo_state =
  bo_gameStarted :: bool
  bo_gameOver :: bool
  bo_score :: int
  bo_lives :: int
  bo_level :: int
  bo_paddleX :: real
  bo_rightPressed :: bool
  bo_leftPressed :: bool
  bo_balls :: "Ball list"
  bo_ballSpeed :: real
  bo_bricks :: "Brick list"
  bo_brickWidth :: real
  bo_canvasWidth :: real
  bo_canvasHeight :: real
  bo_random :: "nat \<Rightarrow> rand01"
  bo_randomCalls :: nat

definition paddleWidth :: real where "paddleWidth = 80"
definition paddleHeight :: real where "paddleHeight = 12"
definition paddleSpeed :: real where "paddleSpeed = 8"
definition brickRowCount :: nat where "brickRowCount = 8"
definition brickColumnCount :: nat where "brickColumnCount = 14"
definition brickHeight :: real where "brickHeight = 20"
definition brickPadding :: real where "brickPadding = 4"
definition brickOffsetTop :: real where "brickOffsetTop = 60"
definition brickOffsetLeft :: real where "brickOffsetLeft = 4"

definition colors :: "string list" where
  "colors = [''#D85050'', ''#E06060'', ''#E88038'', ''#F0A848'',
             ''#A8C030'', ''#58B850'', ''#40A0D0'', ''#8888D8'']"

definition initBricks :: "bo_state \<Rightarrow> bo_state" where
  "initBricks st =
     st\<lparr>bo_bricks :=
          concat (map (\<lambda>row. map (\<lambda>col.
            \<lparr>br_x = real col * (bo_brickWidth st + brickPadding) + brickOffsetLeft,
             br_y = real row * (brickHeight + brickPadding) + brickOffsetTop,
             br_width = bo_brickWidth st,
             br_height = brickHeight,
             br_active = True,
             br_color = colors ! (row mod length colors),
             br_points = (int brickRowCount - int row) * 10\<rparr>)
            [0..<brickColumnCount]) [0..<brickRowCount])\<rparr>"

text \<open>A new ball; \<^verbatim>\<open>Math.random() > 0.5\<close> chooses its horizontal direction.\<close>

definition newBall :: "bo_state \<Rightarrow> Ball \<times> bo_state" where
  "newBall st =
     (let r = bo_random st (bo_randomCalls st)
      in (\<lparr>ball_x = bo_canvasWidth st / 2,
           ball_y = bo_canvasHeight st - 100,
           ball_dx = bo_ballSpeed st * (if rval r > 0.5 then 1 else -1),
           ball_dy = - bo_ballSpeed st,
           ball_radius = 6\<rparr>,
          st\<lparr>bo_randomCalls := bo_randomCalls st + 1\<rparr>))"

subsection \<open>update\<close>

definition bo_movePaddle :: "bo_state \<Rightarrow> bo_state" where
  "bo_movePaddle st =
     (let st1 = (if bo_rightPressed st \<and> bo_paddleX st < bo_canvasWidth st - paddleWidth
                 then st\<lparr>bo_paddleX := bo_paddleX st + paddleSpeed\<rparr> else st)
      in if bo_leftPressed st1 \<and> bo_paddleX st1 > 0
         then st1\<lparr>bo_paddleX := bo_paddleX st1 - paddleSpeed\<rparr> else st1)"

text \<open>The ball after its step, the walls, the top and the paddle.\<close>

definition moveBall :: "bo_state \<Rightarrow> Ball \<Rightarrow> Ball" where
  "moveBall st ball =
     (let b1 = ball\<lparr>ball_x := ball_x ball + ball_dx ball, ball_y := ball_y ball + ball_dy ball\<rparr>;
          b2 = (if ball_x b1 + ball_radius b1 > bo_canvasWidth st \<or> ball_x b1 - ball_radius b1 < 0
                then b1\<lparr>ball_dx := - ball_dx b1\<rparr> else b1);
          b3 = (if ball_y b2 - ball_radius b2 < 0 then b2\<lparr>ball_dy := - ball_dy b2\<rparr> else b2)
      in if ball_y b3 + ball_radius b3 > bo_canvasHeight st - paddleHeight - 20 \<and>
            ball_y b3 + ball_radius b3 < bo_canvasHeight st - 15 \<and>
            ball_x b3 > bo_paddleX st \<and> ball_x b3 < bo_paddleX st + paddleWidth
         then
           (let hitPos = (ball_x b3 - bo_paddleX st) / paddleWidth
            in b3\<lparr>ball_dx := (hitPos - 0.5) * bo_ballSpeed st * 2, ball_dy := - \<bar>ball_dy b3\<bar>\<rparr>)
         else b3)"

text \<open>
  The loop over the bricks of one ball: the index of the first active brick, in storage
  order, that the ball overlaps.
\<close>

fun firstBrick :: "Ball \<Rightarrow> Brick list \<Rightarrow> nat option" where
  "firstBrick ball [] = None"
| "firstBrick ball (brick # rest) =
     (if br_active brick \<and>
         ball_x ball + ball_radius ball > br_x brick \<and>
         ball_x ball - ball_radius ball < br_x brick + br_width brick \<and>
         ball_y ball + ball_radius ball > br_y brick \<and>
         ball_y ball - ball_radius ball < br_y brick + br_height brick
      then Some 0
      else map_option Suc (firstBrick ball rest))"

text \<open>
  The loop \<^verbatim>\<open>for (let i = this.balls.length - 1; i >= 0; i--)\<close>: the recursion is over the
  balls still to be visited, the last first; \<open>kept\<close> are the balls behind them in the
  array. A ball under the bottom edge is spliced out; when it was the last ball a life is
  lost and, unless the game is over, a new ball is pushed, which this loop does not visit.
\<close>

fun updateBalls :: "Ball list \<Rightarrow> Ball list \<Rightarrow> bo_state \<Rightarrow> Ball list \<times> bo_state" where
  "updateBalls [] kept st = (kept, st)"
| "updateBalls (ball # earlier) kept st =
     (let b = moveBall st ball in
      if ball_y b + ball_radius b > bo_canvasHeight st then
        (if length earlier + length kept = 0 then
           (let st1 = st\<lparr>bo_lives := bo_lives st - 1\<rparr> in
            if bo_lives st1 \<le> 0
            then updateBalls earlier kept (st1\<lparr>bo_gameOver := True, bo_gameStarted := False\<rparr>)
            else (let (nb, st2) = newBall st1 in updateBalls earlier (kept @ [nb]) st2))
         else updateBalls earlier kept st)
      else
        (case firstBrick b (bo_bricks st) of
           None \<Rightarrow> updateBalls earlier (b # kept) st
         | Some j \<Rightarrow>
             updateBalls earlier (b\<lparr>ball_dy := - ball_dy b\<rparr> # kept)
               (st\<lparr>bo_bricks := (bo_bricks st)[j := (bo_bricks st ! j)\<lparr>br_active := False\<rparr>],
                   bo_score := bo_score st + br_points (bo_bricks st ! j)\<rparr>)))"

definition bo_update :: "bo_state \<Rightarrow> bo_state" where
  "bo_update st =
     (let st1 = bo_movePaddle st;
          (balls, st2) = updateBalls (rev (bo_balls st1)) [] st1;
          st3 = st2\<lparr>bo_balls := balls\<rparr>;
          activeBricks = length (filter br_active (bo_bricks st3))
      in if activeBricks = 0 then
           (let st4 = initBricks (st3\<lparr>bo_level := bo_level st3 + 1,
                                       bo_ballSpeed := bo_ballSpeed st3 + 0.5\<rparr>);
                (nb, st5) = newBall st4
            in st5\<lparr>bo_balls := [nb]\<rparr>)
         else st3)"

subsection \<open>Starting, the keyboard, the mouse and the window\<close>

text \<open>\<^verbatim>\<open>gameLoop\<close>: \<^verbatim>\<open>update\<close>, then a drawing that changes no field.\<close>

definition bo_gameLoop :: "bo_state \<Rightarrow> bo_state" where
  "bo_gameLoop st = bo_update st"

definition bo_startGame :: "bo_state \<Rightarrow> bo_state" where
  "bo_startGame st =
     (let (nb, st1) = newBall (st\<lparr>bo_gameStarted := True, bo_gameOver := False\<rparr>)
      in bo_gameLoop (st1\<lparr>bo_balls := [nb]\<rparr>))"

definition bo_resetGame :: "bo_state \<Rightarrow> bo_state" where
  "bo_resetGame st =
     initBricks (st\<lparr>bo_score := 0, bo_lives := 5, bo_level := 1, bo_gameStarted := False,
                    bo_gameOver := False, bo_balls := []\<rparr>)"

definition bo_handleKeyDown :: "string \<Rightarrow> bo_state \<Rightarrow> bo_state" where
  "bo_handleKeyDown key st =
     (if key = ''Right'' \<or> key = ''ArrowRight'' \<or> key = ''d'' then st\<lparr>bo_rightPressed := True\<rparr>
      else if key = ''Left'' \<or> key = ''ArrowLeft'' \<or> key = ''a'' then st\<lparr>bo_leftPressed := True\<rparr>
      else if key = '' '' \<and> \<not> bo_gameStarted st then bo_startGame st
      else if key = ''r'' \<and> bo_gameOver st then bo_resetGame st
      else st)"

definition bo_handleKeyUp :: "string \<Rightarrow> bo_state \<Rightarrow> bo_state" where
  "bo_handleKeyUp key st =
     (if key = ''Right'' \<or> key = ''ArrowRight'' \<or> key = ''d'' then st\<lparr>bo_rightPressed := False\<rparr>
      else if key = ''Left'' \<or> key = ''ArrowLeft'' \<or> key = ''a'' then st\<lparr>bo_leftPressed := False\<rparr>
      else st)"

text \<open>\<^verbatim>\<open>handleMouseMove\<close> with \<open>relativeX = event.clientX - rect.left\<close>.\<close>

definition bo_handleMouseMove :: "real \<Rightarrow> bo_state \<Rightarrow> bo_state" where
  "bo_handleMouseMove relativeX st =
     (if relativeX > 0 \<and> relativeX < bo_canvasWidth st
      then st\<lparr>bo_paddleX := relativeX - paddleWidth / 2\<rparr> else st)"

text \<open>\<^verbatim>\<open>initCanvas\<close> with the size of the window.\<close>

definition initCanvas :: "real \<Rightarrow> real \<Rightarrow> bo_state \<Rightarrow> bo_state" where
  "initCanvas width height st =
     initBricks
       (st\<lparr>bo_canvasWidth := width, bo_canvasHeight := height,
           bo_paddleX := (width - paddleWidth) / 2,
           bo_brickWidth :=
             (width - brickOffsetLeft * 2 - (real brickColumnCount - 1) * brickPadding)
               / real brickColumnCount\<rparr>)"

definition bo_new :: "(nat \<Rightarrow> rand01) \<Rightarrow> real \<Rightarrow> real \<Rightarrow> bo_state" where
  "bo_new rnd width height =
     initCanvas width height
       \<lparr>bo_gameStarted = False, bo_gameOver = False, bo_score = 0, bo_lives = 5, bo_level = 1,
        bo_paddleX = 0, bo_rightPressed = False, bo_leftPressed = False, bo_balls = [],
        bo_ballSpeed = 4, bo_bricks = [], bo_brickWidth = 0,
        bo_canvasWidth = 0, bo_canvasHeight = 0, bo_random = rnd, bo_randomCalls = 0\<rparr>"

text \<open>
  An animation frame is requested at the end of \<^verbatim>\<open>gameLoop\<close> only while the game is
  started and not over, and no event in between changes that; so a frame finds the game
  running.
\<close>

datatype bo_event =
  BoFrame | BoKeyDown string | BoKeyUp string | BoMouseMove real | BoResize real real

fun bo_step :: "bo_event \<Rightarrow> bo_state \<Rightarrow> bo_state" where
  "bo_step BoFrame st = (if bo_gameStarted st \<and> \<not> bo_gameOver st then bo_gameLoop st else st)"
| "bo_step (BoKeyDown key) st = bo_handleKeyDown key st"
| "bo_step (BoKeyUp key) st = bo_handleKeyUp key st"
| "bo_step (BoMouseMove relativeX) st = bo_handleMouseMove relativeX st"
| "bo_step (BoResize width height) st = initCanvas width height st"

fun bo_restarts :: "bo_event \<Rightarrow> bo_state \<Rightarrow> bool" where
  "bo_restarts (BoKeyDown key) st = (key = ''r'' \<and> bo_gameOver st)"
| "bo_restarts e st = False"

section \<open>Sessions\<close>

text \<open>
  A run of events, for the games whose handlers can fail, and for every game the runs
  that stay within one session: no event of the run calls the game's \<^verbatim>\<open>initGame\<close> or
  \<^verbatim>\<open>resetGame\<close>. A run that fails ends there.
\<close>

fun sd_session :: "sd_event list \<Rightarrow> sd_state \<Rightarrow> bool" where
  "sd_session [] st = True"
| "sd_session (e # es) st =
     (\<not> sd_restarts e \<and> (case sd_step e st of Inl err \<Rightarrow> True | Inr st' \<Rightarrow> sd_session es st'))"

fun sn_session :: "sn_event list \<Rightarrow> sn_state \<Rightarrow> bool" where
  "sn_session [] st = True"
| "sn_session (e # es) st =
     (\<not> sn_restarts e st \<and> (case sn_step e st of Inl err \<Rightarrow> True | Inr st' \<Rightarrow> sn_session es st'))"

fun sr_run :: "sr_event list \<Rightarrow> sr_state \<Rightarrow> error + sr_state" where
  "sr_run [] st = Inr st"
| "sr_run (e # es) st =
     (case sr_step e st of
        Inl err \<Rightarrow> Inl err
      | Inr st' \<Rightarrow> sr_run es st')"

fun sr_session :: "sr_event list \<Rightarrow> sr_state \<Rightarrow> bool" where
  "sr_session [] st = True"
| "sr_session (e # es) st =
     (\<not> sr_restarts e st \<and> (case sr_step e st of Inl err \<Rightarrow> True | Inr st' \<Rightarrow> sr_session es st'))"

fun hp_run :: "hp_event list \<Rightarrow> hp_state \<Rightarrow> error + hp_state" where
  "hp_run [] st = Inr st"
| "hp_run (e # es) st =
     (case hp_step e st of
        Inl err \<Rightarrow> Inl err
      | Inr st' \<Rightarrow> hp_run es st')"

fun hp_session :: "hp_event list \<Rightarrow> hp_state \<Rightarrow> bool" where
  "hp_session [] st = True"
| "hp_session (e # es) st =
     (\<not> hp_restarts e st \<and> (case hp_step e st of Inl err \<Rightarrow> True | Inr st' \<Rightarrow> hp_session es st'))"

fun bo_run :: "bo_event list \<Rightarrow> bo_state \<Rightarrow> bo_state" where
  "bo_run [] st = st"
| "bo_run (e # es) st = bo_run es (bo_step e st)"

fun bo_session :: "bo_event list \<Rightarrow> bo_state \<Rightarrow> bool" where
  "bo_session [] st = True"
| "bo_session (e # es) st = (\<not> bo_restarts e st \<and> bo_session es (bo_step e st))"

section \<open>Properties of the falling-piece game\<close>

subsection \<open>rotatePattern in closed form\<close>

lemma fold_upt_Suc: "fold f [0..<Suc n] s = f n (fold f [0..<n] s)"
  by simp

lemma rotatePattern_row_aux:
  "n \<le> length rot \<Longrightarrow>
   fold (\<lambda>col rot. rot[col := (rot ! col)[k := g col]]) [0..<n] rot =
   map (\<lambda>i. if i < n then (rot ! i)[k := g i] else rot ! i) [0..<length rot]"
proof (induction n)
  case 0
  then show ?case by (simp add: map_nth)
next
  case (Suc n)
  then have IH: "fold (\<lambda>col rot. rot[col := (rot ! col)[k := g col]]) [0..<n] rot =
     map (\<lambda>i. if i < n then (rot ! i)[k := g i] else rot ! i) [0..<length rot]" by simp
  from Suc.prems have n: "n < length rot" by simp
  show ?case
    unfolding fold_upt_Suc IH
    by (rule nth_equalityI) (use n in \<open>auto simp: nth_list_update\<close>)
qed

lemma rotatePattern_row_eq:
  "length rot = sz \<Longrightarrow>
   rotatePattern_row p sz row rot = map (\<lambda>i. (rot ! i)[sz - 1 - row := cellAt (p ! row) i]) [0..<sz]"
  unfolding rotatePattern_row_def
  using rotatePattern_row_aux[of sz rot "sz - 1 - row" "\<lambda>col. cellAt (p ! row) col"]
  by simp

lemma rotatePattern_rows_aux:
  "m \<le> sz \<Longrightarrow>
   fold (rotatePattern_row p sz) [0..<m] (replicate sz (replicate sz (Num 0))) =
   map (\<lambda>i. map (\<lambda>j. if sz - 1 - j < m then cellAt (p ! (sz - 1 - j)) i else Num 0) [0..<sz]) [0..<sz]"
proof (induction m)
  case 0
  show ?case by (auto intro!: nth_equalityI)
next
  case (Suc m)
  then have IH: "fold (rotatePattern_row p sz) [0..<m] (replicate sz (replicate sz (Num 0))) =
   map (\<lambda>i. map (\<lambda>j. if sz - 1 - j < m then cellAt (p ! (sz - 1 - j)) i else Num 0) [0..<sz]) [0..<sz]"
    by simp
  from Suc.prems have m: "m < sz" by simp
  show ?case
    unfolding fold_upt_Suc IH
    apply (subst rotatePattern_row_eq)
     apply simp
    apply (rule nth_equalityI)
     apply simp
    apply (simp)
    apply (rule nth_equalityI)
     apply simp
    using m apply (auto simp: nth_list_update)
    done
qed

lemma rotatePattern_closed:
  "rotatePattern p =
   map (\<lambda>i. map (\<lambda>j. cellAt (p ! (length p - 1 - j)) i) [0..<length p]) [0..<length p]"
  unfolding rotatePattern_def Let_def
  by (subst rotatePattern_rows_aux) (auto intro!: nth_equalityI)

lemma rotatePattern_length: "length (rotatePattern p) = length p"
  by (simp add: rotatePattern_closed)

lemma rotatePattern_square: "square n p \<Longrightarrow> square n (rotatePattern p)"
  by (auto simp: square_def rotatePattern_closed)

lemma rotatePattern_nth:
  "square n p \<Longrightarrow> i < n \<Longrightarrow> j < n \<Longrightarrow> rotatePattern p ! i ! j = p ! (n - 1 - j) ! i"
  by (auto simp: square_def rotatePattern_closed cellAt_def)

lemma square_eqI:
  "square n p \<Longrightarrow> square n q \<Longrightarrow> (\<And>i j. i < n \<Longrightarrow> j < n \<Longrightarrow> p ! i ! j = q ! i ! j) \<Longrightarrow> p = q"
  by (auto simp: square_def intro!: nth_equalityI)

lemma rotatePattern_twice_nth:
  assumes s: "square n p" and i: "i < n" and j: "j < n"
  shows "rotatePattern (rotatePattern p) ! i ! j = p ! (n - 1 - i) ! (n - 1 - j)"
proof -
  have j': "n - 1 - j < n" using j by arith
  have "rotatePattern (rotatePattern p) ! i ! j = rotatePattern p ! (n - 1 - j) ! i"
    using rotatePattern_nth[OF rotatePattern_square[OF s] i j] .
  also have "\<dots> = p ! (n - 1 - i) ! (n - 1 - j)"
    using rotatePattern_nth[OF s j' i] .
  finally show ?thesis .
qed

lemma rotatePattern_four:
  assumes s: "square n p"
  shows "rotatePattern (rotatePattern (rotatePattern (rotatePattern p))) = p"
proof (rule square_eqI[of n])
  have s2: "square n (rotatePattern (rotatePattern p))"
    using s by (intro rotatePattern_square)
  show "square n (rotatePattern (rotatePattern (rotatePattern (rotatePattern p))))"
    using s by (intro rotatePattern_square)
  show "square n p" by fact
  fix i j assume i: "i < n" and j: "j < n"
  have i': "n - 1 - i < n" and j': "n - 1 - j < n" using i j by arith+
  have "rotatePattern (rotatePattern (rotatePattern (rotatePattern p))) ! i ! j
        = rotatePattern (rotatePattern p) ! (n - 1 - i) ! (n - 1 - j)"
    using rotatePattern_twice_nth[OF s2 i j] .
  also have "\<dots> = p ! (n - 1 - (n - 1 - i)) ! (n - 1 - (n - 1 - j))"
    using rotatePattern_twice_nth[OF s i' j'] .
  also have "\<dots> = p ! i ! j" using i j by simp
  finally show "rotatePattern (rotatePattern (rotatePattern (rotatePattern p))) ! i ! j = p ! i ! j" .
qed

text \<open>
  Claim C7. On a pattern of \<open>n\<close> rows of \<open>n\<close> cells, \<open>rotatePattern\<close> sends the cell at
  \<open>(row, col)\<close> to \<open>(col, n - 1 - row)\<close>, and four rotations give the pattern back.
\<close>

theorem rotatePattern_four_times:
  assumes "square n p"
  shows "(\<forall>row < n. \<forall>col < n. rotatePattern p ! col ! (n - 1 - row) = p ! row ! col) \<and>
         rotatePattern (rotatePattern (rotatePattern (rotatePattern p))) = p"
proof
  show "\<forall>row < n. \<forall>col < n. rotatePattern p ! col ! (n - 1 - row) = p ! row ! col"
  proof (intro allI impI)
    fix row col assume r: "row < n" and c: "col < n"
    have r': "n - 1 - row < n" using r by arith
    have "rotatePattern p ! col ! (n - 1 - row) = p ! (n - 1 - (n - 1 - row)) ! col"
      using rotatePattern_nth[OF assms c r'] .
    also have "\<dots> = p ! row ! col" using r by simp
    finally show "rotatePattern p ! col ! (n - 1 - row) = p ! row ! col" .
  qed
  show "rotatePattern (rotatePattern (rotatePattern (rotatePattern p))) = p"
    using assms by (rule rotatePattern_four)
qed

text \<open>The witness: the T piece of \<open>SHAPES\<close>, whose first rotation is computed.\<close>

theorem rotatePattern_four_times_witness:
  "length (shape_pattern (SHAPES ! 2)) = 3 \<and>
   map length (shape_pattern (SHAPES ! 2)) = [3, 3, 3] \<and>
   rotatePattern (shape_pattern (SHAPES ! 2)) =
     [[Num 0, Num 1, Num 0], [Num 0, Num 1, Num 1], [Num 0, Num 1, Num 0]] \<and>
   rotatePattern (rotatePattern (rotatePattern (rotatePattern (shape_pattern (SHAPES ! 2))))) =
     shape_pattern (SHAPES ! 2)"
proof -
  have sq: "square 3 (shape_pattern (SHAPES ! 2))"
    by (simp add: square_def SHAPES_def)
  have r: "rotatePattern (shape_pattern (SHAPES ! 2)) =
     [[Num 0, Num 1, Num 0], [Num 0, Num 1, Num 1], [Num 0, Num 1, Num 0]]"
    by (simp add: rotatePattern_def rotatePattern_row_def SHAPES_def Let_def cellAt_def upt_rec)
  show ?thesis
    using rotatePattern_four_times[OF sq] r by (simp add: SHAPES_def)
qed

subsection \<open>clearLines\<close>

lemma clearLines_loop_eq:
  "n \<le> length board \<Longrightarrow>
   clearLines_loop n board c =
     Inr (replicate (length (filter fullRow (take n board))) emptyRow
            @ filter (\<lambda>r. \<not> fullRow r) (take n board) @ drop n board,
          c + length (filter fullRow (take n board)))"
proof (induction n board c rule: clearLines_loop.induct)
  case (1 n board c)
  show ?case
  proof (cases "n = 0")
    case True
    then show ?thesis by simp
  next
    case False
    then obtain m where n: "n = Suc m" by (cases n) auto
    with "1.prems" have m: "m < length board" by simp
    have tk: "take n board = take m board @ [board ! m]"
      using m n by (simp add: take_Suc_conv_app_nth)
    show ?thesis
    proof (cases "fullRow (board ! m)")
      case True
      let ?b = "emptyRow # splice1 m board"
      have len: "n \<le> length ?b" using m n by (simp add: splice1_def)
      have tk': "take n ?b = emptyRow # take m board"
        using m n by (simp add: splice1_def)
      have dr': "drop n ?b = drop n board"
        using m n by (simp add: splice1_def)
      have "clearLines_loop n board c = clearLines_loop n ?b (c + 1)"
        using True m n by (subst clearLines_loop.simps) simp
      also have "\<dots> = Inr (replicate (length (filter fullRow (take n ?b))) emptyRow
            @ filter (\<lambda>r. \<not> fullRow r) (take n ?b) @ drop n ?b,
          c + 1 + length (filter fullRow (take n ?b)))"
        using "1.IH"(1) False True m n len by simp
      also have "\<dots> = Inr (replicate (length (filter fullRow (take n board))) emptyRow
            @ filter (\<lambda>r. \<not> fullRow r) (take n board) @ drop n board,
          c + length (filter fullRow (take n board)))"
        unfolding tk' dr' tk using True
        by (simp add: fullRow_emptyRow replicate_append_same)
      finally show ?thesis .
    next
      case F: False
      have "clearLines_loop n board c = clearLines_loop m board c"
        using F m n by (subst clearLines_loop.simps) simp
      also have "\<dots> = Inr (replicate (length (filter fullRow (take m board))) emptyRow
            @ filter (\<lambda>r. \<not> fullRow r) (take m board) @ drop m board,
          c + length (filter fullRow (take m board)))"
        using "1.IH"(2) False F m n by simp
      also have "\<dots> = Inr (replicate (length (filter fullRow (take n board))) emptyRow
            @ filter (\<lambda>r. \<not> fullRow r) (take n board) @ drop n board,
          c + length (filter fullRow (take n board)))"
        unfolding tk using F m n by (simp add: Cons_nth_drop_Suc)
      finally show ?thesis .
    qed
  qed
qed

lemma clearLines_eq:
  "length board = ROWS \<Longrightarrow>
   clearLines board =
     Inr (replicate (length (filter fullRow board)) emptyRow @ filter (\<lambda>r. \<not> fullRow r) board,
          length (filter fullRow board))"
  unfolding clearLines_def by (subst clearLines_loop_eq) simp_all

lemma filter_by_index:
  "filter P xs = map ((!) xs) (filter (\<lambda>i. P (xs ! i)) [0..<length xs])"
proof -
  have "filter P xs = filter P (map ((!) xs) [0..<length xs])" by (simp add: map_nth)
  also have "\<dots> = map ((!) xs) (filter (\<lambda>i. P (xs ! i)) [0..<length xs])"
    by (simp add: filter_map comp_def)
  finally show ?thesis .
qed

lemma upt_0_20: "[0..<20] = [0,1,2,3,4,5,6,7,8,9,10,11,12,13,14,15,16,17,18,19::nat]"
  by (simp add: upt_rec)

lemma clearLines_rows_2_5:
  assumes len: "length board = ROWS"
    and full: "\<forall>i<ROWS. fullRow (board ! i) = (i = 2 \<or> i = 5)"
  shows "clearLines board =
     Inr (emptyRow # emptyRow # map ((!) board) [0,1,3,4,6,7,8,9,10,11,12,13,14,15,16,17,18,19], 2)"
proof -
  have f1: "filter (\<lambda>i. fullRow (board ! i)) [0..<length board] = filter (\<lambda>i. i = 2 \<or> i = 5) [0..<20]"
    using len full by (intro filter_cong) (auto simp: ROWS_def)
  have f2: "filter (\<lambda>i. \<not> fullRow (board ! i)) [0..<length board] = filter (\<lambda>i. \<not> (i = 2 \<or> i = 5)) [0..<20]"
    using len full by (intro filter_cong) (auto simp: ROWS_def)
  have a: "filter fullRow board = map ((!) board) [2, 5]"
    by (subst filter_by_index) (simp add: f1 upt_0_20)
  have b: "filter (\<lambda>r. \<not> fullRow r) board = map ((!) board) [0,1,3,4,6,7,8,9,10,11,12,13,14,15,16,17,18,19]"
    by (subst filter_by_index) (simp add: f2 upt_0_20)
  show ?thesis
    unfolding clearLines_eq[OF len] a b by (simp add: numeral_2_eq_2)
qed

text \<open>
  Claim C1. On a board of \<open>ROWS\<close> rows, \<open>clearLines\<close> (the scan from the bottom row up that
  splices a full row out, unshifts an empty row and looks at the same index again) returns
  the rows that are not full in their order, under one empty row for each full row, and
  the number of full rows. When exactly rows 2 and 5 are full, the result is two empty
  rows above rows 0, 1, 3, 4, 6, ..., 19 of the board, and the count is 2.
\<close>

theorem clearLines_removes_full_rows:
  assumes "length board = ROWS"
  shows "clearLines board =
           Inr (replicate (length (filter fullRow board)) emptyRow
                  @ filter (\<lambda>r. \<not> fullRow r) board,
                length (filter fullRow board)) \<and>
         ((\<forall>i<ROWS. fullRow (board ! i) = (i = 2 \<or> i = 5)) \<longrightarrow>
          clearLines board =
            Inr (emptyRow # emptyRow #
                   map ((!) board) [0,1,3,4,6,7,8,9,10,11,12,13,14,15,16,17,18,19], 2))"
  using clearLines_eq[OF assms] clearLines_rows_2_5[OF assms] by blast

text \<open>
  The witness: rows 2 and 5 are full, every other row \<open>i\<close> holds the single block
  \<open>i + 1\<close> in its first column, so that the order of the rows that stay can be read off.
\<close>

definition board_2_5 :: board where
  "board_2_5 =
     map (\<lambda>i. if i = 2 \<or> i = 5 then replicate COLS (Num 7)
               else Num (int i + 1) # replicate 9 (Num 0)) [0..<20]"

theorem clearLines_rows_2_5_witness:
  "length board_2_5 = ROWS \<and>
   map fullRow board_2_5 =
     [False, False, True, False, False, True, False, False, False, False,
      False, False, False, False, False, False, False, False, False, False] \<and>
   clearLines board_2_5 =
     Inr (emptyRow # emptyRow #
            map (\<lambda>i. Num (int i + 1) # replicate 9 (Num 0))
              [0,1,3,4,6,7,8,9,10,11,12,13,14,15,16,17,18,19], 2)"
proof -
  have len: "length board_2_5 = ROWS" by (simp add: board_2_5_def ROWS_def)
  have nth: "\<And>i. i < 20 \<Longrightarrow> board_2_5 ! i =
      (if i = 2 \<or> i = 5 then replicate COLS (Num 7) else Num (int i + 1) # replicate 9 (Num 0))"
    by (simp add: board_2_5_def)
  have full: "\<forall>i<ROWS. fullRow (board_2_5 ! i) = (i = 2 \<or> i = 5)"
    by (simp add: ROWS_def nth fullRow_def list_all_iff COLS_def)
  have fulls: "map fullRow board_2_5 =
     [False, False, True, False, False, True, False, False, False, False,
      False, False, False, False, False, False, False, False, False, False]"
    by (simp add: board_2_5_def upt_0_20 fullRow_def list_all_iff COLS_def)
  have rows: "map ((!) board_2_5) [0,1,3,4,6,7,8,9,10,11,12,13,14,15,16,17,18,19] =
      map (\<lambda>i. Num (int i + 1) # replicate 9 (Num 0)) [0,1,3,4,6,7,8,9,10,11,12,13,14,15,16,17,18,19]"
    by (simp add: nth)
  from clearLines_removes_full_rows[OF len] full
  have "clearLines board_2_5 =
     Inr (emptyRow # emptyRow # map ((!) board_2_5) [0,1,3,4,6,7,8,9,10,11,12,13,14,15,16,17,18,19], 2)"
    by blast
  with len fulls rows show ?thesis by simp
qed

subsection \<open>rotate\<close>

lemma cellFree_total: "length board = ROWS \<Longrightarrow> \<exists>b. cellFree board newX newY = Inr b"
  by (auto simp: cellFree_def)

lemma isValidMove_cols_total:
  "length board = ROWS \<Longrightarrow> \<exists>b. isValidMove_cols board newX newY r = Inr b"
proof (induction r arbitrary: newX)
  case Nil
  then show ?case by auto
next
  case (Cons c cs)
  from cellFree_total[OF Cons.prems] obtain b where b: "cellFree board newX newY = Inr b" by blast
  from Cons.IH[OF Cons.prems] obtain b' where b': "isValidMove_cols board (newX + 1) newY cs = Inr b'"
    by blast
  show ?case by (cases b) (auto simp: b b')
qed

lemma isValidMove_total:
  "length board = ROWS \<Longrightarrow> \<exists>b. isValidMove board x y p = Inr b"
  unfolding isValidMove_def
proof (induction p arbitrary: y)
  case Nil
  then show ?case by auto
next
  case (Cons r rs)
  from isValidMove_cols_total[OF Cons.prems] obtain b where b: "isValidMove_cols board x y r = Inr b"
    by blast
  from Cons.IH[OF Cons.prems] obtain b' where b': "isValidMove_rows board x (y + 1) rs = Inr b'"
    by blast
  show ?case by (cases b) (auto simp: b b')
qed

lemma isValidMove_not_True:
  "length board = ROWS \<Longrightarrow> isValidMove board x y p \<noteq> Inr True \<Longrightarrow> isValidMove board x y p = Inr False"
  using isValidMove_total[of board x y p] by auto

text \<open>
  Claim C2. With a current piece on a board of \<open>ROWS\<close> rows, \<open>rotate\<close> places the rotated
  pattern at the first of the offsets \<open>(0, 0)\<close>, \<open>(-1, 0)\<close>, \<open>(1, 0)\<close>, \<open>(-2, 0)\<close>,
  \<open>(2, 0)\<close>, \<open>(0, -1)\<close> at which \<open>isValidMove\<close> accepts it, changing the pattern and the
  position together, and leaves the state as it is when none is accepted.
\<close>

theorem rotate_wall_kick_order:
  assumes wf: "length (sd_board st) = ROWS"
    and piece: "sd_currentPiece st = Some piece"
  shows "rotate st = Inr
     (let rotated = rotatePattern (shape_pattern piece);
          ok = (\<lambda>dx dy. isValidMove (sd_board st) (sd_x st + dx) (sd_y st + dy) rotated = Inr True);
          placed = (\<lambda>dx dy. st\<lparr>sd_currentPiece := Some (piece\<lparr>shape_pattern := rotated\<rparr>),
                                 sd_x := sd_x st + dx, sd_y := sd_y st + dy\<rparr>)
      in if ok 0 0 then placed 0 0
         else if ok (-1) 0 then placed (-1) 0
         else if ok 1 0 then placed 1 0
         else if ok (-2) 0 then placed (-2) 0
         else if ok 2 0 then placed 2 0
         else if ok 0 (-1) then placed 0 (-1)
         else st)"
proof -
  let ?rot = "rotatePattern (shape_pattern piece)"
  have v: "\<And>x y. isValidMove (sd_board st) x y ?rot \<noteq> Inr True
      \<Longrightarrow> isValidMove (sd_board st) x y ?rot = Inr False"
    using isValidMove_not_True[OF wf] by blast
  show ?thesis
    unfolding rotate_def kicks_def Let_def using piece
    by (auto dest!: v)
qed

text \<open>
  The witness is the wall-kick scenario: an upright T piece whose cells touch the left
  wall (\<open>sd_x = -1\<close>) on an empty board. The rotation in place and the kick to the left
  leave the board; the kick to the right is accepted, and \<open>sd_x\<close> becomes \<open>0\<close>.
\<close>

definition tUpright :: pattern where
  "tUpright = [[Num 0, Num 1, Num 0], [Num 0, Num 1, Num 1], [Num 0, Num 1, Num 0]]"

definition kickState :: sd_state where
  "kickState = (sd_new (\<lambda>_. rand_zero))
     \<lparr>sd_board := replicate ROWS (replicate COLS (Num 0)),
      sd_currentPiece := Some \<lparr>shape_pattern = tUpright, shape_color = ''#ff00ff''\<rparr>,
      sd_x := -1, sd_y := 5\<rparr>"

lemma rotatePattern_tUpright:
  "rotatePattern tUpright = [[Num 0, Num 0, Num 0], [Num 1, Num 1, Num 1], [Num 0, Num 1, Num 0]]"
  by (simp add: rotatePattern_def rotatePattern_row_def tUpright_def Let_def cellAt_def upt_rec)

theorem rotate_wall_kick_witness:
  "length (sd_board kickState) = ROWS \<and>
   sd_currentPiece kickState = Some \<lparr>shape_pattern = tUpright, shape_color = ''#ff00ff''\<rparr> \<and>
   isValidMove (sd_board kickState) (-1) 5 (rotatePattern tUpright) = Inr False \<and>
   isValidMove (sd_board kickState) (-2) 5 (rotatePattern tUpright) = Inr False \<and>
   isValidMove (sd_board kickState) 0 5 (rotatePattern tUpright) = Inr True \<and>
   rotate kickState =
     Inr (kickState\<lparr>sd_currentPiece :=
                       Some \<lparr>shape_pattern = rotatePattern tUpright, shape_color = ''#ff00ff''\<rparr>,
                     sd_x := 0\<rparr>)"
proof -
  have wf: "length (sd_board kickState) = ROWS" by (simp add: kickState_def)
  have p: "sd_currentPiece kickState = Some \<lparr>shape_pattern = tUpright, shape_color = ''#ff00ff''\<rparr>"
    by (simp add: kickState_def)
  have a: "isValidMove (sd_board kickState) (-1) 5 (rotatePattern tUpright) = Inr False"
    by (simp add: rotatePattern_tUpright kickState_def isValidMove_def cellFree_def COLS_def ROWS_def)
  have b: "isValidMove (sd_board kickState) (-2) 5 (rotatePattern tUpright) = Inr False"
    by (simp add: rotatePattern_tUpright kickState_def isValidMove_def cellFree_def COLS_def ROWS_def)
  have c: "isValidMove (sd_board kickState) 0 5 (rotatePattern tUpright) = Inr True"
    by (simp add: rotatePattern_tUpright kickState_def isValidMove_def cellFree_def COLS_def ROWS_def
        cellAt_def)
  have x: "sd_x kickState = -1" "sd_y kickState = 5" by (simp_all add: kickState_def)
  show ?thesis
    using rotate_wall_kick_order[OF wf p] wf p a b c
    by (simp add: Let_def x)
qed

section \<open>Properties of the asteroids game\<close>

lemma pushAsteroid_asteroids:
  "sr_asteroids (pushAsteroid pos sz st) =
     sr_asteroids st @ [fst (createAsteroid (sr_random st) (sr_randomCalls st) pos sz)]"
  by (simp add: pushAsteroid_def split_beta)

lemma pushAsteroid_score: "sr_score (pushAsteroid pos sz st) = sr_score st"
  by (simp add: pushAsteroid_def split_beta)

lemma createAsteroid_pos_size:
  "ast_pos (fst (createAsteroid rnd n pos sz)) = pos \<and>
   ast_size (fst (createAsteroid rnd n pos sz)) = sz"
  by (simp add: createAsteroid_def Let_def)

lemma createExplosion_keeps:
  "sr_asteroids (createExplosion pos count st) = sr_asteroids st \<and>
   sr_score (createExplosion pos count st) = sr_score st"
  by (simp add: createExplosion_def)

text \<open>
  Claim C3. Destroying the asteroid at \<open>index\<close> removes it and appends its children: two
  \<open>Medium\<close> asteroids for a \<open>Large\<close> one, two \<open>Small\<close> for a \<open>Medium\<close> one, none for a
  \<open>Small\<close> one, every child at the parent's position; the score grows by the parent's
  tier, and the tier of \<open>Small\<close> is the highest of the three.
\<close>

theorem destroyAsteroid_children:
  assumes "index < length (sr_asteroids st)"
  shows "\<exists>st' children.
           destroyAsteroid index st = Inr st' \<and>
           sr_asteroids st' = splice1 index (sr_asteroids st) @ children \<and>
           map ast_size children =
             (case ast_size (sr_asteroids st ! index) of
                Large \<Rightarrow> [Medium, Medium] | Medium \<Rightarrow> [Small, Small] | Small \<Rightarrow> []) \<and>
           list_all (\<lambda>c. ast_pos c = ast_pos (sr_asteroids st ! index)) children \<and>
           sr_score st' = sr_score st + scoreMap (ast_size (sr_asteroids st ! index)) \<and>
           scoreMap Large < scoreMap Small \<and> scoreMap Medium < scoreMap Small"
proof (cases "ast_size (sr_asteroids st ! index)")
  case Large
  with assms show ?thesis
    by (simp add: destroyAsteroid_def Let_def pushAsteroid_asteroids pushAsteroid_score
        createAsteroid_pos_size createExplosion_keeps splice1_def scoreMap_def)
next
  case Medium
  with assms show ?thesis
    by (simp add: destroyAsteroid_def Let_def pushAsteroid_asteroids pushAsteroid_score
        createAsteroid_pos_size createExplosion_keeps splice1_def scoreMap_def)
next
  case Small
  with assms show ?thesis
    by (simp add: destroyAsteroid_def Let_def createExplosion_keeps splice1_def scoreMap_def)
qed

definition oneLargeRock :: sr_state where
  "oneLargeRock =
     \<lparr>sr_ship = \<lparr>ship_pos = (400, 300), ship_vel = (0, 0), ship_angle = 0,
                 ship_thrust = False, ship_radius = SHIP_SIZE\<rparr>,
      sr_asteroids = [fst (createAsteroid (\<lambda>_. rand_half) 0 (100, 200) Large)],
      sr_bullets = [], sr_particles = [], sr_gameOver = False, sr_paused = False,
      sr_lastShot = 0, sr_score = 0, sr_lives = 3, sr_level = 1, sr_gameOverState = False,
      sr_keys = (\<lambda>_. False), sr_width = 800, sr_height = 600,
      sr_random = (\<lambda>_. rand_half), sr_randomCalls = 11\<rparr>"

text \<open>The witness: a single large asteroid at \<open>(100, 200)\<close> is destroyed.\<close>

theorem destroyAsteroid_children_witness:
  "0 < length (sr_asteroids oneLargeRock) \<and>
   ast_size (sr_asteroids oneLargeRock ! 0) = Large \<and>
   ast_pos (sr_asteroids oneLargeRock ! 0) = (100, 200) \<and>
   (case destroyAsteroid 0 oneLargeRock of
      Inl e \<Rightarrow> False
    | Inr st' \<Rightarrow>
        map ast_size (sr_asteroids st') = [Medium, Medium] \<and>
        map ast_pos (sr_asteroids st') = [(100, 200), (100, 200)] \<and>
        sr_score st' = 20)"
proof -
  have len: "0 < length (sr_asteroids oneLargeRock)" by (simp add: oneLargeRock_def)
  have sz: "ast_size (sr_asteroids oneLargeRock ! 0) = Large"
    and pos: "ast_pos (sr_asteroids oneLargeRock ! 0) = (100, 200)"
    by (simp_all add: oneLargeRock_def createAsteroid_pos_size)
  have one: "splice1 0 (sr_asteroids oneLargeRock) = []" by (simp add: oneLargeRock_def splice1_def)
  have sc: "sr_score oneLargeRock = 0" by (simp add: oneLargeRock_def)
  from destroyAsteroid_children[OF len] obtain st' children where
    d: "destroyAsteroid 0 oneLargeRock = Inr st'"
    and a: "sr_asteroids st' = children"
    and s: "map ast_size children = [Medium, Medium]"
    and p: "list_all (\<lambda>c. ast_pos c = (100, 200)) children"
    and score: "sr_score st' = 20"
    unfolding sz pos one sc by (auto simp: scoreMap_def)
  from s obtain c1 c2 where c: "children = [c1, c2]" by auto
  show ?thesis using len sz pos d a s p score by (simp add: c)
qed

section \<open>Properties of the invaders game\<close>

subsection \<open>The movement tick\<close>

text \<open>
  An active invader whose next horizontal step reaches a boundary (the test of the first
  loop), an invader after the drop, and an active invader that the drop brings down to
  the player's row.
\<close>

definition reaches :: "iv_state \<Rightarrow> Invader \<Rightarrow> bool" where
  "reaches st invader =
     (obj_active invader \<and>
      (obj_x invader + iv_invaderDirection st * iv_invaderSpeed st * iv_scale st
         \<le> iv_barrierLeftBoundary st \<or>
       obj_x invader + iv_invaderDirection st * iv_invaderSpeed st * iv_scale st + obj_width invader
         \<ge> iv_barrierRightBoundary st))"

lemma shouldDrop_iff: "shouldDrop st invs = list_ex (reaches st) invs"
  by (induction invs) (auto simp: reaches_def Let_def)

lemma shouldDrop_counter:
  "shouldDrop (st\<lparr>iv_animationCounter := c\<rparr>) invs = shouldDrop st invs"
  by (induction invs) (auto simp: Let_def)

definition dropOne :: "iv_state \<Rightarrow> Invader \<Rightarrow> Invader" where
  "dropOne st invader =
     (if obj_active invader
      then invader\<lparr>obj_y := obj_y invader + iv_invaderDropAmount st * iv_scale st\<rparr>
      else invader)"

definition landed :: "iv_state \<Rightarrow> Invader \<Rightarrow> bool" where
  "landed st invader =
     (obj_active invader \<and>
      obj_y invader + iv_invaderDropAmount st * iv_scale st + obj_height invader
        \<ge> obj_y (iv_player st))"

lemma dropInvaders_eq:
  "dropInvaders visited invs st =
     st\<lparr>iv_invaders := visited @ map (dropOne st) invs,
        iv_gameOver := (iv_gameOver st \<or> list_ex (landed st) invs)\<rparr>"
proof (induction invs arbitrary: visited st)
  case Nil
  then show ?case by simp
next
  case (Cons invader rest)
  show ?case
    by (simp add: Cons.IH Let_def dropOne_def landed_def)
qed

lemma map_moveInvader_cong:
  "iv_invaderDirection a = iv_invaderDirection b \<Longrightarrow> iv_invaderSpeed a = iv_invaderSpeed b \<Longrightarrow>
   iv_scale a = iv_scale b \<Longrightarrow> moveInvader a = moveInvader b"
  by (rule ext) (simp add: moveInvader_def)

lemma updateInvaders_tick_eq:
  assumes tick: "iv_animationCounter st + deltaTime > iv_animationSpeed st"
  shows "updateInvaders deltaTime st =
     (let drop = list_ex (reaches st) (iv_invaders st);
          direction = (if drop then - iv_invaderDirection st else iv_invaderDirection st)
      in st\<lparr>iv_animationCounter := 0,
            iv_invaderDirection := direction,
            iv_gameOver := (iv_gameOver st \<or> (drop \<and> list_ex (landed st) (iv_invaders st))),
            iv_invaders :=
              map (\<lambda>invader.
                     if obj_active invader
                     then invader\<lparr>obj_y := (if drop then obj_y invader + iv_invaderDropAmount st * iv_scale st
                                              else obj_y invader),
                                  obj_x := obj_x invader + direction * iv_invaderSpeed st * iv_scale st,
                                  inv_animFrame := (inv_animFrame invader + 1) mod 2\<rparr>
                     else invader)
                (iv_invaders st)\<rparr>)"
proof (cases "list_ex (reaches st) (iv_invaders st)")
  case True
  let ?st2 = "st\<lparr>iv_animationCounter := 0, iv_invaderDirection := - iv_invaderDirection st\<rparr>"
  have l: "landed ?st2 = landed st" by (rule ext) (simp add: landed_def)
  have d: "dropOne ?st2 = dropOne st" by (rule ext) (simp add: dropOne_def)
  have sd: "shouldDrop (st\<lparr>iv_animationCounter := 0\<rparr>) (iv_invaders st)"
    using True by (simp add: shouldDrop_iff[symmetric] shouldDrop_counter)
  have m: "\<And>g invs. moveInvader (?st2\<lparr>iv_invaders := invs, iv_gameOver := g\<rparr>) = moveInvader ?st2"
    by (rule map_moveInvader_cong) simp_all
  have md: "\<And>invader. moveInvader ?st2 (dropOne st invader) =
      (if obj_active invader
       then invader\<lparr>obj_y := obj_y invader + iv_invaderDropAmount st * iv_scale st,
                    obj_x := obj_x invader + - iv_invaderDirection st * iv_invaderSpeed st * iv_scale st,
                    inv_animFrame := (inv_animFrame invader + 1) mod 2\<rparr>
       else invader)"
    by (simp add: moveInvader_def dropOne_def)
  have "updateInvaders deltaTime st =
      (let st3 = dropInvaders [] (iv_invaders st) ?st2
       in st3\<lparr>iv_invaders := map (moveInvader st3) (iv_invaders st3)\<rparr>)"
    using tick sd by (simp add: updateInvaders_def Let_def)
  also have "\<dots> = ?st2\<lparr>iv_gameOver := (iv_gameOver st \<or> list_ex (landed st) (iv_invaders st)),
                      iv_invaders := map (\<lambda>invader. moveInvader ?st2 (dropOne st invader)) (iv_invaders st)\<rparr>"
    by (simp add: dropInvaders_eq l d m Let_def comp_def)
  finally show ?thesis using True by (simp add: md Let_def)
next
  case False
  have sd: "\<not> shouldDrop (st\<lparr>iv_animationCounter := 0\<rparr>) (iv_invaders st)"
    using False by (simp add: shouldDrop_iff[symmetric] shouldDrop_counter)
  have m: "moveInvader (st\<lparr>iv_animationCounter := 0\<rparr>) = moveInvader st"
    by (rule map_moveInvader_cong) simp_all
  have "updateInvaders deltaTime st =
      st\<lparr>iv_animationCounter := 0, iv_invaders := map (moveInvader st) (iv_invaders st)\<rparr>"
    using tick sd by (simp add: updateInvaders_def Let_def m)
  then show ?thesis using False by (simp add: Let_def moveInvader_def cong: if_cong)
qed

text \<open>
  Claim C4, as the code has it. On a movement tick (the animation counter passes the
  animation speed), if some active invader's next step reaches a boundary, the direction
  is reversed once and every active invader drops by \<open>iv_invaderDropAmount * iv_scale\<close>
  once, and the game is over when one of them reaches the player's row. Then, on a tick
  with a drop as on one without, every active invader advances by one step in the
  direction now in force and changes its animation frame. Inactive invaders stay as they
  are.
\<close>

theorem updateInvaders_tick:
  assumes "iv_animationCounter st + deltaTime > iv_animationSpeed st"
  shows "updateInvaders deltaTime st =
     (let drop = list_ex (reaches st) (iv_invaders st);
          direction = (if drop then - iv_invaderDirection st else iv_invaderDirection st)
      in st\<lparr>iv_animationCounter := 0,
            iv_invaderDirection := direction,
            iv_gameOver := (iv_gameOver st \<or> (drop \<and> list_ex (landed st) (iv_invaders st))),
            iv_invaders :=
              map (\<lambda>invader.
                     if obj_active invader
                     then invader\<lparr>obj_y := (if drop then obj_y invader + iv_invaderDropAmount st * iv_scale st
                                              else obj_y invader),
                                  obj_x := obj_x invader + direction * iv_invaderSpeed st * iv_scale st,
                                  inv_animFrame := (inv_animFrame invader + 1) mod 2\<rparr>
                     else invader)
                (iv_invaders st)\<rparr>)"
  using assms by (rule updateInvaders_tick_eq)

text \<open>
  The scenario of the specification: three invaders at \<open>x = 0, 40, 80\<close>, 20 wide, moving
  right by 10 towards the boundary at 100, with the counter 10 ms short of a tick.
\<close>

definition formation :: iv_state where
  "formation = (iv_new (\<lambda>n. rand_zero) 800 600)
     \<lparr>iv_invaders :=
        map (\<lambda>x. \<lparr>obj_x = x, obj_y = 0, obj_width = 20, obj_height = 10, obj_active = True,
                   inv_type = 0, inv_animFrame = 0\<rparr>) [0, 40, 80],
      iv_invaderSpeed := 10,
      iv_barrierLeftBoundary := -100,
      iv_barrierRightBoundary := 100,
      iv_animationCounter := 990,
      iv_player := \<lparr>obj_x = 374, obj_y = 540, obj_width = 52, obj_height = 32,
                     obj_active = True, pl_speed = 3\<rparr>\<rparr>"

lemma formation_fields:
  "iv_animationCounter formation = 990" "iv_animationSpeed formation = 1000"
  "iv_invaderDirection formation = 1" "iv_invaderSpeed formation = 10" "iv_scale formation = 1"
  "iv_invaderDropAmount formation = 16" "iv_gameOver formation = False"
  "iv_barrierLeftBoundary formation = -100" "iv_barrierRightBoundary formation = 100"
  "obj_y (iv_player formation) = 540"
  "iv_invaders formation =
     [\<lparr>obj_x = 0, obj_y = 0, obj_width = 20, obj_height = 10, obj_active = True,
       inv_type = 0, inv_animFrame = 0\<rparr>,
      \<lparr>obj_x = 40, obj_y = 0, obj_width = 20, obj_height = 10, obj_active = True,
       inv_type = 0, inv_animFrame = 0\<rparr>,
      \<lparr>obj_x = 80, obj_y = 0, obj_width = 20, obj_height = 10, obj_active = True,
       inv_type = 0, inv_animFrame = 0\<rparr>]"
  by (simp_all add: formation_def iv_new_def)

lemma formation_tick:
  "updateInvaders 16 formation =
     formation\<lparr>iv_animationCounter := 0, iv_invaderDirection := -1,
       iv_invaders :=
         [\<lparr>obj_x = -10, obj_y = 16, obj_width = 20, obj_height = 10, obj_active = True,
           inv_type = 0, inv_animFrame = 1\<rparr>,
          \<lparr>obj_x = 30, obj_y = 16, obj_width = 20, obj_height = 10, obj_active = True,
           inv_type = 0, inv_animFrame = 1\<rparr>,
          \<lparr>obj_x = 70, obj_y = 16, obj_width = 20, obj_height = 10, obj_active = True,
           inv_type = 0, inv_animFrame = 1\<rparr>]\<rparr>"
proof -
  have t: "iv_animationCounter formation + 16 > iv_animationSpeed formation"
    by (simp add: formation_fields)
  show ?thesis
    unfolding updateInvaders_tick_eq[OF t]
    by (simp add: formation_fields reaches_def landed_def Let_def)
qed

theorem updateInvaders_tick_witness:
  "iv_animationCounter formation + 16 > iv_animationSpeed formation \<and>
   list_ex (reaches formation) (iv_invaders formation) \<and>
   updateInvaders 16 formation =
     formation\<lparr>iv_animationCounter := 0, iv_invaderDirection := -1,
       iv_invaders :=
         [\<lparr>obj_x = -10, obj_y = 16, obj_width = 20, obj_height = 10, obj_active = True,
           inv_type = 0, inv_animFrame = 1\<rparr>,
          \<lparr>obj_x = 30, obj_y = 16, obj_width = 20, obj_height = 10, obj_active = True,
           inv_type = 0, inv_animFrame = 1\<rparr>,
          \<lparr>obj_x = 70, obj_y = 16, obj_width = 20, obj_height = 10, obj_active = True,
           inv_type = 0, inv_animFrame = 1\<rparr>]\<rparr>"
proof -
  have t: "iv_animationCounter formation + 16 > iv_animationSpeed formation"
    by (simp add: formation_fields)
  have r: "list_ex (reaches formation) (iv_invaders formation)"
    by (simp add: formation_fields reaches_def)
  show ?thesis
    using updateInvaders_tick[OF t] t r
    by (simp add: formation_fields reaches_def landed_def Let_def)
qed

text \<open>
  Against the claim as worded (reverse and drop, \<^emph>\<open>otherwise\<close> advance and change frame):
  on the tick of the scenario the formation reverses and drops, and every invader also
  advances, to \<open>x = -10, 30, 70\<close>, and changes its frame.
\<close>

theorem updateInvaders_drop_tick_advances:
  "list_ex (reaches formation) (iv_invaders formation) \<and>
   map obj_x (iv_invaders formation) = [0, 40, 80] \<and>
   map inv_animFrame (iv_invaders formation) = [0, 0, 0] \<and>
   iv_invaderDirection (updateInvaders 16 formation) = -1 \<and>
   map obj_y (iv_invaders (updateInvaders 16 formation)) = [16, 16, 16] \<and>
   map obj_x (iv_invaders (updateInvaders 16 formation)) = [-10, 30, 70] \<and>
   map inv_animFrame (iv_invaders (updateInvaders 16 formation)) = [1, 1, 1]"
  unfolding formation_tick by (simp add: formation_fields reaches_def)

subsection \<open>Bullets against invaders\<close>

lemma firstHit_least:
  "j < length ts \<Longrightarrow> obj_active (ts ! j) \<Longrightarrow> checkCollision b (ts ! j) \<Longrightarrow>
   (\<forall>k<j. \<not> (obj_active (ts ! k) \<and> checkCollision b (ts ! k))) \<Longrightarrow>
   firstHit b ts = Some j"
proof (induction ts arbitrary: j)
  case Nil
  then show ?case by simp
next
  case (Cons t ts)
  show ?case
  proof (cases j)
    case 0
    with Cons.prems show ?thesis by simp
  next
    case (Suc i)
    from Cons.prems(4) Suc have h: "\<not> (obj_active t \<and> checkCollision b t)" by auto
    have "\<forall>k<i. \<not> (obj_active (ts ! k) \<and> checkCollision b (ts ! k))"
      using Cons.prems(4) Suc by auto
    with Cons.IH[of i] Cons.prems Suc have "firstHit b ts = Some i" by simp
    with h Suc show ?thesis by auto
  qed
qed

lemma firstHit_none:
  "(\<forall>k<length ts. \<not> (obj_active (ts ! k) \<and> checkCollision b (ts ! k))) \<Longrightarrow> firstHit b ts = None"
proof (induction ts)
  case Nil
  then show ?case by simp
next
  case (Cons t ts)
  from Cons.prems have h: "\<not> (obj_active t \<and> checkCollision b t)" by auto
  from Cons.prems have "\<forall>k<length ts. \<not> (obj_active (ts ! k) \<and> checkCollision b (ts ! k))" by auto
  with Cons.IH have "firstHit b ts = None" by simp
  with h show ?case by auto
qed

lemma bulletsVsInvaders_hit:
  assumes "j < length (iv_invaders st)"
    and "obj_active (iv_invaders st ! j)"
    and "checkCollision b (iv_invaders st ! j)"
    and "\<forall>k<j. \<not> (obj_active (iv_invaders st ! k) \<and> checkCollision b (iv_invaders st ! k))"
  shows "bulletsVsInvaders (rev (bs @ [b])) st =
     bulletsVsInvaders (rev bs)
       (increaseInvaderSpeed (addScore (inv_type (iv_invaders st ! j))
          (st\<lparr>iv_invaders := (iv_invaders st)[j := (iv_invaders st ! j)\<lparr>obj_active := False\<rparr>]\<rparr>)))"
  using firstHit_least[OF assms] by (simp add: Let_def)

lemma bulletsVsInvaders_miss:
  assumes "\<forall>k<length (iv_invaders st).
             \<not> (obj_active (iv_invaders st ! k) \<and> checkCollision b (iv_invaders st ! k))"
  shows "bulletsVsInvaders (rev (bs @ [b])) st =
     (b # fst (bulletsVsInvaders (rev bs) st), snd (bulletsVsInvaders (rev bs) st))"
  using firstHit_none[OF assms] by (simp add: Let_def split_beta)

text \<open>
  Claim C5. The pass of the player's bullets against the invaders takes the bullets in
  reverse insertion order: the last one, \<open>b\<close>, is tried first, against the invaders in
  storage order. If \<open>j\<close> is the first index at which an active invader overlaps \<open>b\<close>,
  that invader alone is deactivated (and scored), \<open>b\<close> is removed, and the pass goes on
  with the earlier bullets; if no active invader overlaps \<open>b\<close>, the bullet stays and
  nothing else changes before the earlier bullets are tried.
\<close>

theorem bulletsVsInvaders_first_overlap:
  "(j < length (iv_invaders st) \<and>
    obj_active (iv_invaders st ! j) \<and> checkCollision b (iv_invaders st ! j) \<and>
    (\<forall>k<j. \<not> (obj_active (iv_invaders st ! k) \<and> checkCollision b (iv_invaders st ! k)))
    \<longrightarrow>
    bulletsVsInvaders (rev (bs @ [b])) st =
      bulletsVsInvaders (rev bs)
        (increaseInvaderSpeed (addScore (inv_type (iv_invaders st ! j))
           (st\<lparr>iv_invaders := (iv_invaders st)[j := (iv_invaders st ! j)\<lparr>obj_active := False\<rparr>]\<rparr>))))
   \<and>
   ((\<forall>k<length (iv_invaders st).
       \<not> (obj_active (iv_invaders st ! k) \<and> checkCollision b (iv_invaders st ! k)))
    \<longrightarrow>
    bulletsVsInvaders (rev (bs @ [b])) st =
      (b # fst (bulletsVsInvaders (rev bs) st), snd (bulletsVsInvaders (rev bs) st)))"
  using bulletsVsInvaders_hit[of j st b bs] bulletsVsInvaders_miss[of st b bs] by blast

text \<open>
  The witness: one bullet over two overlapping active invaders; the first in storage
  order is hit, the second stays active, the bullet is gone and 10 points are scored.
\<close>

definition shot :: Bullet where
  "shot = \<lparr>obj_x = 132, obj_y = 110, obj_width = 2, obj_height = 8, obj_active = True,
           bul_speed = 6\<rparr>"

definition twoTargets :: iv_state where
  "twoTargets = (iv_new (\<lambda>n. rand_zero) 800 600)
     \<lparr>iv_invaders :=
        map (\<lambda>x. \<lparr>obj_x = x, obj_y = 100, obj_width = 36, obj_height = 24, obj_active = True,
                   inv_type = 0, inv_animFrame = 0\<rparr>) [100, 130],
      iv_playerBullets := [shot]\<rparr>"

theorem bulletsVsInvaders_first_overlap_witness:
  "0 < length (iv_invaders twoTargets) \<and>
   map obj_active (iv_invaders twoTargets) = [True, True] \<and>
   map (checkCollision shot) (iv_invaders twoTargets) = [True, True] \<and>
   fst (bulletsVsInvaders (rev (iv_playerBullets twoTargets)) twoTargets) = [] \<and>
   map obj_active (iv_invaders (snd (bulletsVsInvaders (rev (iv_playerBullets twoTargets)) twoTargets)))
     = [False, True] \<and>
   iv_score (snd (bulletsVsInvaders (rev (iv_playerBullets twoTargets)) twoTargets)) = 10"
proof -
  have inv: "iv_invaders twoTargets =
     [\<lparr>obj_x = 100, obj_y = 100, obj_width = 36, obj_height = 24, obj_active = True,
       inv_type = 0, inv_animFrame = 0\<rparr>,
      \<lparr>obj_x = 130, obj_y = 100, obj_width = 36, obj_height = 24, obj_active = True,
       inv_type = 0, inv_animFrame = 0\<rparr>]"
    and bul: "iv_playerBullets twoTargets = [] @ [shot]"
    and sc: "iv_score twoTargets = 0"
    by (simp_all add: twoTargets_def iv_new_def)
  have h: "0 < length (iv_invaders twoTargets) \<and>
    obj_active (iv_invaders twoTargets ! 0) \<and> checkCollision shot (iv_invaders twoTargets ! 0) \<and>
    (\<forall>k<0. \<not> (obj_active (iv_invaders twoTargets ! k) \<and> checkCollision shot (iv_invaders twoTargets ! k)))"
    by (simp add: inv checkCollision_def shot_def)
  have c: "map (checkCollision shot) (iv_invaders twoTargets) = [True, True]"
    by (simp add: inv checkCollision_def shot_def)
  from bulletsVsInvaders_first_overlap[of 0 twoTargets shot "[]"] h
  have "bulletsVsInvaders (rev ([] @ [shot])) twoTargets =
      bulletsVsInvaders (rev [])
        (increaseInvaderSpeed (addScore (inv_type (iv_invaders twoTargets ! 0))
           (twoTargets\<lparr>iv_invaders := (iv_invaders twoTargets)
              [0 := (iv_invaders twoTargets ! 0)\<lparr>obj_active := False\<rparr>]\<rparr>)))"
    by blast
  then show ?thesis
    unfolding bul using c
    by (simp add: inv sc increaseInvaderSpeed_def addScore_def Let_def)
qed

subsection \<open>At most one player bullet\<close>

lemma bulletsVsInvaders_kept: "length (fst (bulletsVsInvaders bs st)) \<le> length bs"
  by (induction bs arbitrary: st)
     (auto simp: Let_def split_beta split: option.splits intro: le_SucI)

lemma bulletsVsMotherShip_kept: "length (fst (bulletsVsMotherShip bs st)) \<le> length bs"
  by (induction bs st rule: bulletsVsMotherShip.induct) (auto simp: Let_def split_beta)

lemma bulletsVsBarriers_kept: "length (fst (bulletsVsBarriers bs barriers)) \<le> length bs"
  by (induction bs arbitrary: barriers)
     (auto simp: Let_def split_beta split: option.splits intro: le_SucI)

lemma bulletsVsPlayer_kept: "length (fst (bulletsVsPlayer bs st)) \<le> length bs"
  by (induction bs st rule: bulletsVsPlayer.induct) (auto simp: Let_def split_beta)

lemma bulletsVsInvaders_playerBullets:
  "iv_playerBullets (snd (bulletsVsInvaders bs st)) = iv_playerBullets st"
  by (induction bs arbitrary: st)
     (auto simp: Let_def split_beta increaseInvaderSpeed_def addScore_def split: option.splits)

lemma bulletsVsMotherShip_playerBullets:
  "iv_playerBullets (snd (bulletsVsMotherShip bs st)) = iv_playerBullets st"
  by (induction bs st rule: bulletsVsMotherShip.induct) (auto simp: Let_def split_beta)

lemma bulletsVsPlayer_playerBullets:
  "iv_playerBullets (snd (bulletsVsPlayer bs st)) = iv_playerBullets st"
  by (induction bs st rule: bulletsVsPlayer.induct) (auto simp: Let_def split_beta)

lemma checkCollisions_playerBullets:
  "length (iv_playerBullets (checkCollisions st)) \<le> length (iv_playerBullets st)"
proof -
  let ?r1 = "bulletsVsInvaders (rev (iv_playerBullets st)) st"
  let ?st1 = "(snd ?r1)\<lparr>iv_playerBullets := rev (fst ?r1)\<rparr>"
  let ?r2 = "bulletsVsMotherShip (rev (iv_playerBullets ?st1)) ?st1"
  let ?st2 = "(snd ?r2)\<lparr>iv_playerBullets := rev (fst ?r2)\<rparr>"
  let ?r3 = "bulletsVsBarriers (rev (iv_playerBullets ?st2)) (iv_barriers ?st2)"
  have 1: "length (fst ?r1) \<le> length (iv_playerBullets st)"
    using bulletsVsInvaders_kept[of "rev (iv_playerBullets st)" st] by simp
  have 2: "length (fst ?r2) \<le> length (fst ?r1)"
    using bulletsVsMotherShip_kept[of "rev (iv_playerBullets ?st1)" ?st1] by simp
  have 3: "length (fst ?r3) \<le> length (fst ?r2)"
    using bulletsVsBarriers_kept[of "rev (iv_playerBullets ?st2)" "iv_barriers ?st2"] by simp
  have "iv_playerBullets (checkCollisions st) = rev (fst ?r3)"
    by (simp add: checkCollisions_def Let_def split_beta bulletsVsPlayer_playerBullets)
  with 1 2 3 show ?thesis by simp
qed

lemma updateBullets_playerBullets:
  "length (iv_playerBullets (updateBullets st)) \<le> length (iv_playerBullets st)"
  unfolding updateBullets_def
  using length_filter_le[of "\<lambda>b. \<not> obj_y b < 0" "map (\<lambda>b. b\<lparr>obj_y := obj_y b - bul_speed b\<rparr>) (iv_playerBullets st)"]
  by simp

lemma dropInvaders_playerBullets:
  "iv_playerBullets (dropInvaders visited invs st) = iv_playerBullets st"
  by (induction visited invs st rule: dropInvaders.induct) (auto simp: Let_def)

lemma updateInvaders_playerBullets:
  "iv_playerBullets (updateInvaders deltaTime st) = iv_playerBullets st"
  by (simp add: updateInvaders_def Let_def dropInvaders_playerBullets)

lemma updateMotherShip_playerBullets:
  "iv_playerBullets (updateMotherShip deltaTime st) = iv_playerBullets st"
  by (simp add: updateMotherShip_def moveMotherShip_def spawnMotherShip_def iv_nextRandom_def
      Let_def split_beta)

lemma movePlayer_playerBullets: "iv_playerBullets (movePlayer st) = iv_playerBullets st"
  by (simp add: movePlayer_def Let_def)

lemma invaderShoot_playerBullets: "iv_playerBullets (invaderShoot st) = iv_playerBullets st"
  by (simp add: invaderShoot_def iv_nextRandom_def Let_def split_beta)

lemma nextLevel_playerBullets: "iv_playerBullets (nextLevel st) = iv_playerBullets st"
  by (simp add: nextLevel_def createInvaders_def Let_def)

lemma iv_update_playerBullets:
  "length (iv_playerBullets (iv_update deltaTime st)) \<le> length (iv_playerBullets st)"
proof -
  let ?st3 = "updateMotherShip deltaTime (updateInvaders deltaTime (movePlayer st))"
  have a: "iv_playerBullets ?st3 = iv_playerBullets st"
    by (simp add: updateMotherShip_playerBullets updateInvaders_playerBullets movePlayer_playerBullets)
  have b: "length (iv_playerBullets (checkCollisions (updateBullets ?st3))) \<le> length (iv_playerBullets ?st3)"
    using checkCollisions_playerBullets[of "updateBullets ?st3"] updateBullets_playerBullets[of ?st3]
    by linarith
  show ?thesis
    using a b
    by (simp add: iv_update_def Let_def nextLevel_playerBullets invaderShoot_playerBullets)
qed

lemma iv_initGame_playerBullets: "iv_playerBullets (iv_initGame st) = []"
  by (simp add: iv_initGame_def Let_def)

lemma shootPlayerBullet_length:
  "length (iv_playerBullets (shootPlayerBullet st)) =
     (if iv_playerBullets st = [] then 1 else length (iv_playerBullets st))"
  by (cases "iv_playerBullets st") (simp_all add: shootPlayerBullet_def)

lemma iv_step_playerBullets:
  "length (iv_playerBullets st) \<le> 1 \<Longrightarrow> length (iv_playerBullets (iv_step e st)) \<le> 1"
proof (cases e)
  case (IvFrame t)
  assume "length (iv_playerBullets st) \<le> 1"
  then show ?thesis
    using IvFrame iv_update_playerBullets[of "t - iv_lastTime st" "st\<lparr>iv_lastTime := t\<rparr>"]
    by (simp add: iv_gameLoop_def Let_def)
next
  case (IvKeyDown k)
  assume "length (iv_playerBullets st) \<le> 1"
  then show ?thesis
    using IvKeyDown
    by (auto simp: iv_handleKeyDown_def Let_def shootPlayerBullet_length iv_initGame_playerBullets)
qed (simp_all add: iv_handleKeyUp_def iv_togglePause_def iv_restart_def iv_initGame_playerBullets)

lemma iv_run_playerBullets:
  "length (iv_playerBullets st) \<le> 1 \<Longrightarrow> length (iv_playerBullets (iv_run es st)) \<le> 1"
proof (induction es arbitrary: st)
  case Nil
  then show ?case by simp
next
  case (Cons e es)
  from iv_step_playerBullets[OF Cons.prems] have "length (iv_playerBullets (iv_step e st)) \<le> 1" .
  from Cons.IH[OF this] show ?case by simp
qed

text \<open>
  Claim C10. \<open>shootPlayerBullet\<close> appends a bullet only to an empty collection;
  \<open>updateBullets\<close> and \<open>checkCollisions\<close> never make it longer and \<open>initGame\<close> empties it;
  so every event, and every sequence of events, keeps the collection at one bullet at
  most.
\<close>

theorem playerBullets_at_most_one:
  "length (iv_playerBullets (shootPlayerBullet st)) =
     (if iv_playerBullets st = [] then 1 else length (iv_playerBullets st)) \<and>
   length (iv_playerBullets (updateBullets st)) \<le> length (iv_playerBullets st) \<and>
   length (iv_playerBullets (checkCollisions st)) \<le> length (iv_playerBullets st) \<and>
   length (iv_playerBullets (iv_update deltaTime st)) \<le> length (iv_playerBullets st) \<and>
   iv_playerBullets (iv_initGame st) = [] \<and>
   (length (iv_playerBullets st) \<le> 1 \<longrightarrow> length (iv_playerBullets (iv_step e st)) \<le> 1) \<and>
   (length (iv_playerBullets st) \<le> 1 \<longrightarrow> length (iv_playerBullets (iv_run es st)) \<le> 1)"
  using shootPlayerBullet_length[of st] updateBullets_playerBullets[of st]
    checkCollisions_playerBullets[of st] iv_update_playerBullets[of deltaTime st]
    iv_initGame_playerBullets[of st] iv_step_playerBullets[of st e] iv_run_playerBullets[of st es]
  by blast

text \<open>The witness: the fire key twice on the formation of the scenario leaves one bullet.\<close>

theorem playerBullets_at_most_one_witness:
  "length (iv_playerBullets formation) \<le> 1 \<and>
   length (iv_playerBullets (iv_run [IvKeyDown '' '', IvKeyDown '' ''] formation)) \<le> 1 \<and>
   iv_playerBullets (iv_run [IvKeyDown '' '', IvKeyDown '' ''] formation) =
     [\<lparr>obj_x = 399, obj_y = 540, obj_width = 2, obj_height = 8, obj_active = True,
       bul_speed = 6\<rparr>]"
proof -
  have h: "length (iv_playerBullets formation) \<le> 1" by (simp add: formation_def iv_new_def)
  from playerBullets_at_most_one[of formation _ _ "[IvKeyDown '' '', IvKeyDown '' '']"] h
  have a: "length (iv_playerBullets (iv_run [IvKeyDown '' '', IvKeyDown '' ''] formation)) \<le> 1"
    by blast
  have b: "iv_playerBullets (iv_run [IvKeyDown '' '', IvKeyDown '' ''] formation) =
     [\<lparr>obj_x = 399, obj_y = 540, obj_width = 2, obj_height = 8, obj_active = True,
       bul_speed = 6\<rparr>]"
    by (simp add: iv_handleKeyDown_def shootPlayerBullet_def Let_def formation_def iv_new_def)
  from h a b show ?thesis by blast
qed

section \<open>Pause\<close>

lemma sd_paused_frames:
  "sd_paused st \<Longrightarrow>
   sd_run (map SdFrame ts) st = Inr (st\<lparr>sd_lastTime := last (sd_lastTime st # ts)\<rparr>)"
proof (induction ts arbitrary: st)
  case Nil
  then show ?case by simp
next
  case (Cons t ts)
  have p: "sd_paused (st\<lparr>sd_lastTime := t\<rparr>)" using Cons.prems by simp
  have "sd_run (map SdFrame (t # ts)) st = sd_run (map SdFrame ts) (st\<lparr>sd_lastTime := t\<rparr>)"
    using Cons.prems by (simp add: sd_gameLoop_def)
  also have "\<dots> = Inr (st\<lparr>sd_lastTime := t\<rparr>\<lparr>sd_lastTime := last (t # ts)\<rparr>)"
    using Cons.IH[OF p] by simp
  finally show ?case by simp
qed

lemma sd_run_append:
  "sd_run (es @ fs) st = (case sd_run es st of Inl err \<Rightarrow> Inl err | Inr st' \<Rightarrow> sd_run fs st')"
  by (induction es arbitrary: st) (auto split: sum.splits)

lemma sd_resume_delta:
  assumes "sd_paused st"
  shows "sd_run (map SdFrame (ts @ [t0]) @ [SdTogglePause, SdFrame t]) st =
         sd_update (t - t0) (st\<lparr>sd_paused := False, sd_lastTime := t\<rparr>)"
proof -
  have a: "sd_run (map SdFrame (ts @ [t0])) st = Inr (st\<lparr>sd_lastTime := t0\<rparr>)"
    using sd_paused_frames[OF assms, of "ts @ [t0]"] by simp
  have b: "sd_run [SdTogglePause, SdFrame t] (st\<lparr>sd_lastTime := t0\<rparr>) =
      sd_update (t - t0) (st\<lparr>sd_paused := False, sd_lastTime := t\<rparr>)"
    using assms by (simp add: sd_togglePause_def sd_gameLoop_def Let_def split: sum.splits)
  show ?thesis
    unfolding sd_run_append a by (simp only: sum.case b)
qed

lemma iv_paused_frames:
  "iv_paused st \<Longrightarrow>
   iv_run (map IvFrame ts) st = st\<lparr>iv_lastTime := last (iv_lastTime st # ts)\<rparr>"
proof (induction ts arbitrary: st)
  case Nil
  then show ?case by simp
next
  case (Cons t ts)
  have p: "iv_paused (st\<lparr>iv_lastTime := t\<rparr>)" using Cons.prems by simp
  have "iv_run (map IvFrame (t # ts)) st = iv_run (map IvFrame ts) (st\<lparr>iv_lastTime := t\<rparr>)"
    using Cons.prems by (simp add: iv_gameLoop_def Let_def)
  also have "\<dots> = st\<lparr>iv_lastTime := t\<rparr>\<lparr>iv_lastTime := last (t # ts)\<rparr>"
    using Cons.IH[OF p] by simp
  finally show ?case by simp
qed

lemma iv_run_append: "iv_run (es @ fs) st = iv_run fs (iv_run es st)"
  by (induction es arbitrary: st) auto

lemma iv_resume_delta:
  assumes "iv_paused st" and "\<not> iv_gameOver st"
  shows "iv_run (map IvFrame (ts @ [t0]) @ [IvTogglePause, IvFrame t]) st =
         iv_update (t - t0) (st\<lparr>iv_paused := False, iv_lastTime := t\<rparr>)"
proof -
  have a: "iv_run (map IvFrame (ts @ [t0])) st = st\<lparr>iv_lastTime := t0\<rparr>"
    using iv_paused_frames[OF assms(1), of "ts @ [t0]"] by simp
  have b: "iv_run [IvTogglePause, IvFrame t] (st\<lparr>iv_lastTime := t0\<rparr>) =
      iv_update (t - t0) (st\<lparr>iv_paused := False, iv_lastTime := t\<rparr>)"
    using assms by (simp add: iv_togglePause_def iv_gameLoop_def Let_def)
  show ?thesis
    unfolding iv_run_append a by (simp only: b)
qed

text \<open>
  Claim C6, for the two games whose loop measures time (the falling-piece game and the
  invaders game). While the game is paused, any number of animation frames leave every
  field as it is except \<open>lastTime\<close>, the timestamp of the last frame seen: no position,
  no board cell, no score and no gameplay timer (\<open>sd_dropCounter\<close>, \<open>iv_animationCounter\<close>,
  the shoot and mother ship timers) changes. After a resume the first frame, at time
  \<open>t\<close>, updates the game with \<open>t - t0\<close>, where \<open>t0\<close> is the time of the last paused frame:
  one frame's worth of time, whatever the length of the pause.
\<close>

theorem paused_frames_freeze:
  "(sd_paused s \<longrightarrow>
      sd_run (map SdFrame ts) s = Inr (s\<lparr>sd_lastTime := last (sd_lastTime s # ts)\<rparr>)) \<and>
   (sd_paused s \<longrightarrow>
      sd_run (map SdFrame (ts @ [t0]) @ [SdTogglePause, SdFrame t]) s =
        sd_update (t - t0) (s\<lparr>sd_paused := False, sd_lastTime := t\<rparr>)) \<and>
   (iv_paused v \<longrightarrow>
      iv_run (map IvFrame ts) v = v\<lparr>iv_lastTime := last (iv_lastTime v # ts)\<rparr>) \<and>
   (iv_paused v \<and> \<not> iv_gameOver v \<longrightarrow>
      iv_run (map IvFrame (ts @ [t0]) @ [IvTogglePause, IvFrame t]) v =
        iv_update (t - t0) (v\<lparr>iv_paused := False, iv_lastTime := t\<rparr>))"
  using sd_paused_frames[of s ts] sd_resume_delta[of s ts t0 t]
    iv_paused_frames[of v ts] iv_resume_delta[of v ts t0 t]
  by blast

text \<open>
  The witness: both games paused for four frames, one second apart, and resumed 16 ms
  after the last of them. The drop counter and the invaders' timers then stand at 16, not
  at the four seconds of the pause, and nothing has moved.
\<close>

definition pausedPiece :: sd_state where
  "pausedPiece = kickState\<lparr>sd_paused := True\<rparr>"

definition pausedFormation :: iv_state where
  "pausedFormation = formation\<lparr>iv_paused := True, iv_animationCounter := 0\<rparr>"

theorem paused_frames_freeze_witness:
  "sd_paused pausedPiece \<and>
   sd_run (map SdFrame [1000, 2000, 3000, 4000]) pausedPiece =
     Inr (pausedPiece\<lparr>sd_lastTime := 4000\<rparr>) \<and>
   sd_run (map SdFrame ([1000, 2000, 3000] @ [4000]) @ [SdTogglePause, SdFrame 4016]) pausedPiece =
     Inr (pausedPiece\<lparr>sd_paused := False, sd_lastTime := 4016, sd_dropCounter := 16\<rparr>) \<and>
   iv_paused pausedFormation \<and> \<not> iv_gameOver pausedFormation \<and>
   iv_run (map IvFrame [1000, 2000, 3000, 4000]) pausedFormation =
     pausedFormation\<lparr>iv_lastTime := 4000\<rparr> \<and>
   iv_run (map IvFrame ([1000, 2000, 3000] @ [4000]) @ [IvTogglePause, IvFrame 4016]) pausedFormation =
     pausedFormation\<lparr>iv_paused := False, iv_lastTime := 4016, iv_animationCounter := 16,
                      iv_motherShipTimer := 16, iv_invaderShootTimer := 16\<rparr>"
proof -
  have p: "sd_paused pausedPiece" by (simp add: pausedPiece_def)
  have q: "iv_paused pausedFormation" "\<not> iv_gameOver pausedFormation"
    by (simp_all add: pausedFormation_def formation_fields)
  note frz = paused_frames_freeze[where s = pausedPiece and v = pausedFormation]
  have a: "sd_run (map SdFrame [1000, 2000, 3000, 4000]) pausedPiece =
      Inr (pausedPiece\<lparr>sd_lastTime := last (sd_lastTime pausedPiece # [1000, 2000, 3000, 4000])\<rparr>)"
    using frz[where ts = "[1000, 2000, 3000, 4000]"] p by blast
  have b: "sd_run (map SdFrame ([1000, 2000, 3000] @ [4000]) @ [SdTogglePause, SdFrame 4016]) pausedPiece =
      sd_update (4016 - 4000) (pausedPiece\<lparr>sd_paused := False, sd_lastTime := 4016\<rparr>)"
    using frz[where ts = "[1000, 2000, 3000]" and ?t0.0 = 4000 and t = 4016] p by blast
  have c: "iv_run (map IvFrame [1000, 2000, 3000, 4000]) pausedFormation =
      pausedFormation\<lparr>iv_lastTime := last (iv_lastTime pausedFormation # [1000, 2000, 3000, 4000])\<rparr>"
    using frz[where ts = "[1000, 2000, 3000, 4000]"] q by blast
  have d: "iv_run (map IvFrame ([1000, 2000, 3000] @ [4000]) @ [IvTogglePause, IvFrame 4016]) pausedFormation =
      iv_update (4016 - 4000) (pausedFormation\<lparr>iv_paused := False, iv_lastTime := 4016\<rparr>)"
    using frz[where ts = "[1000, 2000, 3000]" and ?t0.0 = 4000 and t = 4016] q by blast
  have b': "sd_update 16 (pausedPiece\<lparr>sd_paused := False, sd_lastTime := 4016\<rparr>) =
      Inr (pausedPiece\<lparr>sd_paused := False, sd_lastTime := 4016, sd_dropCounter := 16\<rparr>)"
    by (simp add: sd_update_def pausedPiece_def kickState_def sd_new_def Let_def)
  have d': "iv_update 16 (pausedFormation\<lparr>iv_paused := False, iv_lastTime := 4016\<rparr>) =
      pausedFormation\<lparr>iv_paused := False, iv_lastTime := 4016, iv_animationCounter := 16,
                      iv_motherShipTimer := 16, iv_invaderShootTimer := 16\<rparr>"
    by (simp add: iv_update_def movePlayer_def updateInvaders_def updateMotherShip_def
        spawnMotherShip_def moveMotherShip_def updateBullets_def checkCollisions_def Let_def
        pausedFormation_def formation_def iv_new_def)
  show ?thesis
    using p q a b c d by (simp add: b' d')
qed

section \<open>Properties of the snake game\<close>

subsection \<open>Writing an integer and reading it back\<close>

lemma of_char_digitChar: "d < 10 \<Longrightarrow> (of_char (digitChar d) :: nat) = 48 + d"
proof -
  assume "d < 10"
  then have "d \<in> {0,1,2,3,4,5,6,7,8,9}" by auto
  then show ?thesis by (auto simp: digitChar_def)
qed

lemma isDigit_digitChar: "d < 10 \<Longrightarrow> isDigit (digitChar d)"
  by (simp add: isDigit_def of_char_digitChar)

lemma digits_all: "list_all isDigit (digits n)"
proof (induction n rule: digits.induct)
  case (1 n)
  show ?case
  proof (cases "n < 10")
    case True
    then show ?thesis by (subst digits.simps) (simp add: isDigit_digitChar)
  next
    case False
    then show ?thesis
      using 1 by (subst digits.simps) (simp add: isDigit_digitChar)
  qed
qed

lemma digits_nonempty: "digits n \<noteq> []"
  by (subst digits.simps) simp

lemma digitsValue_snoc:
  "digitsValue (s @ [c]) = 10 * digitsValue s + ((of_char c :: nat) - 48)"
  by (simp add: digitsValue_def)

lemma digitsValue_digits: "digitsValue (digits n) = n"
proof (induction n rule: digits.induct)
  case (1 n)
  show ?case
  proof (cases "n < 10")
    case True
    then show ?thesis by (subst digits.simps) (simp add: digitsValue_def of_char_digitChar)
  next
    case False
    then have "digitsValue (digits n) = 10 * digitsValue (digits (n div 10)) + (n mod 10)"
      by (subst digits.simps) (simp add: digitsValue_snoc of_char_digitChar)
    with 1 False show ?thesis by simp
  qed
qed

lemma parseDigits_digits: "parseDigits (digits n) = Some n"
proof -
  have tw: "takeWhile isDigit (digits n) = digits n"
    using digits_all[of n] by (simp add: list_all_iff takeWhile_eq_all_conv)
  show ?thesis
    unfolding parseDigits_def Let_def tw
    by (simp add: digits_nonempty digitsValue_digits)
qed

lemma isDigit_plain:
  "isDigit c \<Longrightarrow> \<not> isWhiteSpace c \<and> c \<noteq> CHR ''-'' \<and> c \<noteq> CHR ''+''"
  by (auto simp: isDigit_def isWhiteSpace_def)

lemma parseInt_toStringInt: "parseInt (toStringInt n) = Some n"
proof (cases "n < 0")
  case True
  have "\<not> isWhiteSpace CHR ''-''" by (simp add: isWhiteSpace_def)
  then show ?thesis
    using True by (simp add: parseInt_def toStringInt_def parseDigits_digits)
next
  case False
  obtain c rest where d: "digits (nat n) = c # rest"
    using digits_nonempty[of "nat n"] by (cases "digits (nat n)") auto
  have "isDigit c" using digits_all[of "nat n"] d by simp
  then have c: "\<not> isWhiteSpace c" "c \<noteq> CHR ''-''" "c \<noteq> CHR ''+''"
    using isDigit_plain by blast+
  have "parseDigits (c # rest) = Some (nat n)"
    using parseDigits_digits[of "nat n"] d by simp
  then show ?thesis
    using False c by (simp add: parseInt_def toStringInt_def d)
qed


lemma stopGame_keeps [simp]:
  "sn_storage (stopGame st) = sn_storage st" "sn_storageReads (stopGame st) = sn_storageReads st"
  "sn_highScore (stopGame st) = sn_highScore st" "sn_score (stopGame st) = sn_score st"
  "sn_gameState (stopGame st) = sn_gameState st"
  by (simp_all add: stopGame_def)

lemma startGame_keeps [simp]:
  "sn_storage (startGame st) = sn_storage st" "sn_storageReads (startGame st) = sn_storageReads st"
  "sn_highScore (startGame st) = sn_highScore st" "sn_score (startGame st) = sn_score st"
  by (simp_all add: startGame_def)

lemma pauseGame_keeps [simp]:
  "sn_storage (pauseGame st) = sn_storage st" "sn_storageReads (pauseGame st) = sn_storageReads st"
  "sn_highScore (pauseGame st) = sn_highScore st" "sn_score (pauseGame st) = sn_score st"
  by (simp_all add: pauseGame_def)

lemma resumeGame_keeps [simp]:
  "sn_storage (resumeGame st) = sn_storage st" "sn_storageReads (resumeGame st) = sn_storageReads st"
  "sn_highScore (resumeGame st) = sn_highScore st" "sn_score (resumeGame st) = sn_score st"
  by (simp_all add: resumeGame_def)

lemma calculateGridDimensions_keeps [simp]:
  "sn_storage (calculateGridDimensions w h st) = sn_storage st"
  "sn_storageReads (calculateGridDimensions w h st) = sn_storageReads st"
  "sn_highScore (calculateGridDimensions w h st) = sn_highScore st"
  "sn_score (calculateGridDimensions w h st) = sn_score st"
  "sn_gameState (calculateGridDimensions w h st) = sn_gameState st"
  by (simp_all add: calculateGridDimensions_def)

lemma onResize_keeps:
  "sn_storage (onResize w h st) = sn_storage st \<and>
   sn_storageReads (onResize w h st) = sn_storageReads st \<and>
   sn_highScore (onResize w h st) = sn_highScore st \<and>
   sn_score (onResize w h st) = sn_score st"
  by (simp add: onResize_def Let_def)

lemma spawnApple_keeps:
  "spawnApple st = Inr st' \<Longrightarrow>
   sn_storage st' = sn_storage st \<and> sn_storageReads st' = sn_storageReads st \<and>
   sn_highScore st' = sn_highScore st \<and> sn_score st' = sn_score st \<and>
   sn_gameState st' = sn_gameState st"
  by (auto simp: spawnApple_def split: option.splits)

lemma sn_initGame_keeps:
  "sn_initGame st = Inr st' \<Longrightarrow>
   sn_storage st' = sn_storage st \<and> sn_storageReads st' = sn_storageReads st \<and>
   sn_highScore st' = sn_highScore st"
  by (auto simp: sn_initGame_def Let_def split: sum.splits dest!: spawnApple_keeps)

lemma restartGame_keeps:
  "restartGame st = Inr st' \<Longrightarrow>
   sn_storage st' = sn_storage st \<and> sn_storageReads st' = sn_storageReads st \<and>
   sn_highScore st' = sn_highScore st"
  by (auto simp: restartGame_def split: sum.splits dest!: sn_initGame_keeps)

lemma storedHighScore_written:
  "storedHighScore (storage(highScoreKey \<mapsto> toStringInt n)) = Some n"
proof -
  have "toStringInt n \<noteq> []" by (simp add: toStringInt_def digits_nonempty)
  then show ?thesis by (simp add: storedHighScore_def parseInt_toStringInt)
qed

lemma endGame_storage:
  assumes inv: "sn_highScore st = storedHighScore (sn_storage st)"
  shows "sn_storageReads (endGame st) = sn_storageReads st \<and>
         sn_gameState (endGame st) = GAME_OVER \<and>
         sn_highScore (endGame st) = storedHighScore (sn_storage (endGame st)) \<and>
         (sn_storage (endGame st) = sn_storage st \<or>
          (\<exists>h. storedHighScore (sn_storage st) = Some h \<and> h < sn_score st) \<and>
          sn_storage (endGame st) = (sn_storage st)(highScoreKey \<mapsto> toStringInt (sn_score st)))"
proof (cases "sn_highScore st")
  case None
  then show ?thesis using inv by (simp add: endGame_def Let_def)
next
  case (Some h)
  show ?thesis
  proof (cases "sn_score st > h")
    case True
    then show ?thesis
      using Some inv
      by (simp add: endGame_def Let_def saveHighScore_def storedHighScore_written)
  next
    case False
    then show ?thesis using Some inv by (simp add: endGame_def Let_def)
  qed
qed

lemma endGame_reads: "sn_storageReads (endGame st) = sn_storageReads st"
  by (simp add: endGame_def Let_def saveHighScore_def split: option.splits)

subsection \<open>The stored high score\<close>

lemma onKeyDown_cases:
  assumes "Q (Inr (startGame st))" and "Q (Inr st)"
    and "\<And>d. Q (Inr (st\<lparr>sn_nextDirection := d\<rparr>))"
    and "Q (Inr (pauseGame st))" and "Q (Inr (resumeGame st))" and "Q (restartGame st)"
  shows "Q (onKeyDown key st)"
proof -
  have a: "\<And>c x y. Q (Inr x) \<Longrightarrow> Q (Inr y) \<Longrightarrow> Q (Inr (if c then x else y))" by simp
  have b: "\<And>c x y. Q x \<Longrightarrow> Q y \<Longrightarrow> Q (if c then x else y)" by simp
  show ?thesis
    unfolding onKeyDown_def Let_def
    apply (rule b, rule assms)
    apply (rule b)
     apply (rule b, rule a, rule assms, rule assms)
     apply (rule b, rule a, rule assms, rule assms)
     apply (rule b, rule a, rule assms, rule assms)
     apply (rule b, rule a, rule assms, rule assms)
     apply (rule b, rule assms, rule assms)
    apply (rule b)
     apply (rule b, rule assms, rule assms)
    apply (rule b)
     apply (rule b, rule assms, rule assms)
    apply (rule assms)
    done
qed


lemma onKeyDown_keeps:
  "onKeyDown key st = Inr st' \<Longrightarrow>
   sn_storage st' = sn_storage st \<and> sn_storageReads st' = sn_storageReads st \<and>
   sn_highScore st' = sn_highScore st"
proof -
  let ?Q = "\<lambda>r. \<forall>st'. r = Inr st' \<longrightarrow>
     sn_storage st' = sn_storage st \<and> sn_storageReads st' = sn_storageReads st \<and>
     sn_highScore st' = sn_highScore st"
  have "?Q (onKeyDown key st)"
  proof (rule onKeyDown_cases)
    show "?Q (restartGame st)" using restartGame_keeps by blast
  qed simp_all
  then show "onKeyDown key st = Inr st' \<Longrightarrow>
   sn_storage st' = sn_storage st \<and> sn_storageReads st' = sn_storageReads st \<and>
   sn_highScore st' = sn_highScore st" by blast
qed

lemma sn_update_cases:
  "sn_update st = Inr st' \<Longrightarrow>
   st' = endGame (st\<lparr>sn_direction := sn_nextDirection st\<rparr>) \<or>
   (sn_storage st' = sn_storage st \<and> sn_storageReads st' = sn_storageReads st \<and>
    sn_highScore st' = sn_highScore st)"
  by (auto simp: sn_update_def Let_def stopGame_def split: list.splits if_splits sum.splits prod.splits
      dest!: spawnApple_keeps)



lemma sn_step_reads:
  "sn_step e st = Inr st' \<Longrightarrow> sn_storageReads st' = sn_storageReads st"
proof (cases e)
  case (SnKeyDown key)
  assume "sn_step e st = Inr st'"
  with SnKeyDown show ?thesis using onKeyDown_keeps[of key st st'] by simp
next
  case SnTick
  assume a: "sn_step e st = Inr st'"
  show ?thesis
  proof (cases "sn_interval st")
    case True
    with a SnTick have "sn_update st = Inr st'" by simp
    from sn_update_cases[OF this] show ?thesis by (auto simp: endGame_reads)
  next
    case False
    with a SnTick show ?thesis by simp
  qed
next
  case (SnResize w h)
  assume "sn_step e st = Inr st'"
  with SnResize show ?thesis using onResize_keeps[of w h st] by auto
qed

lemma sn_step_written:
  assumes inv: "sn_highScore st = storedHighScore (sn_storage st)"
    and step: "sn_step e st = Inr st'"
  shows "sn_highScore st' = storedHighScore (sn_storage st') \<and>
         (sn_storage st' = sn_storage st \<or>
          e = SnTick \<and> sn_gameState st' = GAME_OVER \<and>
          (\<exists>h. storedHighScore (sn_storage st) = Some h \<and> h < sn_score st) \<and>
          sn_storage st' = (sn_storage st)(highScoreKey \<mapsto> toStringInt (sn_score st)))"
proof (cases e)
  case (SnKeyDown key)
  with step show ?thesis using onKeyDown_keeps[of key st st'] inv by simp
next
  case SnTick
  show ?thesis
  proof (cases "sn_interval st")
    case True
    with step SnTick have u: "sn_update st = Inr st'" by simp
    let ?st1 = "st\<lparr>sn_direction := sn_nextDirection st\<rparr>"
    from sn_update_cases[OF u] show ?thesis
    proof
      assume e: "st' = endGame ?st1"
      have "sn_highScore ?st1 = storedHighScore (sn_storage ?st1)" using inv by simp
      from endGame_storage[OF this] show ?thesis
        unfolding e using SnTick by simp
    next
      assume "sn_storage st' = sn_storage st \<and> sn_storageReads st' = sn_storageReads st \<and>
        sn_highScore st' = sn_highScore st"
      then show ?thesis using inv by simp
    qed
  next
    case False
    with step SnTick inv show ?thesis by simp
  qed
next
  case (SnResize w h)
  with step show ?thesis using onResize_keeps[of w h st] inv by auto
qed

lemma sn_constructor_loaded:
  "sn_storageReads (sn_constructor storage rnd) = 1 \<and>
   sn_storage (sn_constructor storage rnd) = storage \<and>
   sn_highScore (sn_constructor storage rnd) = storedHighScore storage"
  by (simp add: sn_constructor_def loadHighScore_def storedHighScore_def Let_def split: option.splits)

lemma sn_ngOnInit_keeps:
  "sn_ngOnInit w h st = Inr st' \<Longrightarrow>
   sn_storage st' = sn_storage st \<and> sn_storageReads st' = sn_storageReads st \<and>
   sn_highScore st' = sn_highScore st"
  unfolding sn_ngOnInit_def using sn_initGame_keeps[of "calculateGridDimensions w h st" st'] by simp

lemma sn_run_reads:
  "sn_run es st = Inr st' \<Longrightarrow> sn_storageReads st' = sn_storageReads st"
proof (induction es arbitrary: st)
  case Nil
  then show ?case by simp
next
  case (Cons e es)
  from Cons.prems obtain st1 where s: "sn_step e st = Inr st1" and r: "sn_run es st1 = Inr st'"
    by (auto split: sum.splits)
  from Cons.IH[OF r] sn_step_reads[OF s] show ?case by simp
qed

text \<open>
  Claim C8. The constructor reads the storage once, and neither \<^verbatim>\<open>ngOnInit\<close> nor any
  sequence of events reads it again. The high score in memory is the stored one (the
  parsed item, \<open>0\<close> for a missing item) after the constructor and after every event. An
  event leaves the storage as it is, unless it is a tick that ends the game with a score
  above the stored high score; then the score is what is written.
\<close>

theorem highScore_read_once_written_at_game_end:
  "sn_storageReads (sn_constructor storage rnd) = 1 \<and>
   sn_highScore (sn_constructor storage rnd) = storedHighScore storage \<and>
   (sn_ngOnInit w h st = Inr st' \<longrightarrow>
      sn_storageReads st' = sn_storageReads st \<and> sn_storage st' = sn_storage st \<and>
      sn_highScore st' = sn_highScore st) \<and>
   (sn_run es st = Inr st' \<longrightarrow> sn_storageReads st' = sn_storageReads st) \<and>
   (sn_highScore st = storedHighScore (sn_storage st) \<and> sn_step e st = Inr st' \<longrightarrow>
      sn_highScore st' = storedHighScore (sn_storage st') \<and>
      (sn_storage st' = sn_storage st \<or>
       e = SnTick \<and> sn_gameState st' = GAME_OVER \<and>
       (\<exists>h. storedHighScore (sn_storage st) = Some h \<and> h < sn_score st) \<and>
       sn_storage st' = (sn_storage st)(highScoreKey \<mapsto> toStringInt (sn_score st))))"
  using sn_constructor_loaded[of storage rnd] sn_ngOnInit_keeps[of w h st st']
    sn_run_reads[of es st st'] sn_step_written[of st e st']
  by blast

text \<open>
  The witness: the storage holds \<open>20\<close>, the game is running with a score of 30 and the
  snake's head is at the right wall. The next tick ends the game and writes \<open>30\<close>.
\<close>

definition sn_atWall :: sn_state where
  "sn_atWall = (sn_constructor [highScoreKey \<mapsto> ''20''] (\<lambda>n. rand_zero))
     \<lparr>sn_gameState := PLAYING, sn_interval := True, sn_score := 30,
      sn_cols := 10, sn_rows := 10, sn_snake := [(9, 5), (8, 5), (7, 5)]\<rparr>"

lemma parseInt_20: "parseInt ''20'' = Some 20"
  by (simp add: parseInt_def parseDigits_def isWhiteSpace_def isDigit_def digitsValue_def Let_def)

lemma toStringInt_30: "toStringInt 30 = ''30''"
  by (simp add: toStringInt_def digits.simps[of 30] digits.simps[of 3] digitChar_def)

lemma sn_atWall_tick:
  "sn_step SnTick sn_atWall =
     Inr (sn_atWall\<lparr>sn_interval := False, sn_gameState := GAME_OVER, sn_highScore := Some 30,
                    sn_storage := [highScoreKey \<mapsto> ''30'']\<rparr>)"
  by (simp add: sn_atWall_def sn_constructor_def loadHighScore_def parseInt_20 Let_def
      sn_update_def endGame_def stopGame_def saveHighScore_def toStringInt_30 INITIAL_SPEED_def)

theorem highScore_written_at_game_end_witness:
  "sn_storageReads sn_atWall = 1 \<and>
   sn_highScore sn_atWall = Some 20 \<and>
   storedHighScore (sn_storage sn_atWall) = Some 20 \<and>
   sn_score sn_atWall = 30 \<and>
   (case sn_step SnTick sn_atWall of
      Inl err \<Rightarrow> False
    | Inr st' \<Rightarrow>
        sn_gameState st' = GAME_OVER \<and>
        sn_storage st' highScoreKey = Some ''30'' \<and>
        sn_highScore st' = storedHighScore (sn_storage st') \<and>
        sn_storageReads st' = 1)"
proof -
  let ?st' = "sn_atWall\<lparr>sn_interval := False, sn_gameState := GAME_OVER, sn_highScore := Some 30,
                    sn_storage := [highScoreKey \<mapsto> ''30'']\<rparr>"
  have f: "sn_storageReads sn_atWall = 1" "sn_highScore sn_atWall = Some 20"
    "storedHighScore (sn_storage sn_atWall) = Some 20" "sn_score sn_atWall = 30"
    by (simp_all add: sn_atWall_def sn_constructor_def loadHighScore_def parseInt_20 Let_def
        storedHighScore_def)
  have inv: "sn_highScore sn_atWall = storedHighScore (sn_storage sn_atWall)"
    using f by simp
  from highScore_read_once_written_at_game_end[of _ _ _ _ sn_atWall ?st' "[]" SnTick]
    inv sn_atWall_tick
  have t: "sn_highScore ?st' = storedHighScore (sn_storage ?st')" by blast
  show ?thesis
    unfolding sn_atWall_tick using f t by simp
qed

section \<open>Score, level and lives within a session\<close>

subsection \<open>Alien invaders\<close>

lemma rval_bounds: "0 \<le> rval r \<and> rval r < 1"
  by transfer simp

lemma randomIndex_less: "0 < n \<Longrightarrow> randomIndex r n < n"
proof -
  assume n: "0 < n"
  have "rval r * real n < real n" using rval_bounds[of r] n by simp
  then have "\<lfloor>rval r * real n\<rfloor> < int n" by (simp add: floor_less_iff)
  moreover have "0 \<le> \<lfloor>rval r * real n\<rfloor>" using rval_bounds[of r] by simp
  ultimately show ?thesis by (simp add: randomIndex_def nat_less_iff)
qed

text \<open>score, level, lives and the mother ship's points, as a tuple\<close>

definition iv_progress :: "iv_state \<Rightarrow> iv_state \<Rightarrow> bool" where
  "iv_progress st st' =
     (iv_score st \<le> iv_score st' \<and> iv_level st \<le> iv_level st' \<and> iv_lives st' \<le> iv_lives st)"

definition iv_same :: "iv_state \<Rightarrow> iv_state \<Rightarrow> bool" where
  "iv_same st st' =
     (iv_score st' = iv_score st \<and> iv_level st' = iv_level st \<and> iv_lives st' = iv_lives st \<and>
      ms_points (iv_motherShip st') = ms_points (iv_motherShip st))"

lemma dropInvaders_same: "iv_same st (dropInvaders visited invs st)"
  by (induction visited invs st rule: dropInvaders.induct) (auto simp: iv_same_def Let_def)

lemma updateInvaders_same: "iv_same st (updateInvaders deltaTime st)"
  using dropInvaders_same[of "st\<lparr>iv_animationCounter := 0, iv_invaderDirection := iv_invaderDirection st * - 1\<rparr>" "[]" "iv_invaders st"]
  by (simp add: updateInvaders_def Let_def iv_same_def)

lemma movePlayer_same: "iv_same st (movePlayer st)"
  by (simp add: movePlayer_def Let_def iv_same_def)

lemma motherShipPoints_nonneg: "k < 4 \<Longrightarrow> 0 \<le> motherShipPoints ! k"
proof -
  assume "k < 4"
  then have "k \<in> {0, 1, 2, 3}" by auto
  then show ?thesis by (auto simp: motherShipPoints_def)
qed

lemma updateMotherShip_progress:
  "iv_score (updateMotherShip deltaTime st) = iv_score st \<and>
   iv_level (updateMotherShip deltaTime st) = iv_level st \<and>
   iv_lives (updateMotherShip deltaTime st) = iv_lives st \<and>
   (0 \<le> ms_points (iv_motherShip st) \<longrightarrow> 0 \<le> ms_points (iv_motherShip (updateMotherShip deltaTime st)))"
  using motherShipPoints_nonneg[OF randomIndex_less[of 4]]
  by (simp add: updateMotherShip_def moveMotherShip_def spawnMotherShip_def iv_nextRandom_def
      Let_def split_beta)

lemma updateBullets_same: "iv_same st (updateBullets st)"
  by (simp add: updateBullets_def iv_same_def)

lemma invaderShoot_same: "iv_same st (invaderShoot st)"
  by (simp add: invaderShoot_def iv_nextRandom_def Let_def split_beta iv_same_def)

lemma addScore_nonneg: "iv_score st \<le> iv_score (addScore t st)"
proof -
  have "\<And>k. k < 3 \<Longrightarrow> (0::int) \<le> [10, 20, 40] ! k"
  proof -
    fix k :: nat assume "k < 3"
    then have "k \<in> {0, 1, 2}" by auto
    then show "(0::int) \<le> [10, 20, 40] ! k" by auto
  qed
  then show ?thesis by (auto simp: addScore_def Let_def)
qed

lemma bulletsVsInvaders_progress:
  "iv_score st \<le> iv_score (snd (bulletsVsInvaders bs st)) \<and>
   iv_level (snd (bulletsVsInvaders bs st)) = iv_level st \<and>
   iv_lives (snd (bulletsVsInvaders bs st)) = iv_lives st \<and>
   iv_motherShip (snd (bulletsVsInvaders bs st)) = iv_motherShip st"
proof (induction bs arbitrary: st)
  case Nil
  then show ?case by simp
next
  case (Cons b bs)
  show ?case
  proof (cases "firstHit b (iv_invaders st)")
    case None
    then show ?thesis using Cons.IH[of st] by (simp add: split_beta)
  next
    case (Some j)
    let ?st1 = "increaseInvaderSpeed (addScore (inv_type (iv_invaders st ! j))
        (st\<lparr>iv_invaders := (iv_invaders st)[j := (iv_invaders st ! j)\<lparr>obj_active := False\<rparr>]\<rparr>))"
    have a: "iv_score st \<le> iv_score ?st1"
      using addScore_nonneg[of "st\<lparr>iv_invaders := (iv_invaders st)[j := (iv_invaders st ! j)\<lparr>obj_active := False\<rparr>]\<rparr>" "inv_type (iv_invaders st ! j)"]
      by (simp add: increaseInvaderSpeed_def)
    have b: "iv_level ?st1 = iv_level st" "iv_lives ?st1 = iv_lives st" "iv_motherShip ?st1 = iv_motherShip st"
      by (simp_all add: increaseInvaderSpeed_def addScore_def Let_def)
    show ?thesis using Some Cons.IH[of ?st1] a b by (simp add: Let_def)
  qed
qed

lemma bulletsVsMotherShip_progress:
  "0 \<le> ms_points (iv_motherShip st) \<Longrightarrow>
   iv_score st \<le> iv_score (snd (bulletsVsMotherShip bs st)) \<and>
   iv_level (snd (bulletsVsMotherShip bs st)) = iv_level st \<and>
   iv_lives (snd (bulletsVsMotherShip bs st)) = iv_lives st \<and>
   ms_points (iv_motherShip (snd (bulletsVsMotherShip bs st))) = ms_points (iv_motherShip st)"
  by (induction bs arbitrary: st) (auto simp: split_beta)

lemma bulletsVsPlayer_progress:
  "iv_score (snd (bulletsVsPlayer bs st)) = iv_score st \<and>
   iv_level (snd (bulletsVsPlayer bs st)) = iv_level st \<and>
   iv_lives (snd (bulletsVsPlayer bs st)) \<le> iv_lives st \<and>
   iv_motherShip (snd (bulletsVsPlayer bs st)) = iv_motherShip st"
  by (induction bs arbitrary: st) (auto simp: split_beta Let_def)


lemma checkCollisions_progress:
  assumes "0 \<le> ms_points (iv_motherShip st)"
  shows "iv_score st \<le> iv_score (checkCollisions st) \<and>
         iv_level (checkCollisions st) = iv_level st \<and>
         iv_lives (checkCollisions st) \<le> iv_lives st \<and>
         ms_points (iv_motherShip (checkCollisions st)) = ms_points (iv_motherShip st)"
proof -
  define r1 where "r1 = bulletsVsInvaders (rev (iv_playerBullets st)) st"
  define st1 where "st1 = (snd r1)\<lparr>iv_playerBullets := rev (fst r1)\<rparr>"
  define r2 where "r2 = bulletsVsMotherShip (rev (iv_playerBullets st1)) st1"
  define st2 where "st2 = (snd r2)\<lparr>iv_playerBullets := rev (fst r2)\<rparr>"
  define r3 where "r3 = bulletsVsBarriers (rev (iv_playerBullets st2)) (iv_barriers st2)"
  define st3 where "st3 = st2\<lparr>iv_playerBullets := rev (fst r3), iv_barriers := snd r3\<rparr>"
  define r4 where "r4 = bulletsVsPlayer (rev (iv_invaderBullets st3)) st3"
  define st4 where "st4 = (snd r4)\<lparr>iv_invaderBullets := rev (fst r4)\<rparr>"
  define r5 where "r5 = bulletsVsBarriers (rev (iv_invaderBullets st4)) (iv_barriers st4)"
  have eq: "checkCollisions st = st4\<lparr>iv_invaderBullets := rev (fst r5), iv_barriers := snd r5\<rparr>"
    by (simp add: checkCollisions_def Let_def split_beta r1_def st1_def r2_def st2_def r3_def
        st3_def r4_def st4_def r5_def)
  have p1: "iv_score st \<le> iv_score st1" "iv_level st1 = iv_level st" "iv_lives st1 = iv_lives st"
    "iv_motherShip st1 = iv_motherShip st"
    using bulletsVsInvaders_progress[of st "rev (iv_playerBullets st)"]
    by (simp_all add: st1_def r1_def)
  have m1: "0 \<le> ms_points (iv_motherShip st1)" using assms p1 by simp
  have p2: "iv_score st1 \<le> iv_score st2" "iv_level st2 = iv_level st1" "iv_lives st2 = iv_lives st1"
    "ms_points (iv_motherShip st2) = ms_points (iv_motherShip st1)"
    using bulletsVsMotherShip_progress[OF m1, of "rev (iv_playerBullets st1)"]
    by (simp_all add: st2_def r2_def)
  have p3: "iv_score st3 = iv_score st2" "iv_level st3 = iv_level st2" "iv_lives st3 = iv_lives st2"
    "iv_motherShip st3 = iv_motherShip st2"
    by (simp_all add: st3_def)
  have p4: "iv_score st4 = iv_score st3" "iv_level st4 = iv_level st3" "iv_lives st4 \<le> iv_lives st3"
    "iv_motherShip st4 = iv_motherShip st3"
    using bulletsVsPlayer_progress[of "rev (iv_invaderBullets st3)" st3]
    by (simp_all add: st4_def r4_def)
  show ?thesis
    unfolding eq using p1 p2 p3 p4 by simp
qed

lemma nextLevel_progress:
  "iv_score (nextLevel st) = iv_score st \<and> iv_level (nextLevel st) = iv_level st + 1 \<and>
   iv_lives (nextLevel st) = iv_lives st \<and> iv_motherShip (nextLevel st) = iv_motherShip st"
  by (simp add: nextLevel_def createInvaders_def Let_def)

lemma iv_update_progress:
  assumes "0 \<le> ms_points (iv_motherShip st)"
  shows "iv_score st \<le> iv_score (iv_update deltaTime st) \<and>
         iv_level st \<le> iv_level (iv_update deltaTime st) \<and>
         iv_lives (iv_update deltaTime st) \<le> iv_lives st \<and>
         0 \<le> ms_points (iv_motherShip (iv_update deltaTime st))"
proof -
  define st1 where "st1 = movePlayer st"
  define st2 where "st2 = updateInvaders deltaTime st1"
  define st3 where "st3 = updateMotherShip deltaTime st2"
  define st4 where "st4 = updateBullets st3"
  define st5 where "st5 = checkCollisions st4"
  define st6 where "st6 = st5\<lparr>iv_invaderShootTimer := iv_invaderShootTimer st5 + deltaTime\<rparr>"
  define st7 where "st7 = (if iv_invaderShootTimer st6 > 1000
                 then (invaderShoot st6)\<lparr>iv_invaderShootTimer := 0\<rparr> else st6)"
  have eq: "iv_update deltaTime st =
      (if list_all (\<lambda>inv. \<not> obj_active inv) (iv_invaders st7) then nextLevel st7 else st7)"
    by (simp add: iv_update_def Let_def st1_def st2_def st3_def st4_def st5_def st6_def st7_def)
  have a1: "iv_same st st1" unfolding st1_def by (rule movePlayer_same)
  have a2: "iv_same st1 st2" unfolding st2_def by (rule updateInvaders_same)
  have m2: "0 \<le> ms_points (iv_motherShip st2)" using assms a1 a2 by (simp add: iv_same_def)
  have a3: "iv_score st3 = iv_score st2" "iv_level st3 = iv_level st2" "iv_lives st3 = iv_lives st2"
    "0 \<le> ms_points (iv_motherShip st3)"
    using updateMotherShip_progress[of deltaTime st2] m2 by (simp_all add: st3_def)
  have a4: "iv_same st3 st4" unfolding st4_def by (rule updateBullets_same)
  have m4: "0 \<le> ms_points (iv_motherShip st4)" using a3 a4 by (simp add: iv_same_def)
  have a5: "iv_score st4 \<le> iv_score st5" "iv_level st5 = iv_level st4" "iv_lives st5 \<le> iv_lives st4"
    "ms_points (iv_motherShip st5) = ms_points (iv_motherShip st4)"
    using checkCollisions_progress[OF m4] by (simp_all add: st5_def)
  have a6: "iv_same st5 st6" by (simp add: st6_def iv_same_def)
  have a7: "iv_same st6 st7"
    using invaderShoot_same[of st6] by (simp add: st7_def iv_same_def)
  have all7: "iv_score st \<le> iv_score st7" "iv_level st7 = iv_level st" "iv_lives st7 \<le> iv_lives st"
    "0 \<le> ms_points (iv_motherShip st7)"
    using a1 a2 a3 a4 m4 a5 a6 a7 by (simp_all add: iv_same_def)
  show ?thesis
    unfolding eq using all7 nextLevel_progress[of st7] by simp
qed

lemma iv_step_progress:
  assumes "0 \<le> ms_points (iv_motherShip st)" and "\<not> iv_restarts e st"
  shows "iv_score st \<le> iv_score (iv_step e st) \<and>
         iv_level st \<le> iv_level (iv_step e st) \<and>
         iv_lives (iv_step e st) \<le> iv_lives st \<and>
         0 \<le> ms_points (iv_motherShip (iv_step e st))"
proof (cases e)
  case (IvFrame t)
  have m: "0 \<le> ms_points (iv_motherShip (st\<lparr>iv_lastTime := t\<rparr>))" using assms(1) by simp
  show ?thesis
    using IvFrame assms(1) iv_update_progress[OF m, of "t - iv_lastTime st"]
    by (simp add: iv_gameLoop_def Let_def)
next
  case (IvKeyDown key)
  then show ?thesis
    using assms by (auto simp: iv_handleKeyDown_def Let_def shootPlayerBullet_def)
next
  case (IvKeyUp key)
  then show ?thesis using assms by (simp add: iv_handleKeyUp_def)
next
  case IvTogglePause
  then show ?thesis using assms by (simp add: iv_togglePause_def)
next
  case IvRestart
  then show ?thesis using assms by simp
qed

lemma iv_run_progress:
  "0 \<le> ms_points (iv_motherShip st) \<Longrightarrow> iv_session es st \<Longrightarrow>
   iv_score st \<le> iv_score (iv_run es st) \<and>
   iv_level st \<le> iv_level (iv_run es st) \<and>
   iv_lives (iv_run es st) \<le> iv_lives st"
proof (induction es arbitrary: st)
  case Nil
  then show ?case by simp
next
  case (Cons e es)
  from Cons.prems have nr: "\<not> iv_restarts e st" and s: "iv_session es (iv_step e st)" by simp_all
  from iv_step_progress[OF Cons.prems(1) nr] Cons.IH[OF _ s]
  show ?case by fastforce
qed

subsection \<open>Snake\<close>

lemma spawnApple_score: "spawnApple st = Inr st' \<Longrightarrow> sn_score st' = sn_score st"
  by (auto simp: spawnApple_def split: option.splits prod.splits)

lemma endGame_score: "sn_score (endGame st) = sn_score st"
  by (simp add: endGame_def Let_def saveHighScore_def stopGame_def split: option.splits)

lemma sn_update_score: "sn_update st = Inr st' \<Longrightarrow> sn_score st \<le> sn_score st'"
  by (auto simp: sn_update_def Let_def stopGame_def endGame_score
      split: list.splits if_splits sum.splits prod.splits dest!: spawnApple_score)

lemma onResize_score: "sn_score (onResize w h st) = sn_score st"
  by (simp add: onResize_def Let_def pauseGame_def resumeGame_def stopGame_def
      calculateGridDimensions_def)

lemma onKeyDown_restart_cases:
  assumes "Q (Inr (startGame st))" and "Q (Inr st)"
    and "\<And>d. Q (Inr (st\<lparr>sn_nextDirection := d\<rparr>))"
    and "Q (Inr (pauseGame st))" and "Q (Inr (resumeGame st))"
    and "sn_gameState st = GAME_OVER \<Longrightarrow> key = '' '' \<or> key = ''Enter'' \<Longrightarrow> Q (restartGame st)"
  shows "Q (onKeyDown key st)"
proof -
  have a: "\<And>c x y. Q (Inr x) \<Longrightarrow> Q (Inr y) \<Longrightarrow> Q (Inr (if c then x else y))" by simp
  have b: "\<And>c x y. Q x \<Longrightarrow> Q y \<Longrightarrow> Q (if c then x else y)" by simp
  have g: "\<And>c x y. (c \<Longrightarrow> Q x) \<Longrightarrow> Q y \<Longrightarrow> Q (if c then x else y)" by simp
  show ?thesis
    unfolding onKeyDown_def Let_def
    apply (rule b, rule assms(1))
    apply (rule b)
     apply (rule b, rule a, rule assms(3), rule assms(2))
     apply (rule b, rule a, rule assms(3), rule assms(2))
     apply (rule b, rule a, rule assms(3), rule assms(2))
     apply (rule b, rule a, rule assms(3), rule assms(2))
     apply (rule b, rule assms(4), rule assms(2))
    apply (rule b)
     apply (rule b, rule assms(5), rule assms(2))
    apply (rule g)
     apply (rule g, erule (1) assms(6), rule assms(2))
    apply (rule assms(2))
    done
qed

lemma onKeyDown_score:
  assumes "onKeyDown key st = Inr st'" and "\<not> sn_restarts (SnKeyDown key) st"
  shows "sn_score st' = sn_score st"
proof -
  let ?Q = "\<lambda>r. \<forall>s. r = Inr s \<longrightarrow> sn_score s = sn_score st"
  have "?Q (onKeyDown key st)"
  proof (rule onKeyDown_restart_cases)
    assume "sn_gameState st = GAME_OVER" and "key = '' '' \<or> key = ''Enter''"
    with assms(2) show "?Q (restartGame st)" by simp
  qed (simp_all add: startGame_def pauseGame_def resumeGame_def stopGame_def)
  with assms(1) show ?thesis by blast
qed

lemma sn_step_score:
  assumes "sn_step e st = Inr st'" and "\<not> sn_restarts e st"
  shows "sn_score st \<le> sn_score st'"
proof (cases e)
  case (SnKeyDown key)
  with assms onKeyDown_score[of key st st'] show ?thesis by simp
next
  case SnTick
  with assms sn_update_score[of st st'] show ?thesis by (simp split: if_splits)
next
  case (SnResize w h)
  with assms show ?thesis by (auto simp: onResize_score)
qed

lemma sn_run_score:
  "sn_session es st \<Longrightarrow> sn_run es st = Inr st' \<Longrightarrow> sn_score st \<le> sn_score st'"
proof (induction es arbitrary: st)
  case Nil
  then show ?case by simp
next
  case (Cons e es)
  from Cons.prems(2) obtain s where s: "sn_step e st = Inr s" and r: "sn_run es s = Inr st'"
    by (auto split: sum.splits)
  from Cons.prems(1) s have nr: "\<not> sn_restarts e st" and ss: "sn_session es s" by simp_all
  from sn_step_score[OF s nr] Cons.IH[OF ss r] show ?case by simp
qed

subsection \<open>Shape drop\<close>

definition sd_same :: "sd_state \<Rightarrow> sd_state \<Rightarrow> bool" where
  "sd_same st st' = (sd_score st' = sd_score st \<and> sd_level st' = sd_level st \<and>
                     sd_lines st' = sd_lines st)"

definition sd_progress :: "sd_state \<Rightarrow> sd_state \<Rightarrow> bool" where
  "sd_progress st st' = (sd_score st \<le> sd_score st' \<and> sd_level st \<le> sd_level st')"

lemma createRandomPiece_same: "createRandomPiece st = Inr (np, st') \<Longrightarrow> sd_same st st'"
  by (auto simp: createRandomPiece_def sd_nextRandom_def sd_same_def Let_def split: if_splits)

lemma spawnPiece_same: "spawnPiece st = Inr st' \<Longrightarrow> sd_same st st'"
  by (auto simp: spawnPiece_def Let_def sd_same_def
      split: sum.splits prod.splits option.splits list.splits if_splits
      dest!: createRandomPiece_same)

lemma points_nonneg: "n < length points \<Longrightarrow> 0 \<le> points ! n"
proof -
  assume "n < length points"
  then have "n \<in> {0, 1, 2, 3, 4}" by (auto simp: points_def)
  then show ?thesis by (auto simp: points_def)
qed

lemma scoreLines_progress:
  assumes "0 \<le> sd_level st" and "scoreLines st n = Inr st'"
  shows "sd_progress st st'"
proof -
  from assms(2) have n: "n < length points" by (auto simp: scoreLines_def split: if_splits)
  have "0 \<le> points ! n * sd_level st" using points_nonneg[OF n] assms(1) by simp
  with assms(2) n show ?thesis
    by (auto simp: scoreLines_def Let_def sd_progress_def split: if_splits)
qed

lemma lockPiece_progress:
  assumes "0 \<le> sd_level st" and "lockPiece st = Inr st'"
  shows "sd_progress st st'"
proof (cases "sd_currentPiece st")
  case None
  with assms show ?thesis by (simp add: lockPiece_def sd_progress_def)
next
  case (Some piece)
  from assms(2) Some obtain b b' n st1 where
    c: "clearLines b = Inr (b', n)"
    and s: "(if n > 0 then scoreLines (st\<lparr>sd_board := b'\<rparr>) n else Inr (st\<lparr>sd_board := b'\<rparr>)) = Inr st1"
    and p: "spawnPiece st1 = Inr st'"
    by (auto simp: lockPiece_def split: sum.splits prod.splits)
  have "sd_progress st st1"
  proof (cases "n > 0")
    case True
    with s have "scoreLines (st\<lparr>sd_board := b'\<rparr>) n = Inr st1" by simp
    from scoreLines_progress[OF _ this] assms(1) show ?thesis by (simp add: sd_progress_def)
  next
    case False
    with s show ?thesis by (auto simp: sd_progress_def)
  qed
  with spawnPiece_same[OF p] show ?thesis by (simp add: sd_progress_def sd_same_def)
qed

lemma moveLeft_same: "moveLeft st = Inr st' \<Longrightarrow> sd_same st st'"
  by (auto simp: moveLeft_def sd_same_def split: option.splits sum.splits if_splits)

lemma moveRight_same: "moveRight st = Inr st' \<Longrightarrow> sd_same st st'"
  by (auto simp: moveRight_def sd_same_def split: option.splits sum.splits if_splits)

lemma rotate_kicks_same: "rotate_kicks st piece rotated ks = Inr st' \<Longrightarrow> sd_same st st'"
  by (induction ks) (auto simp: sd_same_def split: sum.splits if_splits)

lemma rotate_same: "rotate st = Inr st' \<Longrightarrow> sd_same st st'"
  by (auto simp: rotate_def Let_def sd_same_def split: option.splits sum.splits if_splits
      dest!: rotate_kicks_same)

lemma moveDown_progress:
  assumes "0 \<le> sd_level st" and "moveDown st = Inr st'"
  shows "sd_progress st st'"
  using assms lockPiece_progress[of st st']
  by (auto simp: moveDown_def sd_progress_def split: option.splits sum.splits if_splits)

lemma hardDrop_progress:
  assumes "0 \<le> sd_level st" and "hardDrop st = Inr st'"
  shows "sd_progress st st'"
proof (cases "sd_currentPiece st")
  case None
  with assms show ?thesis by (simp add: hardDrop_def sd_progress_def)
next
  case (Some piece)
  from assms(2) Some obtain y' d where
    l: "lockPiece (if d > 0 then st\<lparr>sd_y := y', sd_score := sd_score st + d * 2\<rparr>
                   else st\<lparr>sd_y := y'\<rparr>) = Inr st'"
    by (auto simp: hardDrop_def split: sum.splits prod.splits)
  show ?thesis
  proof (cases "d > 0")
    case True
    with l have "lockPiece (st\<lparr>sd_y := y', sd_score := sd_score st + d * 2\<rparr>) = Inr st'" by simp
    from lockPiece_progress[OF _ this] assms(1) True show ?thesis by (simp add: sd_progress_def)
  next
    case False
    with l have "lockPiece (st\<lparr>sd_y := y'\<rparr>) = Inr st'" by simp
    from lockPiece_progress[OF _ this] assms(1) show ?thesis by (simp add: sd_progress_def)
  qed
qed

lemma sd_update_progress:
  assumes "0 \<le> sd_level st" and "sd_update deltaTime st = Inr st'"
  shows "sd_progress st st'"
proof -
  let ?st1 = "st\<lparr>sd_dropCounter := sd_dropCounter st + deltaTime\<rparr>"
  have m: "\<And>s. moveDown ?st1 = Inr s \<Longrightarrow> sd_progress st s"
    using moveDown_progress[of ?st1] assms(1) by (simp add: sd_progress_def)
  show ?thesis
  proof (cases "sd_gameOver st \<or> sd_paused st")
    case True
    with assms(2) show ?thesis by (auto simp: sd_update_def sd_progress_def)
  next
    case False
    show ?thesis
    proof (cases "sd_dropCounter ?st1 > sd_dropInterval ?st1")
      case True
      with False assms(2) obtain s where s: "moveDown ?st1 = Inr s"
        and e: "st' = s\<lparr>sd_dropCounter := 0\<rparr>"
        by (auto simp: sd_update_def Let_def split: sum.splits)
      from m[OF s] e show ?thesis by (simp add: sd_progress_def)
    next
      case c: False
      with False assms(2) have "st' = ?st1" by (auto simp: sd_update_def Let_def)
      then show ?thesis by (simp add: sd_progress_def)
    qed
  qed
qed

lemma sd_gameLoop_progress:
  assumes "0 \<le> sd_level st" and "sd_gameLoop t st = Inr st'"
  shows "sd_progress st st'"
proof (cases "sd_paused st")
  case True
  with assms(2) show ?thesis by (auto simp: sd_gameLoop_def sd_progress_def)
next
  case False
  with assms(2) have "sd_update (t - sd_lastTime st) (st\<lparr>sd_lastTime := t\<rparr>) = Inr st'"
    by (simp add: sd_gameLoop_def)
  from sd_update_progress[OF _ this] assms(1) show ?thesis by (simp add: sd_progress_def)
qed

lemma sd_handleKeyDown_cases:
  assumes "Q (Inr st)" and "Q (moveLeft st)" and "Q (moveRight st)" and "Q (moveDown st)"
    and "Q (rotate st)" and "Q (hardDrop st)" and "Q (Inr (sd_togglePause st))"
  shows "Q (sd_handleKeyDown key st)"
proof -
  have b: "\<And>c x y. Q x \<Longrightarrow> Q y \<Longrightarrow> Q (if c then x else y)" by simp
  show ?thesis
    unfolding sd_handleKeyDown_def
    apply (rule b, rule assms(1))
    apply (rule b, rule assms(2))
    apply (rule b, rule assms(3))
    apply (rule b, rule assms(4))
    apply (rule b, rule assms(5))
    apply (rule b, rule assms(6))
    apply (rule b, rule assms(7))
    apply (rule assms(1))
    done
qed

lemma sd_handleKeyDown_progress:
  assumes "0 \<le> sd_level st" and "sd_handleKeyDown key st = Inr st'"
  shows "sd_progress st st'"
proof -
  let ?Q = "\<lambda>r. \<forall>s. r = Inr s \<longrightarrow> sd_progress st s"
  have "?Q (sd_handleKeyDown key st)"
  proof (rule sd_handleKeyDown_cases)
    show "?Q (moveLeft st)" by (auto dest!: moveLeft_same simp: sd_progress_def sd_same_def)
    show "?Q (moveRight st)" by (auto dest!: moveRight_same simp: sd_progress_def sd_same_def)
    show "?Q (rotate st)" by (auto dest!: rotate_same simp: sd_progress_def sd_same_def)
    show "?Q (moveDown st)" by (auto dest!: moveDown_progress[OF assms(1)])
    show "?Q (hardDrop st)" by (auto dest!: hardDrop_progress[OF assms(1)])
  qed (simp_all add: sd_progress_def sd_togglePause_def)
  with assms(2) show ?thesis by blast
qed

lemma sd_step_progress:
  assumes "0 \<le> sd_level st" and "sd_step e st = Inr st'" and "\<not> sd_restarts e"
  shows "sd_progress st st'"
proof (cases e)
  case (SdFrame t)
  with assms sd_gameLoop_progress[of st t st'] show ?thesis by simp
next
  case (SdKeyDown key)
  with assms sd_handleKeyDown_progress[of st key st'] show ?thesis by simp
next
  case SdTogglePause
  with assms show ?thesis by (auto simp: sd_togglePause_def sd_progress_def)
next
  case (SdRestart now)
  with assms show ?thesis by simp
qed

lemma sd_run_progress:
  "0 \<le> sd_level st \<Longrightarrow> sd_session es st \<Longrightarrow> sd_run es st = Inr st' \<Longrightarrow> sd_progress st st'"
proof (induction es arbitrary: st)
  case Nil
  then show ?case by (simp add: sd_progress_def)
next
  case (Cons e es)
  from Cons.prems(3) obtain s where s: "sd_step e st = Inr s" and r: "sd_run es s = Inr st'"
    by (auto split: sum.splits)
  from Cons.prems(2) s have nr: "\<not> sd_restarts e" and ss: "sd_session es s" by simp_all
  have p: "sd_progress st s" by (rule sd_step_progress[OF Cons.prems(1) s nr])
  then have "0 \<le> sd_level s" using Cons.prems(1) by (simp add: sd_progress_def)
  from Cons.IH[OF this ss r] p show ?case by (simp add: sd_progress_def)
qed

subsection \<open>Space rocks\<close>

definition sr_same :: "sr_state \<Rightarrow> sr_state \<Rightarrow> bool" where
  "sr_same st st' = (sr_score st' = sr_score st \<and> sr_level st' = sr_level st \<and>
                     sr_lives st' = sr_lives st)"

definition sr_progress :: "sr_state \<Rightarrow> sr_state \<Rightarrow> bool" where
  "sr_progress st st' = (sr_score st \<le> sr_score st' \<and> sr_level st \<le> sr_level st' \<and>
                         sr_lives st' \<le> sr_lives st)"

lemma sr_same_progress: "sr_same st st' \<Longrightarrow> sr_progress st st'"
  by (simp add: sr_same_def sr_progress_def)

lemma sr_progress_refl: "sr_progress st st"
  by (simp add: sr_progress_def)

lemma sr_progress_trans: "sr_progress a b \<Longrightarrow> sr_progress b c \<Longrightarrow> sr_progress a c"
  by (simp add: sr_progress_def)

lemma pushAsteroid_same: "sr_same st (pushAsteroid pos sz st)"
  by (simp add: pushAsteroid_def split_beta sr_same_def)

lemma createExplosion_same: "sr_same st (createExplosion pos count st)"
  by (simp add: createExplosion_def sr_same_def)

lemma scoreMap_nonneg: "0 \<le> scoreMap sz"
  by (cases sz) (simp_all add: scoreMap_def)

lemma destroyAsteroid_progress:
  assumes "destroyAsteroid index st = Inr st'"
  shows "sr_progress st st'"
proof -
  from assms have i: "index < length (sr_asteroids st)"
    by (auto simp: destroyAsteroid_def split: if_splits)
  define a where "a = sr_asteroids st ! index"
  define st2 where "st2 = createExplosion (ast_pos a) 8 (st\<lparr>sr_score := sr_score st + scoreMap (ast_size a)\<rparr>)"
  define st3 where "st3 = (case ast_size a of
                      Large \<Rightarrow> pushAsteroid (ast_pos a) Medium (pushAsteroid (ast_pos a) Medium st2)
                    | Medium \<Rightarrow> pushAsteroid (ast_pos a) Small (pushAsteroid (ast_pos a) Small st2)
                    | Small \<Rightarrow> st2)"
  have e: "st' = st3\<lparr>sr_asteroids := splice1 index (sr_asteroids st3)\<rparr>"
    using assms i unfolding destroyAsteroid_def Let_def a_def st2_def st3_def by auto
  have s2: "sr_score st2 = sr_score st + scoreMap (ast_size a)" "sr_level st2 = sr_level st"
    "sr_lives st2 = sr_lives st"
    using createExplosion_same[of "st\<lparr>sr_score := sr_score st + scoreMap (ast_size a)\<rparr>" "ast_pos a" 8]
    by (simp_all add: st2_def sr_same_def)
  have s3: "sr_same st2 st3"
    using pushAsteroid_same[of st2] pushAsteroid_same[of "pushAsteroid (ast_pos a) Medium st2"]
      pushAsteroid_same[of "pushAsteroid (ast_pos a) Small st2"]
    by (cases "ast_size a") (simp_all add: st3_def sr_same_def)
  show ?thesis
    unfolding e using s2 s3 scoreMap_nonneg[of "ast_size a"]
    by (simp add: sr_progress_def sr_same_def)
qed

lemma shoot_same: "sr_same st (shoot now st) \<and> sr_gameOver (shoot now st) = sr_gameOver st"
  by (simp add: shoot_def Let_def sr_same_def)

lemma updateShip_same: "sr_same st (updateShip st)"
  by (simp add: updateShip_def Let_def sr_same_def)

lemma sr_updateBullets_same: "sr_same st (sr_updateBullets st)"
  by (simp add: sr_updateBullets_def sr_same_def)

lemma updateAsteroids_same: "sr_same st (updateAsteroids st)"
  by (simp add: updateAsteroids_def sr_same_def)

lemma updateParticles_same: "sr_same st (updateParticles st)"
  by (simp add: updateParticles_def sr_same_def)

lemma destroyShip_progress: "sr_progress st (destroyShip st)"
  using createExplosion_same[of st "ship_pos (sr_ship st)" 20]
  by (simp add: destroyShip_def Let_def sr_progress_def sr_same_def)

lemma bulletsVsAsteroids_progress:
  "bulletsVsAsteroids bs st = Inr (kept, st') \<Longrightarrow> sr_progress st st'"
proof (induction bs arbitrary: st kept)
  case Nil
  then show ?case by (simp add: sr_progress_def)
next
  case (Cons bullet earlier)
  show ?case
  proof (cases "lastTouched (length (sr_asteroids st)) (rb_pos bullet) 2 (sr_asteroids st)")
    case None
    with Cons.prems obtain k where "bulletsVsAsteroids earlier st = Inr (k, st')"
      by (auto split: sum.splits prod.splits)
    then show ?thesis by (rule Cons.IH)
  next
    case (Some j)
    with Cons.prems obtain st1 where d: "destroyAsteroid j st = Inr st1"
      and r: "bulletsVsAsteroids earlier st1 = Inr (kept, st')"
      by (auto split: sum.splits)
    from destroyAsteroid_progress[OF d] Cons.IH[OF r] show ?thesis by (rule sr_progress_trans)
  qed
qed

lemma shipVsAsteroids_progress:
  assumes "shipVsAsteroids st = Inr st'"
  shows "sr_progress st st'"
proof (cases "lastTouched (length (sr_asteroids st)) (ship_pos (sr_ship st)) (ship_radius (sr_ship st))
             (sr_asteroids st)")
  case None
  with assms show ?thesis by (auto simp: shipVsAsteroids_def sr_progress_def)
next
  case (Some i)
  with assms have "destroyAsteroid i (destroyShip st) = Inr st'" by (simp add: shipVsAsteroids_def)
  from destroyShip_progress destroyAsteroid_progress[OF this] show ?thesis by (rule sr_progress_trans)
qed

lemma sr_checkCollisions_progress:
  assumes "sr_checkCollisions st = Inr st'"
  shows "sr_progress st st'"
proof -
  from assms obtain kept st1 where b: "bulletsVsAsteroids (rev (sr_bullets st)) st = Inr (kept, st1)"
    and s: "shipVsAsteroids (st1\<lparr>sr_bullets := rev kept\<rparr>) = Inr st'"
    by (auto simp: sr_checkCollisions_def split: sum.splits prod.splits)
  have "sr_progress st (st1\<lparr>sr_bullets := rev kept\<rparr>)"
    using bulletsVsAsteroids_progress[OF b] by (simp add: sr_progress_def)
  from this shipVsAsteroids_progress[OF s] show ?thesis by (rule sr_progress_trans)
qed

lemma createAsteroids_same: "createAsteroids k st = Inr st' \<Longrightarrow> sr_same st st'"
proof (induction k arbitrary: st)
  case 0
  then show ?case by (simp add: sr_same_def)
next
  case (Suc k)
  from Suc.prems obtain pos n where
    c: "createAsteroids k (pushAsteroid pos Large (st\<lparr>sr_randomCalls := n\<rparr>)) = Inr st'"
    by (auto split: option.splits prod.splits)
  from Suc.IH[OF c] pushAsteroid_same[of "st\<lparr>sr_randomCalls := n\<rparr>" pos Large]
  show ?case by (simp add: sr_same_def)
qed

lemma sr_update_progress:
  assumes "sr_update st = Inr st'"
  shows "sr_progress st st'"
proof -
  define st0 where "st0 = updateParticles (updateAsteroids (sr_updateBullets (updateShip st)))"
  have s0: "sr_same st st0"
    using updateShip_same[of st] sr_updateBullets_same[of "updateShip st"]
      updateAsteroids_same[of "sr_updateBullets (updateShip st)"]
      updateParticles_same[of "updateAsteroids (sr_updateBullets (updateShip st))"]
    by (simp add: st0_def sr_same_def)
  from assms obtain st1 where c: "sr_checkCollisions st0 = Inr st1"
    and r: "(if length (sr_asteroids st1) = 0 \<and> \<not> sr_gameOver st1
             then (let st2 = st1\<lparr>sr_level := sr_level st1 + 1\<rparr>
                   in createAsteroids (nat (4 + sr_level st2)) st2)
             else Inr st1) = Inr st'"
    by (auto simp: sr_update_def st0_def split: sum.splits)
  have p1: "sr_progress st st1"
    using s0 sr_checkCollisions_progress[OF c] by (simp add: sr_same_def sr_progress_def)
  have "sr_progress st1 st'"
  proof (cases "length (sr_asteroids st1) = 0 \<and> \<not> sr_gameOver st1")
    case True
    with r have "createAsteroids (nat (4 + (sr_level st1 + 1))) (st1\<lparr>sr_level := sr_level st1 + 1\<rparr>) = Inr st'"
      by (simp add: Let_def)
    from createAsteroids_same[OF this] show ?thesis by (simp add: sr_same_def sr_progress_def)
  next
    case False
    with r show ?thesis by (auto simp: sr_progress_def)
  qed
  with p1 show ?thesis by (rule sr_progress_trans)
qed

lemma sr_handleKeyDown_progress:
  assumes "sr_handleKeyDown key now st = Inr st'" and "\<not> sr_restarts (SrKeyDown key now) st"
  shows "sr_progress st st'"
proof -
  define st1 where "st1 = st\<lparr>sr_keys := (sr_keys st)(toLowerCase key := True)\<rparr>"
  define st2 where "st2 = (if key = '' '' \<or> key = ''Spacebar'' then shoot now st1 else st1)"
  have s2: "sr_same st st2" "sr_gameOver st2 = sr_gameOver st"
    using shoot_same[of st1 now] by (simp_all add: st2_def st1_def sr_same_def)
  from assms(2) s2 have nr: "\<not> (toLowerCase key = ''r'' \<and> sr_gameOver st2)" by simp
  from assms(1) nr have "st' = (if toLowerCase key = ''p'' then st2\<lparr>sr_paused := \<not> sr_paused st2\<rparr> else st2)"
    unfolding sr_handleKeyDown_def Let_def st1_def[symmetric] st2_def[symmetric] by auto
  with s2 show ?thesis by (simp add: sr_same_def sr_progress_def)
qed

lemma sr_step_progress:
  assumes "sr_step e st = Inr st'" and "\<not> sr_restarts e st"
  shows "sr_progress st st'"
proof (cases e)
  case SrFrame
  with assms sr_update_progress[of st st'] show ?thesis
    by (auto simp: sr_gameLoop_def sr_progress_def split: if_splits)
next
  case (SrKeyDown key now)
  with assms sr_handleKeyDown_progress[of key now st st'] show ?thesis by simp
next
  case (SrKeyUp key)
  with assms show ?thesis by (auto simp: sr_handleKeyUp_def sr_progress_def)
next
  case (SrResize w h)
  with assms show ?thesis by (auto simp: sr_handleResize_def sr_progress_def)
qed

lemma sr_run_progress:
  "sr_session es st \<Longrightarrow> sr_run es st = Inr st' \<Longrightarrow> sr_progress st st'"
proof (induction es arbitrary: st)
  case Nil
  then show ?case by (simp add: sr_progress_def)
next
  case (Cons e es)
  from Cons.prems(2) obtain s where s: "sr_step e st = Inr s" and r: "sr_run es s = Inr st'"
    by (auto split: sum.splits)
  from Cons.prems(1) s have nr: "\<not> sr_restarts e st" and ss: "sr_session es s" by simp_all
  from sr_step_progress[OF s nr] Cons.IH[OF ss r] show ?case by (rule sr_progress_trans)
qed

subsection \<open>Hopper\<close>

definition hp_same :: "hp_state \<Rightarrow> hp_state \<Rightarrow> bool" where
  "hp_same st st' = (hp_score st' = hp_score st \<and> hp_level st' = hp_level st \<and>
                     hp_lives st' = hp_lives st)"

definition hp_progress :: "hp_state \<Rightarrow> hp_state \<Rightarrow> bool" where
  "hp_progress st st' = (hp_score st \<le> hp_score st' \<and> hp_level st \<le> hp_level st' \<and>
                         hp_lives st' \<le> hp_lives st)"

lemma hp_progress_refl: "hp_progress st st"
  by (simp add: hp_progress_def)

lemma hp_progress_trans: "hp_progress a b \<Longrightarrow> hp_progress b c \<Longrightarrow> hp_progress a c"
  by (simp add: hp_progress_def)

lemma hp_same_progress: "hp_same a b \<Longrightarrow> hp_progress a b"
  by (simp add: hp_same_def hp_progress_def)

lemma resetFrog_same: "hp_same st (resetFrog st)"
  by (simp add: resetFrog_def hp_same_def)

lemma pushAlligators_same: "hp_same st (pushAlligators gs st)"
  by (induction gs arbitrary: st) (simp_all add: hp_same_def hp_nextRandom_def)

lemma spawnFemaleFrog_same: "hp_same st (spawnFemaleFrog st)"
  by (simp add: spawnFemaleFrog_def Let_def split_beta hp_nextRandom_def hp_same_def)

lemma createObstacles_same: "hp_same st (createObstacles st)"
proof -
  obtain st1 where e: "createObstacles st =
      spawnFemaleFrog (if hp_level st1 \<ge> 3
                 then pushAlligators
                        (if hp_level st1 \<ge> 6 then [0, 2, 4]
                         else if hp_level st1 \<ge> 4 then [1, 3] else [2]) st1
                 else st1)" and s1: "hp_same st st1"
    unfolding createObstacles_def Let_def hp_same_def by simp
  show ?thesis
    unfolding e
    using s1 spawnFemaleFrog_same[of "if hp_level st1 \<ge> 3
                 then pushAlligators
                        (if hp_level st1 \<ge> 6 then [0, 2, 4]
                         else if hp_level st1 \<ge> 4 then [1, 3] else [2]) st1
                 else st1"]
      pushAlligators_same[of st1 "if hp_level st1 \<ge> 6 then [0, 2, 4]
                         else if hp_level st1 \<ge> 4 then [1, 3] else [2]"]
    by (simp add: hp_same_def split: if_splits)
qed

lemma loseLife_progress: "hp_progress st (loseLife st)"
  using resetFrog_same[of "st\<lparr>hp_lives := hp_lives st - 1\<rparr>"]
  by (simp add: loseLife_def Let_def hp_progress_def hp_same_def)

lemma enterGoal_progress: "hp_progress st (enterGoal goalIndex st)"
proof -
  define bonus where "bonus = (case hp_femaleFrog st of
                     Some ff \<Rightarrow> ff_goalIndex ff = goalIndex \<and> ff_isActive ff
                   | None \<Rightarrow> False)"
  define st1 where "st1 = (if bonus then st\<lparr>hp_femaleFrog := None\<rparr> else st)"
  define goals' where "goals' = (if nat goalIndex < length (hp_goals st1)
       then (hp_goals st1)[nat goalIndex := True]
       else hp_goals st1 @ replicate (nat goalIndex - length (hp_goals st1)) False @ [True])"
  define st2 where "st2 = resetFrog (st1\<lparr>hp_goals := goals',
       hp_score := hp_score st1 + (100 + (if bonus then 500 else 0))\<rparr>)"
  define st3 where "st3 = resetFrog (createObstacles
                   (st2\<lparr>hp_level := hp_level st2 + 1,
                        hp_goals := [False, False, False, False, False]\<rparr>))"
  have e: "enterGoal goalIndex st =
      (if \<not> (nat goalIndex < length (hp_goals st1) \<and> hp_goals st1 ! nat goalIndex)
       then (if list_all (\<lambda>g. g) (hp_goals st2) then st3 else st2)
       else loseLife st1)"
    unfolding enterGoal_def Let_def bonus_def st1_def goals'_def st2_def st3_def by simp
  have s1: "hp_same st st1" by (simp add: st1_def hp_same_def)
  have s2: "hp_progress st1 st2"
    using resetFrog_same[of "st1\<lparr>hp_goals := goals',
       hp_score := hp_score st1 + (100 + (if bonus then 500 else 0))\<rparr>"]
    by (simp add: st2_def hp_progress_def hp_same_def)
  have s3: "hp_progress st2 st3"
    using resetFrog_same[of "createObstacles
                   (st2\<lparr>hp_level := hp_level st2 + 1,
                        hp_goals := [False, False, False, False, False]\<rparr>)"]
      createObstacles_same[of "st2\<lparr>hp_level := hp_level st2 + 1,
                        hp_goals := [False, False, False, False, False]\<rparr>"]
    by (simp add: st3_def hp_progress_def hp_same_def)
  show ?thesis
    unfolding e using s1 s2 s3 loseLife_progress[of st1]
    by (simp add: hp_progress_def hp_same_def)
qed

lemma reachGoalRow_progress: "hp_progress st (reachGoalRow st)"
  by (simp add: reachGoalRow_def Let_def loseLife_progress enterGoal_progress split: option.splits)

lemma ridePlatforms_same: "hp_same st (snd (ridePlatforms ps onPlatform st))"
proof (induction ps arbitrary: onPlatform st)
  case Nil
  show ?case by (simp add: hp_same_def)
next
  case (Cons platform rest)
  from Cons.IH[where onPlatform = True and
      st = "st\<lparr>hp_frog := (hp_frog st)\<lparr>hop_x := hop_x (hp_frog st) + hop_speed platform\<rparr>\<rparr>"]
    Cons.IH[where onPlatform = onPlatform and st = st]
  show ?case by (simp add: hp_same_def)
qed

lemma hitEach_progress: "hp_progress st (hitEach objs st)"
proof (induction objs arbitrary: st)
  case Nil
  show ?case by (simp add: hp_progress_def)
next
  case (Cons obj rest)
  show ?case
  proof (cases "checkOverlap (hp_frog st) obj")
    case True
    from loseLife_progress[of st] Cons.IH[of "loseLife st"] True show ?thesis
      by (simp add: hp_progress_def)
  next
    case False
    with Cons.IH[of st] show ?thesis by simp
  qed
qed

lemma hp_checkCollisions_progress: "hp_progress st (hp_checkCollisions st)"
proof -
  define r where "r = ridePlatforms (hp_logs st @ hp_turtles st) False st"
  have s1: "hp_same st (snd r)" unfolding r_def by (rule ridePlatforms_same)
  have a: "hp_progress st (loseLife (snd r))"
    using s1 loseLife_progress[of "snd r"] by (simp add: hp_progress_def hp_same_def)
  have b: "hp_progress st (hitEach (hp_snakes (snd r)) (snd r))"
    using s1 hitEach_progress[of "snd r" "hp_snakes (snd r)"] by (simp add: hp_progress_def hp_same_def)
  show ?thesis
    unfolding hp_checkCollisions_def Let_def split_beta r_def[symmetric]
    using a b reachGoalRow_progress[of st] hitEach_progress[of st "hp_cars st"]
    by (simp add: hp_progress_refl)
qed

lemma hp_update_progress:
  assumes "hp_update st = Inr st'"
  shows "hp_progress st st'"
proof (cases "hp_gameOver st \<or> hp_won st")
  case True
  with assms show ?thesis by (auto simp: hp_update_def hp_progress_def)
next
  case False
  define st1 where "st1 = st\<lparr>hp_cars := map moveLane (hp_cars st),
                       hp_logs := map moveLane (hp_logs st),
                       hp_turtles := map moveLane (hp_turtles st)\<rparr>"
  from assms False obtain snakes' where
    e: "st' = hp_checkCollisions
                      (st1\<lparr>hp_snakes := snakes',
                           hp_alligators := map tickAlligator (hp_alligators st1),
                           hp_femaleFrog := tickFemaleFrog (hp_femaleFrog st1)\<rparr>)"
    unfolding hp_update_def Let_def st1_def by (auto split: sum.splits)
  show ?thesis
    unfolding e
    using hp_checkCollisions_progress[of "st1\<lparr>hp_snakes := snakes',
                           hp_alligators := map tickAlligator (hp_alligators st1),
                           hp_femaleFrog := tickFemaleFrog (hp_femaleFrog st1)\<rparr>"]
    by (simp add: hp_progress_def st1_def)
qed

lemma hp_handleKeyDown_cases:
  assumes "key = ''Enter'' \<Longrightarrow> hp_gameOver st \<or> hp_won st \<Longrightarrow> Q (resetGame st)"
    and "Q st"
    and "Q (resetFrog (createObstacles
          (st\<lparr>hp_level := hp_level st + 1, hp_goals := [False, False, False, False, False]\<rparr>)))"
    and "\<And>f. Q (st\<lparr>hp_frog := f, hp_score := hp_score st + 10\<rparr>)"
    and "\<And>f. Q (st\<lparr>hp_frog := f\<rparr>)"
  shows "Q (hp_handleKeyDown key st)"
proof -
  have b: "\<And>c x y. Q x \<Longrightarrow> Q y \<Longrightarrow> Q (if c then x else y)" by simp
  have g: "\<And>c x y. (c \<Longrightarrow> Q x) \<Longrightarrow> Q y \<Longrightarrow> Q (if c then x else y)" by simp
  show ?thesis
    unfolding hp_handleKeyDown_def Let_def
    apply (rule g)
     apply (rule g, erule (1) assms(1), rule assms(2))
    apply (rule b, rule assms(3))
    apply (rule b, rule assms(2))
    apply (rule b, rule b, rule assms(4), rule assms(2))
    apply (rule b, rule b, rule assms(5), rule assms(2))
    apply (rule b, rule b, rule assms(5), rule assms(2))
    apply (rule b, rule b, rule assms(5), rule assms(2))
    apply (rule assms(2))
    done
qed

lemma hp_handleKeyDown_progress:
  assumes "\<not> hp_restarts (HpKeyDown key) st"
  shows "hp_progress st (hp_handleKeyDown key st)"
proof (rule hp_handleKeyDown_cases)
  assume "key = ''Enter''" and "hp_gameOver st \<or> hp_won st"
  with assms show "hp_progress st (resetGame st)" by simp
next
  show "hp_progress st (resetFrog (createObstacles
          (st\<lparr>hp_level := hp_level st + 1, hp_goals := [False, False, False, False, False]\<rparr>)))"
    using resetFrog_same[of "createObstacles
          (st\<lparr>hp_level := hp_level st + 1, hp_goals := [False, False, False, False, False]\<rparr>)"]
      createObstacles_same[of "st\<lparr>hp_level := hp_level st + 1,
          hp_goals := [False, False, False, False, False]\<rparr>"]
    by (simp add: hp_progress_def hp_same_def)
qed (simp_all add: hp_progress_def)

lemma hp_step_progress:
  assumes "hp_step e st = Inr st'" and "\<not> hp_restarts e st"
  shows "hp_progress st st'"
proof (cases e)
  case HpFrame
  with assms hp_update_progress[of st st'] show ?thesis by simp
next
  case (HpKeyDown key)
  with assms hp_handleKeyDown_progress[of key st] show ?thesis by auto
qed

lemma hp_run_progress:
  "hp_session es st \<Longrightarrow> hp_run es st = Inr st' \<Longrightarrow> hp_progress st st'"
proof (induction es arbitrary: st)
  case Nil
  then show ?case by (simp add: hp_progress_def)
next
  case (Cons e es)
  from Cons.prems(2) obtain s where s: "hp_step e st = Inr s" and r: "hp_run es s = Inr st'"
    by (auto split: sum.splits)
  from Cons.prems(1) s have nr: "\<not> hp_restarts e st" and ss: "hp_session es s" by simp_all
  from hp_step_progress[OF s nr] Cons.IH[OF ss r] show ?case by (rule hp_progress_trans)
qed

subsection \<open>Bustout\<close>

definition bo_progress :: "bo_state \<Rightarrow> bo_state \<Rightarrow> bool" where
  "bo_progress st st' = (bo_score st \<le> bo_score st' \<and> bo_level st \<le> bo_level st' \<and>
                         bo_lives st' \<le> bo_lives st)"

text \<open>No brick takes points away.\<close>

definition bo_pointsOk :: "bo_state \<Rightarrow> bool" where
  "bo_pointsOk st = list_all (\<lambda>b. 0 \<le> br_points b) (bo_bricks st)"

definition bo_inv :: "bo_state \<Rightarrow> bo_state \<Rightarrow> bool" where
  "bo_inv st st' = (bo_progress st st' \<and> bo_pointsOk st')"

lemma bo_inv_refl: "bo_pointsOk st \<Longrightarrow> bo_inv st st"
  by (simp add: bo_inv_def bo_progress_def)

lemma bo_inv_trans: "bo_inv a b \<Longrightarrow> bo_inv b c \<Longrightarrow> bo_inv a c"
  by (simp add: bo_inv_def bo_progress_def)

lemma initBricks_pointsOk: "bo_pointsOk (initBricks st)"
  by (auto simp: initBricks_def bo_pointsOk_def list_all_iff brickRowCount_def)

lemma initBricks_fields:
  "bo_score (initBricks st) = bo_score st \<and> bo_level (initBricks st) = bo_level st \<and>
   bo_lives (initBricks st) = bo_lives st"
  by (simp add: initBricks_def)

lemma newBall_fields:
  "bo_score (snd (newBall st)) = bo_score st \<and> bo_level (snd (newBall st)) = bo_level st \<and>
   bo_lives (snd (newBall st)) = bo_lives st \<and> bo_bricks (snd (newBall st)) = bo_bricks st"
  by (simp add: newBall_def Let_def)

lemma firstBrick_less: "firstBrick ball bricks = Some j \<Longrightarrow> j < length bricks"
  by (induction bricks arbitrary: j) (auto split: if_splits)

lemma updateBalls_step:
  assumes "bo_pointsOk st"
  shows "\<exists>kept' st1. updateBalls (ball # earlier) kept st = updateBalls earlier kept' st1 \<and>
           bo_inv st st1"
proof -
  define b where "b = moveBall st ball"
  show ?thesis
  proof (cases "ball_y b + ball_radius b > bo_canvasHeight st")
    case True
    show ?thesis
    proof (cases "length earlier + length kept = 0")
      case z: True
      let ?st1 = "st\<lparr>bo_lives := bo_lives st - 1\<rparr>"
      show ?thesis
      proof (cases "bo_lives ?st1 \<le> 0")
        case l: True
        have "updateBalls (ball # earlier) kept st =
            updateBalls earlier kept (?st1\<lparr>bo_gameOver := True, bo_gameStarted := False\<rparr>)"
          using True z l by (simp add: b_def[symmetric] Let_def)
        moreover have "bo_inv st (?st1\<lparr>bo_gameOver := True, bo_gameStarted := False\<rparr>)"
          using assms by (simp add: bo_inv_def bo_progress_def bo_pointsOk_def)
        ultimately show ?thesis by blast
      next
        case l: False
        have "updateBalls (ball # earlier) kept st =
            updateBalls earlier (kept @ [fst (newBall ?st1)]) (snd (newBall ?st1))"
          using True z l by (simp add: b_def[symmetric] Let_def split_beta)
        moreover have "bo_inv st (snd (newBall ?st1))"
          using assms newBall_fields[of ?st1] by (simp add: bo_inv_def bo_progress_def bo_pointsOk_def)
        ultimately show ?thesis by blast
      qed
    next
      case z: False
      have "updateBalls (ball # earlier) kept st = updateBalls earlier kept st"
        using True z by (auto simp: b_def[symmetric] Let_def)
      with bo_inv_refl[OF assms] show ?thesis by blast
    qed
  next
    case False
    show ?thesis
    proof (cases "firstBrick b (bo_bricks st)")
      case None
      have "updateBalls (ball # earlier) kept st = updateBalls earlier (b # kept) st"
        using False None by (simp add: b_def[symmetric] Let_def)
      with bo_inv_refl[OF assms] show ?thesis by blast
    next
      case (Some j)
      let ?st1 = "st\<lparr>bo_bricks := (bo_bricks st)[j := (bo_bricks st ! j)\<lparr>br_active := False\<rparr>],
                   bo_score := bo_score st + br_points (bo_bricks st ! j)\<rparr>"
      have j: "j < length (bo_bricks st)" using Some by (rule firstBrick_less)
      have p: "0 \<le> br_points (bo_bricks st ! j)"
        using assms j by (simp add: bo_pointsOk_def list_all_length)
      have "updateBalls (ball # earlier) kept st =
          updateBalls earlier (b\<lparr>ball_dy := - ball_dy b\<rparr> # kept) ?st1"
        using False Some by (simp add: b_def[symmetric] Let_def)
      moreover have "bo_inv st ?st1"
        using assms p j
        by (auto simp: bo_inv_def bo_progress_def bo_pointsOk_def list_all_length nth_list_update)
      ultimately show ?thesis by blast
    qed
  qed
qed

lemma updateBalls_inv:
  "bo_pointsOk st \<Longrightarrow> bo_inv st (snd (updateBalls bs kept st))"
proof (induction bs arbitrary: kept st)
  case Nil
  then show ?case by (simp add: bo_inv_refl)
next
  case (Cons ball earlier)
  from updateBalls_step[OF Cons.prems, of ball earlier kept] obtain kept' st1 where
    e: "updateBalls (ball # earlier) kept st = updateBalls earlier kept' st1" and i: "bo_inv st st1"
    by blast
  from i have "bo_pointsOk st1" by (simp add: bo_inv_def)
  from Cons.IH[OF this, of kept'] i show ?case unfolding e by (blast intro: bo_inv_trans)
qed

lemma bo_movePaddle_fields:
  "bo_score (bo_movePaddle st) = bo_score st \<and> bo_level (bo_movePaddle st) = bo_level st \<and>
   bo_lives (bo_movePaddle st) = bo_lives st \<and> bo_bricks (bo_movePaddle st) = bo_bricks st"
  by (simp add: bo_movePaddle_def Let_def)

lemma bo_update_inv:
  assumes "bo_pointsOk st"
  shows "bo_inv st (bo_update st)"
proof -
  define st1 where "st1 = bo_movePaddle st"
  define r where "r = updateBalls (rev (bo_balls st1)) [] st1"
  define st3 where "st3 = (snd r)\<lparr>bo_balls := fst r\<rparr>"
  define st4 where "st4 = initBricks (st3\<lparr>bo_level := bo_level st3 + 1,
                                       bo_ballSpeed := bo_ballSpeed st3 + 0.5\<rparr>)"
  have e: "bo_update st =
      (if length (filter br_active (bo_bricks st3)) = 0
       then (snd (newBall st4))\<lparr>bo_balls := [fst (newBall st4)]\<rparr> else st3)"
    unfolding bo_update_def Let_def split_beta st1_def r_def st3_def st4_def by simp
  have i1: "bo_inv st st1"
    using assms bo_movePaddle_fields[of st] by (simp add: st1_def bo_inv_def bo_progress_def bo_pointsOk_def)
  then have "bo_pointsOk st1" by (simp add: bo_inv_def)
  from updateBalls_inv[OF this, of "rev (bo_balls st1)" "[]"] have "bo_inv st1 (snd r)"
    by (simp add: r_def)
  with i1 have "bo_inv st (snd r)" by (rule bo_inv_trans)
  then have i3: "bo_inv st st3"
    by (simp add: st3_def bo_inv_def bo_progress_def bo_pointsOk_def)
  have i4: "bo_inv st3 st4"
    using initBricks_pointsOk[of "st3\<lparr>bo_level := bo_level st3 + 1,
                                       bo_ballSpeed := bo_ballSpeed st3 + 0.5\<rparr>"]
      initBricks_fields[of "st3\<lparr>bo_level := bo_level st3 + 1,
                                       bo_ballSpeed := bo_ballSpeed st3 + 0.5\<rparr>"]
    by (simp add: st4_def bo_inv_def bo_progress_def)
  have i5: "bo_inv st4 ((snd (newBall st4))\<lparr>bo_balls := [fst (newBall st4)]\<rparr>)"
    using i4 newBall_fields[of st4] by (simp add: bo_inv_def bo_progress_def bo_pointsOk_def)
  from i3 i4 i5 have "bo_inv st ((snd (newBall st4))\<lparr>bo_balls := [fst (newBall st4)]\<rparr>)"
    by (blast intro: bo_inv_trans)
  with i3 show ?thesis unfolding e by simp
qed

lemma bo_startGame_inv:
  assumes "bo_pointsOk st"
  shows "bo_inv st (bo_startGame st)"
proof -
  let ?st0 = "st\<lparr>bo_gameStarted := True, bo_gameOver := False\<rparr>"
  let ?st1 = "(snd (newBall ?st0))\<lparr>bo_balls := [fst (newBall ?st0)]\<rparr>"
  have e: "bo_startGame st = bo_update ?st1"
    by (simp add: bo_startGame_def bo_gameLoop_def split_beta)
  have i: "bo_inv st ?st1"
    using assms newBall_fields[of ?st0] by (simp add: bo_inv_def bo_progress_def bo_pointsOk_def)
  then have "bo_pointsOk ?st1" by (simp add: bo_inv_def)
  from i bo_update_inv[OF this] show ?thesis unfolding e by (rule bo_inv_trans)
qed

lemma bo_handleKeyDown_cases:
  assumes "Q (st\<lparr>bo_rightPressed := True\<rparr>)" and "Q (st\<lparr>bo_leftPressed := True\<rparr>)"
    and "Q (bo_startGame st)"
    and "key = ''r'' \<and> bo_gameOver st \<Longrightarrow> Q (bo_resetGame st)"
    and "Q st"
  shows "Q (bo_handleKeyDown key st)"
proof -
  have b: "\<And>c x y. Q x \<Longrightarrow> Q y \<Longrightarrow> Q (if c then x else y)" by simp
  have g: "\<And>c x y. (c \<Longrightarrow> Q x) \<Longrightarrow> Q y \<Longrightarrow> Q (if c then x else y)" by simp
  show ?thesis
    unfolding bo_handleKeyDown_def
    apply (rule b, rule assms(1))
    apply (rule b, rule assms(2))
    apply (rule b, rule assms(3))
    apply (rule g, erule assms(4))
    apply (rule assms(5))
    done
qed

lemma bo_handleKeyDown_inv:
  assumes "bo_pointsOk st" and "\<not> bo_restarts (BoKeyDown key) st"
  shows "bo_inv st (bo_handleKeyDown key st)"
proof (rule bo_handleKeyDown_cases)
  assume "key = ''r'' \<and> bo_gameOver st"
  with assms(2) show "bo_inv st (bo_resetGame st)" by simp
next
  show "bo_inv st (bo_startGame st)" using assms(1) by (rule bo_startGame_inv)
qed (use assms(1) in \<open>simp_all add: bo_inv_def bo_progress_def bo_pointsOk_def\<close>)

lemma bo_step_inv:
  assumes "bo_pointsOk st" and "\<not> bo_restarts e st"
  shows "bo_inv st (bo_step e st)"
proof (cases e)
  case BoFrame
  with bo_update_inv[OF assms(1)] bo_inv_refl[OF assms(1)] show ?thesis
    by (simp add: bo_gameLoop_def)
next
  case (BoKeyDown key)
  with bo_handleKeyDown_inv[of st key] assms show ?thesis by simp
next
  case (BoKeyUp key)
  with assms(1) show ?thesis
    by (simp add: bo_handleKeyUp_def bo_inv_def bo_progress_def bo_pointsOk_def)
next
  case (BoMouseMove x)
  with assms(1) show ?thesis
    by (simp add: bo_handleMouseMove_def bo_inv_def bo_progress_def bo_pointsOk_def)
next
  case (BoResize w h)
  with initBricks_pointsOk initBricks_fields show ?thesis
    by (simp add: initCanvas_def bo_inv_def bo_progress_def)
qed

lemma bo_run_inv:
  "bo_pointsOk st \<Longrightarrow> bo_session es st \<Longrightarrow> bo_inv st (bo_run es st)"
proof (induction es arbitrary: st)
  case Nil
  then show ?case by (simp add: bo_inv_refl)
next
  case (Cons e es)
  from Cons.prems(2) have nr: "\<not> bo_restarts e st" and ss: "bo_session es (bo_step e st)" by simp_all
  have i: "bo_inv st (bo_step e st)" by (rule bo_step_inv[OF Cons.prems(1) nr])
  then have "bo_pointsOk (bo_step e st)" by (simp add: bo_inv_def)
  from i Cons.IH[OF this ss] show ?case by (simp add: bo_inv_trans)
qed

end
